(* ===== verification/Prelude.thy ===== *)
theory Prelude
  imports Main "HOL-Library.Word" "HOL-Library.State_Monad"
begin

text \<open>
  Shared vocabulary of the development: machine integer names, the state monad's
  small statements (read a component, update the state, conditional statement, loop over
  a list, loop with fuel), and the two ways in which facts about stateful code are stated:
  \<open>wp\<close> (what holds of result and final state) and \<open>keeps\<close> (an observation of
  the state that a statement does not change).
\<close>

unbundle bit_operations_syntax

subsection \<open>Machine integers\<close>

text \<open>The target is a 32-bit PowerPC: \<open>long\<close>, \<open>unsigned long\<close>, \<open>int\<close>,
  \<open>time_t\<close> and \<open>pid_t\<close> have 32 bits, \<open>u64\<close> and \<open>long long\<close> have 64.
  Signedness is in the operations (\<open>sint\<close>, \<open><s\<close>), as on the machine.\<close>

type_synonym u8 = "8 word"
type_synonym u32 = "32 word"
type_synonym s32 = "32 word"
type_synonym u64 = "64 word"
type_synonym s64 = "64 word"

text \<open>C's signed division truncates towards zero.\<close>

definition cdiv :: "int \<Rightarrow> int \<Rightarrow> int" where
  "cdiv a b = sgn a * sgn b * (\<bar>a\<bar> div \<bar>b\<bar>)"

lemma sint_word_of_int_range:
  "- (2 ^ 31) \<le> z \<Longrightarrow> z < 2 ^ 31 \<Longrightarrow> sint (word_of_int z :: 32 word) = z"
  by (simp add: signed_of_int signed_take_bit_int_eq_self)

lemma unat_mult_small:
  "unat (a :: 'a::len word) * unat b < 2 ^ LENGTH('a) \<Longrightarrow> unat (a * b) = unat a * unat b"
  by (simp add: unat_word_ariths)

lemma unat_add_small:
  "unat (a :: 'a::len word) + unat b < 2 ^ LENGTH('a) \<Longrightarrow> unat (a + b) = unat a + unat b"
  by (simp add: unat_word_ariths)

subsection \<open>Statements\<close>

definition gets :: "('s \<Rightarrow> 'a) \<Rightarrow> ('s, 'a) state" where
  "gets f = do { s \<leftarrow> State_Monad.get; State_Monad.return (f s) }"

definition modify :: "('s \<Rightarrow> 's) \<Rightarrow> ('s, unit) state" where
  "modify f = do { s \<leftarrow> State_Monad.get; State_Monad.set (f s) }"

abbreviation ret :: "'a \<Rightarrow> ('s, 'a) state" where
  "ret \<equiv> State_Monad.return"

abbreviation skip :: "('s, unit) state" where
  "skip \<equiv> State_Monad.return ()"

definition when_m :: "bool \<Rightarrow> ('s, unit) state \<Rightarrow> ('s, unit) state" where
  "when_m c m = (if c then m else State_Monad.return ())"

fun for_each :: "'a list \<Rightarrow> ('a \<Rightarrow> ('s, unit) state) \<Rightarrow> ('s, unit) state" where
  "for_each [] f = State_Monad.return ()"
| "for_each (x # xs) f = do { f x; for_each xs f }"

text \<open>A loop with \<open>break\<close>: the body answers whether to go on.\<close>

fun for_each_while :: "'a list \<Rightarrow> ('a \<Rightarrow> ('s, bool) state) \<Rightarrow> ('s, unit) state" where
  "for_each_while [] f = State_Monad.return ()"
| "for_each_while (x # xs) f =
     do { go \<leftarrow> f x; if go then for_each_while xs f else State_Monad.return () }"

text \<open>A loop that need not end: each turn either goes round again with new local
  variables (\<open>Inl\<close>) or leaves with a result (\<open>Inr\<close>); \<open>None\<close> says that the fuel
  ran out before the loop was left.\<close>

fun loop_m :: "nat \<Rightarrow> ('a \<Rightarrow> ('s, 'a + 'b) state) \<Rightarrow> 'a \<Rightarrow> ('s, 'b option) state" where
  "loop_m 0 body a = State_Monad.return None"
| "loop_m (Suc n) body a = do {
     r \<leftarrow> body a;
     (case r of Inl a' \<Rightarrow> loop_m n body a' | Inr b \<Rightarrow> State_Monad.return (Some b)) }"

text \<open>Sequencing where a statement may give no answer (it does not return).\<close>

definition and_then ::
    "('s, 'a option) state \<Rightarrow> ('a \<Rightarrow> ('s, 'b option) state) \<Rightarrow> ('s, 'b option) state" where
  "and_then m f = do {
     r \<leftarrow> m;
     (case r of None \<Rightarrow> State_Monad.return None | Some x \<Rightarrow> f x) }"

definition exec :: "('s, 'a) state \<Rightarrow> 's \<Rightarrow> 's" where
  "exec m s = snd (run_state m s)"

definition result :: "('s, 'a) state \<Rightarrow> 's \<Rightarrow> 'a" where
  "result m s = fst (run_state m s)"

subsection \<open>Running statements\<close>

lemma run_gets [simp]: "run_state (gets f) s = (f s, s)"
  by (simp add: gets_def)

lemma run_modify [simp]: "run_state (modify f) s = ((), f s)"
  by (simp add: modify_def)

lemma run_when_m [simp]: "run_state (when_m c m) s = (if c then run_state m s else ((), s))"
  by (simp add: when_m_def)

lemma run_pair: "run_state m s = (result m s, exec m s)"
  by (simp add: result_def exec_def)

lemma exec_ret [simp]: "exec (State_Monad.return x) s = s"
  and exec_gets [simp]: "exec (gets f) s = s"
  and exec_modify [simp]: "exec (modify g) s = g s"
  and exec_when_m [simp]: "exec (when_m c m) s = (if c then exec m s else s)"
  by (simp_all add: exec_def)

lemma result_ret [simp]: "result (State_Monad.return x) s = x"
  and result_gets [simp]: "result (gets f) s = f s"
  by (simp_all add: result_def)

lemma exec_bind [simp]: "exec (State_Monad.bind m f) s = exec (f (result m s)) (exec m s)"
  by (simp add: exec_def result_def split: prod.splits)

lemma result_bind [simp]:
  "result (State_Monad.bind m f) s = result (f (result m s)) (exec m s)"
  by (simp add: exec_def result_def split: prod.splits)

lemma and_then_laws [simp]:
  "and_then (State_Monad.return None) f = State_Monad.return None"
  "and_then (State_Monad.return (Some x)) f = f x"
  "State_Monad.bind (and_then m f) k = State_Monad.bind m (\<lambda>r. case r of None \<Rightarrow> k None | Some x \<Rightarrow> State_Monad.bind (f x) k)"
  by (auto simp: and_then_def intro!: arg_cong [where f = "State_Monad.bind m"] split: option.split)

lemma result_exec_eqI: "(\<And>s. result m s = result n s \<and> exec m s = exec n s) \<Longrightarrow> m = n"
  by (cases m; cases n) (auto simp: result_def exec_def fun_eq_iff prod_eq_iff)

lemma and_then_run [simp]:
  "exec (and_then m f) s =
     (case result m s of None \<Rightarrow> exec m s | Some x \<Rightarrow> exec (f x) (exec m s))"
  "result (and_then m f) s =
     (case result m s of None \<Rightarrow> None | Some x \<Rightarrow> result (f x) (exec m s))"
  by (simp_all add: and_then_def split: option.split)

lemma exec_if: "exec (if c then m else n) s = (if c then exec m s else exec n s)"
  by simp

lemma for_each_append:
  "for_each (xs @ ys) f = do { for_each xs f; for_each ys f }"
  by (induction xs) simp_all

subsection \<open>What holds after a statement\<close>

definition wp :: "('s, 'a) state \<Rightarrow> ('a \<Rightarrow> 's \<Rightarrow> bool) \<Rightarrow> 's \<Rightarrow> bool" where
  "wp m Q s \<longleftrightarrow> Q (result m s) (exec m s)"

lemma wp_ret [simp]: "wp (State_Monad.return x) Q s = Q x s"
  and wp_gets [simp]: "wp (gets f) Q s = Q (f s) s"
  and wp_modify [simp]: "wp (modify g) (Q' :: unit \<Rightarrow> 's \<Rightarrow> bool) (s :: 's) = Q' () (g s)"
  and wp_bind [simp]: "wp (State_Monad.bind m k) Q s = wp m (\<lambda>r. wp (k r) Q) s"
  by (simp_all add: wp_def)

lemma wp_when_m [simp]: "wp (when_m c m) Q s = (if c then wp m Q s else Q () s)"
  by (simp add: wp_def when_m_def)

lemma wp_if [simp]: "wp (if c then m else n) Q s = (if c then wp m Q s else wp n Q s)"
  by simp

lemma wp_mono: "wp m Q s \<Longrightarrow> (\<And>r t. Q r t \<Longrightarrow> R r t) \<Longrightarrow> wp m R s"
  by (simp add: wp_def)

lemma wp_for_each_inv:
  assumes "I s" and "\<And>x t. x \<in> set xs \<Longrightarrow> I t \<Longrightarrow> I (exec (f x) t)"
  shows "I (exec (for_each xs f) s)"
  using assms by (induction xs arbitrary: s) simp_all

subsection \<open>What a statement leaves alone\<close>

named_theorems keeps_intros

definition keeps :: "('s \<Rightarrow> 'v) \<Rightarrow> ('s, 'a) state \<Rightarrow> bool" where
  "keeps obs m \<longleftrightarrow> (\<forall>s. obs (exec m s) = obs s)"

lemma keepsI: "(\<And>s. obs (exec m s) = obs s) \<Longrightarrow> keeps obs m"
  by (simp add: keeps_def)

lemma keepsD: "keeps obs m \<Longrightarrow> obs (exec m s) = obs s"
  by (simp add: keeps_def)

lemma keeps_ret [keeps_intros]: "keeps obs (State_Monad.return x)"
  and keeps_gets [keeps_intros]: "keeps obs (gets f)"
  by (simp_all add: keeps_def)

lemma keeps_modify [keeps_intros]: "(\<And>s. obs (g s) = obs s) \<Longrightarrow> keeps obs (modify g)"
  by (simp add: keeps_def)

lemma keeps_bind [keeps_intros]:
  "keeps obs m \<Longrightarrow> (\<And>r. keeps obs (f r)) \<Longrightarrow> keeps obs (State_Monad.bind m f)"
  by (simp add: keeps_def)

lemma keeps_when_m [keeps_intros]: "(c \<Longrightarrow> keeps obs m) \<Longrightarrow> keeps obs (when_m c m)"
  by (simp add: keeps_def)

lemma keeps_if [keeps_intros]:
  "(c \<Longrightarrow> keeps obs m) \<Longrightarrow> (\<not> c \<Longrightarrow> keeps obs n) \<Longrightarrow> keeps obs (if c then m else n)"
  by simp

lemma keeps_case_option [keeps_intros]:
  "(x = None \<Longrightarrow> keeps obs m) \<Longrightarrow> (\<And>y. x = Some y \<Longrightarrow> keeps obs (f y)) \<Longrightarrow>
   keeps obs (case x of None \<Rightarrow> m | Some y \<Rightarrow> f y)"
  by (cases x) simp_all

lemma keeps_and_then [keeps_intros]:
  "keeps obs m \<Longrightarrow> (\<And>x. keeps obs (f x)) \<Longrightarrow> keeps obs (and_then m f)"
  by (simp add: keeps_def split: option.split)

lemma keeps_case_prod [keeps_intros]:
  "(\<And>a b. keeps obs (f a b)) \<Longrightarrow> keeps obs (case x of (a, b) \<Rightarrow> f a b)"
  by (cases x) simp

lemma keeps_let [keeps_intros]: "keeps obs (f x) \<Longrightarrow> keeps obs (let y = x in f y)"
  by simp

lemma keeps_for_each [keeps_intros]:
  "(\<And>x. x \<in> set xs \<Longrightarrow> keeps obs (f x)) \<Longrightarrow> keeps obs (for_each xs f)"
  by (induction xs) (simp_all add: keeps_def)

lemma keeps_for_each_while [keeps_intros]:
  "(\<And>x. x \<in> set xs \<Longrightarrow> keeps obs (f x)) \<Longrightarrow> keeps obs (for_each_while xs f)"
  by (induction xs) (simp_all add: keeps_def)

lemma keeps_loop_m [keeps_intros]:
  assumes "\<And>a. keeps obs (body a)"
  shows "keeps obs (loop_m n body a)"
proof (induction n arbitrary: a)
  case 0
  show ?case by (simp add: keeps_ret)
next
  case (Suc n)
  show ?case
    by (auto intro!: keeps_bind assms keeps_ret Suc split: sum.splits)
qed

subsection \<open>More fuel never changes the result of a loop\<close>

lemma loop_m_mono:
  "result (loop_m n body a) s = Some b \<Longrightarrow>
   result (loop_m (Suc n) body a) s = Some b \<and>
   exec (loop_m (Suc n) body a) s = exec (loop_m n body a) s"
proof (induction n arbitrary: a s)
  case 0
  then show ?case by simp
next
  case (Suc n)
  show ?case
  proof (cases "result (body a) s")
    case (Inl a')
    with Suc.prems have "result (loop_m n body a') (exec (body a) s) = Some b" by simp
    from Suc.IH [OF this] Inl show ?thesis by simp
  next
    case (Inr b')
    with Suc.prems show ?thesis by simp
  qed
qed

end
