(* ===== verification/Os_ctrl_common.thy ===== *)
theory Os_ctrl_common
  imports Prelude
begin

text \<open>
  \<open>km_os_ctrl/os_ctrl_common.h\<close>: the wire protocol between the profiling library and
  the kernel module (lengths, field offsets, commands) and the \<open>ELAPSED\<close> macro, over
  the target's representation of values as bytes (PowerPC, big endian).
\<close>

subsection \<open>Values as bytes\<close>

fun be_bytes :: "nat \<Rightarrow> nat \<Rightarrow> u8 list" where
  "be_bytes 0 x = []"
| "be_bytes (Suc n) x = be_bytes n (x div 256) @ [of_nat (x mod 256)]"

definition be_val :: "u8 list \<Rightarrow> nat" where
  "be_val bs = foldl (\<lambda>a b. a * 256 + unat b) 0 bs"

lemma length_be_bytes [simp]: "length (be_bytes n x) = n"
  by (induction n arbitrary: x) simp_all

lemma be_val_snoc: "be_val (bs @ [b]) = be_val bs * 256 + unat b"
  by (simp add: be_val_def)

lemma be_val_be_bytes: "be_val (be_bytes n x) = x mod 256 ^ n"
proof (induction n arbitrary: x)
  case 0
  show ?case by (simp add: be_val_def)
next
  case (Suc n)
  have "unat (of_nat (x mod 256) :: u8) = x mod 256"
    by (simp add: unat_of_nat)
  then have "be_val (be_bytes (Suc n) x) = (x div 256 mod 256 ^ n) * 256 + x mod 256"
    by (simp add: be_val_snoc Suc.IH)
  then show ?case
    by (simp add: mod_mult2_eq mult.commute)
qed

text \<open>Reading and writing a byte buffer, as a cast pointer dereference does.\<close>

definition peek :: "nat \<Rightarrow> nat \<Rightarrow> u8 list \<Rightarrow> u8 list" where
  "peek off n buf = take n (drop off buf)"

definition poke :: "nat \<Rightarrow> u8 list \<Rightarrow> u8 list \<Rightarrow> u8 list" where
  "poke off bs buf = take off buf @ bs @ drop (off + length bs) buf"

lemma length_poke: "off + length bs \<le> length buf \<Longrightarrow> length (poke off bs buf) = length buf"
  by (simp add: poke_def)

lemma peek_poke_same:
  "off + length bs \<le> length buf \<Longrightarrow> n = length bs \<Longrightarrow> peek off n (poke off bs buf) = bs"
  by (simp add: peek_def poke_def)

lemma peek_poke_before:
  "off + n \<le> off' \<Longrightarrow> off' \<le> length buf \<Longrightarrow> peek off n (poke off' bs buf) = peek off n buf"
  by (simp add: peek_def poke_def take_drop min_def)

lemma peek_poke_after:
  "off' + length bs \<le> off \<Longrightarrow> off' \<le> length buf \<Longrightarrow>
   peek off n (poke off' bs buf) = peek off n buf"
  by (simp add: peek_def poke_def drop_append min_def)

subsection \<open>The interface of a byte codec\<close>

locale codec =
  fixes enc :: "'a \<Rightarrow> u8 list" and dec :: "u8 list \<Rightarrow> 'a" and width :: nat
  assumes dec_enc: "dec (enc x) = x"
    and length_enc: "length (enc x) = width"
begin

lemma dec_peek_poke:
  "off + width \<le> length buf \<Longrightarrow> dec (peek off width (poke off (enc x) buf)) = x"
  using length_enc [of x] by (simp add: peek_poke_same dec_enc)

lemma enc_inj: "enc x = enc y \<Longrightarrow> x = y"
  by (metis dec_enc)

lemma length_poke_enc:
  "off + width \<le> length buf \<Longrightarrow> length (poke off (enc x) buf) = length buf"
  using length_enc [of x] by (simp add: length_poke)

end

text \<open>Two codecs side by side: what a message with two fields relies on.\<close>

locale two_fields = p: codec encp decp wp + d: codec encd decd wd
  for encp :: "'p \<Rightarrow> u8 list" and decp :: "u8 list \<Rightarrow> 'p" and wp :: nat
  and encd :: "'d \<Rightarrow> u8 list" and decd :: "u8 list \<Rightarrow> 'd" and wd :: nat
begin

lemma first_survives:
  assumes "wp \<le> off" and "off \<le> length buf" and "wp \<le> length buf"
  shows "decp (peek 0 wp (poke off (encd y) (poke 0 (encp x) buf))) = x"
  using assms p.length_poke_enc [of 0 buf x]
  by (simp add: peek_poke_before p.dec_peek_poke)

lemma second_read:
  assumes "off + wd \<le> length buf" and "wp \<le> length buf"
  shows "decd (peek off wd (poke off (encd y) (poke 0 (encp x) buf))) = y"
  using assms p.length_poke_enc [of 0 buf x] by (simp add: d.dec_peek_poke)

end

definition enc_pid :: "s32 \<Rightarrow> u8 list" where
  "enc_pid p = be_bytes 4 (unat p)"

definition dec_pid :: "u8 list \<Rightarrow> s32" where
  "dec_pid bs = of_nat (be_val bs)"

definition enc_u64 :: "u64 \<Rightarrow> u8 list" where
  "enc_u64 x = be_bytes 8 (unat x)"

definition dec_u64 :: "u8 list \<Rightarrow> u64" where
  "dec_u64 bs = of_nat (be_val bs)"

lemma dec_pid_enc_pid: "dec_pid (enc_pid p) = p"
proof -
  have "unat p < 256 ^ 4" using unsigned_less [of p] by simp
  then show ?thesis by (simp only: enc_pid_def dec_pid_def be_val_be_bytes mod_less) simp
qed

lemma dec_u64_enc_u64: "dec_u64 (enc_u64 x) = x"
proof -
  have "unat x < 256 ^ 8" using unsigned_less [of x] by simp
  then show ?thesis by (simp only: enc_u64_def dec_u64_def be_val_be_bytes mod_less) simp
qed

interpretation pidc: codec enc_pid dec_pid 4
  by unfold_locales (simp_all add: dec_pid_enc_pid, simp add: enc_pid_def)

interpretation u64c: codec enc_u64 dec_u64 8
  by unfold_locales (simp_all add: dec_u64_enc_u64, simp add: enc_u64_def)

interpretation msg: two_fields enc_pid dec_pid 4 enc_u64 dec_u64 8
  by unfold_locales

subsection \<open>The protocol\<close>

definition OS_CTRL_START_CMD_LENGTH :: nat where
  "OS_CTRL_START_CMD_LENGTH = 4 + 1 + 8"

definition OS_CTRL_STOP_CMD_LENGTH :: nat where
  "OS_CTRL_STOP_CMD_LENGTH = 4 + 1"

definition OS_CTRL_RX_LENGTH :: nat where
  "OS_CTRL_RX_LENGTH = 8 + 2"

definition OS_CTRL_TX_PID_OFFSET :: nat where
  "OS_CTRL_TX_PID_OFFSET = 0"

definition OS_CTRL_TX_CMD_OFFSET :: nat where
  "OS_CTRL_TX_CMD_OFFSET = 4"

definition OS_CTRL_TX_L1_INV_DELAY_NS_OFFSET :: nat where
  "OS_CTRL_TX_L1_INV_DELAY_NS_OFFSET = OS_CTRL_TX_CMD_OFFSET + 1"

definition OS_CTRL_RX_L1_INV_OFFSET :: nat where
  "OS_CTRL_RX_L1_INV_OFFSET = 0"

definition OS_CTRL_RX_NVCSW_OFFSET :: nat where
  "OS_CTRL_RX_NVCSW_OFFSET = 8"

definition OS_CTRL_RX_NIVCSW_OFFSET :: nat where
  "OS_CTRL_RX_NIVCSW_OFFSET = OS_CTRL_RX_NVCSW_OFFSET + 1"

definition OS_CTRL_TASK_CMD_DISABLE_OS :: u8 where
  "OS_CTRL_TASK_CMD_DISABLE_OS = 0x00"

definition OS_CTRL_TASK_CMD_ENABLE_OS :: u8 where
  "OS_CTRL_TASK_CMD_ENABLE_OS = 0x01"

definition OS_CTRL_TASK_CMD_NONE :: u8 where
  "OS_CTRL_TASK_CMD_NONE = 0xFF"

lemmas protocol_defs =
  OS_CTRL_START_CMD_LENGTH_def OS_CTRL_STOP_CMD_LENGTH_def OS_CTRL_RX_LENGTH_def
  OS_CTRL_TX_PID_OFFSET_def OS_CTRL_TX_CMD_OFFSET_def OS_CTRL_TX_L1_INV_DELAY_NS_OFFSET_def
  OS_CTRL_RX_L1_INV_OFFSET_def OS_CTRL_RX_NVCSW_OFFSET_def OS_CTRL_RX_NIVCSW_OFFSET_def
  OS_CTRL_TASK_CMD_DISABLE_OS_def OS_CTRL_TASK_CMD_ENABLE_OS_def OS_CTRL_TASK_CMD_NONE_def

subsection \<open>Time stamps\<close>

record timespec =
  tv_sec :: s32
  tv_nsec :: s32

text \<open>\<open>ELAPSED\<close> is evaluated in \<open>long\<close>, 32 bits on the target.\<close>

definition SEC2NANO :: s32 where
  "SEC2NANO = 1000000000"

definition ELAPSED :: "timespec \<Rightarrow> timespec \<Rightarrow> s32" where
  "ELAPSED t_start t_stop =
     SEC2NANO * (tv_sec t_stop - tv_sec t_start) + (tv_nsec t_stop - tv_nsec t_start)"

text \<open>The time between two stamps as a number, and stamps as the clock returns them.\<close>

definition ns_of :: "timespec \<Rightarrow> int" where
  "ns_of t = 1000000000 * sint (tv_sec t) + sint (tv_nsec t)"

definition normal_ts :: "timespec \<Rightarrow> bool" where
  "normal_ts t \<longleftrightarrow> 0 \<le> sint (tv_nsec t) \<and> sint (tv_nsec t) < 1000000000"

lemma sint_ELAPSED:
  "sint (ELAPSED a b) = signed_take_bit 31 (ns_of b - ns_of a)"
proof -
  have "ELAPSED a b = word_of_int (ns_of b - ns_of a)"
    by (simp add: ELAPSED_def SEC2NANO_def ns_of_def algebra_simps)
  then show ?thesis by (simp only: signed_of_int) simp
qed

lemma ELAPSED_exact:
  "\<bar>ns_of b - ns_of a\<bar> < 2 ^ 31 \<Longrightarrow> sint (ELAPSED a b) = ns_of b - ns_of a"
  by (simp add: sint_ELAPSED signed_take_bit_int_eq_self)

end
