(* ===== verification/Libprf.thy ===== *)
theory Libprf
  imports Os_ctrl_common
begin

text \<open>
  \<open>FAILED_profiling_lib/libprf.c\<close>: the user library. \<open>START_PROFILING\<close> and
  \<open>STOP_PROFILING\<close> talk to \<open>/proc/os_ctrl\<close> through the C library's streams. The file is
  the interface \<open>profiler_device\<close>: what the library relies on is stated there, and the
  library's behaviour is proved from it.
\<close>

subsection \<open>The library's state and the C library\<close>

text \<open>\<open>device\<close> is the state behind the file.\<close>

record 's libprf =
  device :: 's
  t_start :: timespec
  t_stop :: timespec
  perrors :: "string list"

record 's proc_file =
  dev_write :: "u8 list \<Rightarrow> ('s, int) state"
  dev_read :: "u8 list \<Rightarrow> int \<Rightarrow> ('s, u8 list \<times> int) state"

text \<open>
  The stream functions. \<open>fwrite_eager\<close> says whether the C library hands a request that fills the
  stream's buffer to the kernel within \<open>fwrite\<close> or at \<open>fflush\<close> (the standard allows both).
  \<open>clock_gettime\<close> gives no time stamp when it fails. \<open>stack_bytes\<close> is what an uninitialised
  \<open>rx_buf\<close> holds and \<open>kernel_page\<close> the page the kernel gives to a read handler.
\<close>

record 's libc =
  getpid :: s32
  fopen_ok :: "'s \<Rightarrow> bool"
  setvbuf_ok :: "'s \<Rightarrow> bool"
  fwrite_eager :: bool
  fclose_ok :: "'s \<Rightarrow> bool"
  clock_gettime :: "'s \<Rightarrow> timespec option"
  stack_bytes :: "u8 list"
  kernel_page :: "u8 list"

definition LIBPRF_SUCCESS :: int where "LIBPRF_SUCCESS = 0"
definition LIBPRF_ERR_OPEN_FILE :: int where "LIBPRF_ERR_OPEN_FILE = 1"
definition LIBPRF_ERR_CLOSE_FILE :: int where "LIBPRF_ERR_CLOSE_FILE = 2"
definition LIBPRF_ERR_READ :: int where "LIBPRF_ERR_READ = 3"
definition LIBPRF_ERR_WRITE :: int where "LIBPRF_ERR_WRITE = 4"
definition LIBPRF_ERR_GET_TIME :: int where "LIBPRF_ERR_GET_TIME = 5"
definition LIBPRF_ERR_BUF_RESIZE :: int where "LIBPRF_ERR_BUF_RESIZE = 6"
definition LIBPRF_ERR_BUF_FLUSH :: int where "LIBPRF_ERR_BUF_FLUSH = 7"
definition LIBPRF_ERR_UNKNOWN :: int where "LIBPRF_ERR_UNKNOWN = 8"
definition LIBPRF_ERR_KM_BAD_VALUE :: int where "LIBPRF_ERR_KM_BAD_VALUE = 0xFF"

lemmas libprf_status_defs = LIBPRF_SUCCESS_def LIBPRF_ERR_OPEN_FILE_def LIBPRF_ERR_CLOSE_FILE_def
  LIBPRF_ERR_READ_def LIBPRF_ERR_WRITE_def LIBPRF_ERR_GET_TIME_def LIBPRF_ERR_BUF_RESIZE_def
  LIBPRF_ERR_BUF_FLUSH_def LIBPRF_ERR_UNKNOWN_def LIBPRF_ERR_KM_BAD_VALUE_def

definition perror :: "string \<Rightarrow> ('s libprf, unit) state" where
  "perror msg = modify (\<lambda>s. s\<lparr>perrors := perrors s @ [msg]\<rparr>)"

definition on_device :: "('s, 'a) state \<Rightarrow> ('s libprf, 'a) state" where
  "on_device m = do {
     s \<leftarrow> State_Monad.get;
     State_Monad.set (s\<lparr>device := exec m (device s)\<rparr>);
     ret (result m (device s)) }"

lemma libprf_simps [simp]:
  "exec (perror msg) s = s\<lparr>perrors := perrors s @ [msg]\<rparr>"
  "exec (on_device m) s = s\<lparr>device := exec m (device s)\<rparr>"
  "result (on_device m) s = result m (device s)"
  by (simp_all add: perror_def on_device_def) (simp_all add: exec_def result_def)

text \<open>\<open>fwrite\<close> of a buffer that fills the stream's buffer answers the number of bytes it took;
  \<open>fflush\<close> answers whether it succeeded.\<close>

definition fwrite :: "'s libc \<Rightarrow> 's proc_file \<Rightarrow> u8 list \<Rightarrow> ('s libprf, nat) state" where
  "fwrite L F tx_buf =
     (if fwrite_eager L then do {
        r \<leftarrow> on_device (dev_write F tx_buf);
        ret (if r < 0 then 0 else nat r) }
      else ret (length tx_buf))"

definition fflush :: "'s libc \<Rightarrow> 's proc_file \<Rightarrow> u8 list \<Rightarrow> ('s libprf, bool) state" where
  "fflush L F tx_buf =
     (if fwrite_eager L then ret True
      else do {
        r \<leftarrow> on_device (dev_write F tx_buf);
        ret (r = int (length tx_buf)) })"

text \<open>\<open>fread\<close> of ten bytes: one read of the file, a second one for the rest if it was short. It
  answers the bytes and their number.\<close>

definition fread :: "'s libc \<Rightarrow> 's proc_file \<Rightarrow> nat \<Rightarrow> ('s libprf, u8 list) state" where
  "fread L F n = do {
     (page, m) \<leftarrow> on_device (dev_read F (kernel_page L) 0);
     let got = take (min n (nat m)) page;
     (if length got = 0 \<or> length got = n then ret got
      else do {
        (page', m') \<leftarrow> on_device (dev_read F (kernel_page L) (int (length got)));
        ret (got @ take (min (n - length got) (nat m')) page') }) }"

subsection \<open>The messages\<close>

definition start_request :: "s32 \<Rightarrow> u64 \<Rightarrow> u8 list" where
  "start_request pid us = enc_pid pid @ [OS_CTRL_TASK_CMD_DISABLE_OS] @ enc_u64 us"

definition stop_request :: "s32 \<Rightarrow> u8 list" where
  "stop_request pid = enc_pid pid @ [OS_CTRL_TASK_CMD_ENABLE_OS]"

text \<open>The transmit buffer as the C code fills it, field by field.\<close>

definition fill_start :: "s32 \<Rightarrow> u64 \<Rightarrow> u8 list \<Rightarrow> u8 list" where
  "fill_start pid us tx_buf =
     poke OS_CTRL_TX_L1_INV_DELAY_NS_OFFSET (enc_u64 us)
       ((poke OS_CTRL_TX_PID_OFFSET (enc_pid pid) tx_buf)
          [OS_CTRL_TX_CMD_OFFSET := OS_CTRL_TASK_CMD_DISABLE_OS])"

definition fill_stop :: "s32 \<Rightarrow> u8 list \<Rightarrow> u8 list" where
  "fill_stop pid tx_buf =
     (poke OS_CTRL_TX_PID_OFFSET (enc_pid pid) tx_buf)
       [OS_CTRL_TX_CMD_OFFSET := OS_CTRL_TASK_CMD_ENABLE_OS]"

subsection \<open>The two calls\<close>

definition START_PROFILING :: "'s libc \<Rightarrow> 's proc_file \<Rightarrow> u64 \<Rightarrow> ('s libprf, int) state" where
  "START_PROFILING L F Interrupt_At_US = do {
     let tx_buf = fill_start (getpid L) Interrupt_At_US (take OS_CTRL_START_CMD_LENGTH (stack_bytes L));
     opened \<leftarrow> gets (\<lambda>s. fopen_ok L (device s));
     if \<not> opened then do {
       perror ''libprf START_PROFILING fopen()''; ret LIBPRF_ERR_OPEN_FILE }
     else do {
     resized \<leftarrow> gets (\<lambda>s. setvbuf_ok L (device s));
     if \<not> resized then do {
       perror ''libprf START_PROFILING setvbuf()''; ret LIBPRF_ERR_BUF_RESIZE }
     else do {
     n \<leftarrow> fwrite L F tx_buf;
     if n \<noteq> length tx_buf then do {
       perror ''libprf START_PROFILING fwrite()''; ret LIBPRF_ERR_WRITE }
     else do {
     flushed \<leftarrow> fflush L F tx_buf;
     if \<not> flushed then do {
       perror ''libprf START_PROFILING fflush()''; ret LIBPRF_ERR_BUF_FLUSH }
     else do {
     closed \<leftarrow> gets (\<lambda>s. fclose_ok L (device s));
     if \<not> closed then do {
       perror ''libprf START_PROFILING fclose()''; ret LIBPRF_ERR_CLOSE_FILE }
     else do {
     t \<leftarrow> gets (\<lambda>s. clock_gettime L (device s));
     (case t of
        None \<Rightarrow> do {
          perror ''libprf START_PROFILING clock_gettime()''; ret LIBPRF_ERR_GET_TIME }
      | Some now \<Rightarrow> do {
          modify (\<lambda>s. s\<lparr>t_start := now\<rparr>);
          ret LIBPRF_SUCCESS }) } } } } } }"

text \<open>The chain of calls that sends the stop request: the status so far.\<close>

definition send_stop :: "'s libc \<Rightarrow> 's proc_file \<Rightarrow> u8 list \<Rightarrow> ('s libprf, int) state" where
  "send_stop L F tx_buf = do {
     resized \<leftarrow> gets (\<lambda>s. setvbuf_ok L (device s));
     if \<not> resized then do {
       perror ''libprf STOP_PROFILING setvbuf()''; ret LIBPRF_ERR_BUF_RESIZE }
     else do {
     n \<leftarrow> fwrite L F tx_buf;
     if n \<noteq> length tx_buf then do {
       perror ''libprf STOP_PROFILING fwrite()''; ret LIBPRF_ERR_WRITE }
     else do {
     flushed \<leftarrow> fflush L F tx_buf;
     if \<not> flushed then do {
       perror ''libprf STOP_PROFILING fflush()''; ret LIBPRF_ERR_BUF_FLUSH }
     else ret LIBPRF_SUCCESS } } }"

text \<open>\<open>STOP_PROFILING\<close> from the opened file on: the request, the answer, the verdict.\<close>

definition finish_stop :: "'s libc \<Rightarrow> 's proc_file \<Rightarrow> ('s libprf, (int \<times> u64) option) state" where
  "finish_stop L F = do {
     status1 \<leftarrow> send_stop L F (fill_stop (getpid L) (take OS_CTRL_STOP_CMD_LENGTH (stack_bytes L)));
     got \<leftarrow> fread L F OS_CTRL_RX_LENGTH;
     let rx_buf = poke 0 got (take OS_CTRL_RX_LENGTH (stack_bytes L));
     status \<leftarrow> (if length got \<noteq> OS_CTRL_RX_LENGTH then do {
         perror ''libprf STOP_PROFILING fread()''; ret LIBPRF_ERR_READ }
       else do {
         closed \<leftarrow> gets (\<lambda>s. fclose_ok L (device s));
         if \<not> closed then do {
           perror ''libprf START_PROFILING fclose()''; ret LIBPRF_ERR_CLOSE_FILE }
         else ret status1 });
     let L1inv_dt = dec_u64 (peek OS_CTRL_RX_L1_INV_OFFSET 8 rx_buf);
     elapsed \<leftarrow> gets (\<lambda>s. scast (ELAPSED (t_start s) (t_stop s)) :: u64);
     let Measured_Time_NS = (if elapsed > L1inv_dt then elapsed - L1inv_dt else 0);
     ret (Some (if status = LIBPRF_SUCCESS \<and> (Measured_Time_NS = 0 \<or>
            rx_buf ! OS_CTRL_RX_NVCSW_OFFSET \<noteq> 0 \<or> rx_buf ! OS_CTRL_RX_NIVCSW_OFFSET \<noteq> 0)
          then LIBPRF_ERR_KM_BAD_VALUE else status, Measured_Time_NS)) }"

text \<open>
  \<open>STOP_PROFILING\<close> answers the status and the value left in \<open>*Measured_Time_NS\<close>. The
  \<open>fread\<close> follows the failed \<open>fopen\<close> as well, on a null stream: this is the result
  \<open>None\<close>, the crash.
\<close>

definition STOP_PROFILING :: "'s libc \<Rightarrow> 's proc_file \<Rightarrow> ('s libprf, (int \<times> u64) option) state" where
  "STOP_PROFILING L F = do {
     t \<leftarrow> gets (\<lambda>s. clock_gettime L (device s));
     (case t of
        None \<Rightarrow> perror ''libprf STOP_PROFILING clock_gettime()''
      | Some now \<Rightarrow> modify (\<lambda>s. s\<lparr>t_stop := now\<rparr>));
     opened \<leftarrow> gets (\<lambda>s. fopen_ok L (device s));
     if \<not> opened then do {
       perror ''libprf STOP_PROFILING fopen()''; ret None }
     else finish_stop L F }"

subsection \<open>What the messages say\<close>

lemma length_fields [simp]: "length (enc_pid pid) = 4" "length (enc_u64 us) = 8"
  by (simp_all add: enc_pid_def enc_u64_def)

text \<open>The first two fields, written over a longer buffer.\<close>

lemma fill_head:
  assumes "4 < length buf"
  shows "(poke 0 (enc_pid pid) buf)[4 := c] = enc_pid pid @ [c] @ drop 5 buf"
proof (cases "drop 4 buf")
  case Nil
  with assms show ?thesis by simp
next
  case (Cons b rest)
  then have "rest = drop 5 buf" by (metis drop_Suc tl_drop list.sel(3) eval_nat_numeral(3))
  with Cons show ?thesis by (simp add: poke_def list_update_append)
qed

lemma fill_start_is_request:
  assumes "length buf = OS_CTRL_START_CMD_LENGTH"
  shows "fill_start pid us buf = start_request pid us"
  using assms by (simp add: fill_start_def start_request_def protocol_defs fill_head)
    (simp add: poke_def)

lemma fill_stop_is_request:
  assumes "length buf = OS_CTRL_STOP_CMD_LENGTH"
  shows "fill_stop pid buf = stop_request pid"
  using assms by (simp add: fill_stop_def stop_request_def protocol_defs fill_head)

lemma rx_fields:
  fixes dt :: u64 and nv niv :: u8 and buf :: "u8 list"
  defines "rx \<equiv> poke 0 (enc_u64 dt @ [nv, niv]) buf"
  shows "dec_u64 (peek OS_CTRL_RX_L1_INV_OFFSET 8 rx) = dt" "rx ! OS_CTRL_RX_NVCSW_OFFSET = nv"
    "rx ! OS_CTRL_RX_NIVCSW_OFFSET = niv"
    "length (enc_u64 dt @ [nv, niv]) = OS_CTRL_RX_LENGTH"
  by (simp_all add: rx_def poke_def peek_def protocol_defs nth_append dec_u64_enc_u64)

subsection \<open>The file as an interface\<close>

text \<open>What the library relies on: in a \<open>usable\<close> state the two requests of process \<open>pid\<close> are
  taken whole, and the first read after a stop request answers ten bytes, the profile.\<close>

type_synonym profile = "u64 \<times> u8 \<times> u8"

definition profile_encoding :: "profile \<Rightarrow> u8 list" where
  "profile_encoding p = (case p of (dt, nv, niv) \<Rightarrow> enc_u64 dt @ [nv, niv])"

text \<open>A C library none of whose calls fails.\<close>

definition libc_works :: "s32 \<Rightarrow> 's libc \<Rightarrow> bool" where
  "libc_works pid L \<longleftrightarrow> getpid L = pid \<and> (\<forall>s. fopen_ok L s \<and> setvbuf_ok L s \<and> fclose_ok L s \<and>
     clock_gettime L s \<noteq> None) \<and> OS_CTRL_START_CMD_LENGTH \<le> length (stack_bytes L)"

text \<open>The status and time that a profile and the elapsed time amount to.\<close>

definition verdict :: "u64 \<Rightarrow> profile \<Rightarrow> int \<times> u64" where
  "verdict elapsed p = (case p of (dt, nv, niv) \<Rightarrow>
     let m = (if elapsed > dt then elapsed - dt else 0) in
     (if m = 0 \<or> nv \<noteq> 0 \<or> niv \<noteq> 0 then LIBPRF_ERR_KM_BAD_VALUE else LIBPRF_SUCCESS, m))"

locale profiler_device =
  fixes wr :: "u8 list \<Rightarrow> ('s, int) state"
    and rd :: "u8 list \<Rightarrow> int \<Rightarrow> ('s, u8 list \<times> int) state"
    and pid :: s32
    and usable :: "'s \<Rightarrow> bool"
    and prof :: "'s \<Rightarrow> profile"
  assumes start_taken: "usable s \<Longrightarrow> result (wr (start_request pid us)) s = 13"
    and stop_taken: "usable s \<Longrightarrow> result (wr (stop_request pid)) s = 5"
    and read_profile: "usable s \<Longrightarrow>
      result (rd page 0) (exec (wr (stop_request pid)) s) = (poke 0 (profile_encoding (prof s)) page, 10)"
    and start_usable: "usable s \<Longrightarrow> usable (exec (wr (start_request pid us)) s)"
begin

abbreviation prf_file :: "'s proc_file" where
  "prf_file \<equiv> \<lparr>dev_write = wr, dev_read = rd\<rparr>"

lemma start_sends:
  assumes "libc_works pid L" and "usable (device s)"
  shows "result (START_PROFILING L prf_file us) s = LIBPRF_SUCCESS"
    and "exec (START_PROFILING L prf_file us) s =
      s\<lparr>device := exec (wr (start_request pid us)) (device s),
        t_start := the (clock_gettime L (exec (wr (start_request pid us)) (device s)))\<rparr>"
proof -
  have len: "length (start_request pid us) = 13" by (simp add: start_request_def)
  have fill: "fill_start pid us (take OS_CTRL_START_CMD_LENGTH (stack_bytes L)) = start_request pid us"
    using assms(1) by (intro fill_start_is_request) (simp add: libc_works_def)
  have ok: "fopen_ok L d" "setvbuf_ok L d" "fclose_ok L d" "getpid L = pid"
    "\<exists>t. clock_gettime L d = Some t" for d
    using assms(1) by (auto simp: libc_works_def)
  obtain t where t: "clock_gettime L (exec (wr (start_request pid us)) (device s)) = Some t"
    using ok(5) by blast
  show "result (START_PROFILING L prf_file us) s = LIBPRF_SUCCESS"
    using start_taken [OF assms(2)] t
    by (cases "fwrite_eager L")
      (simp_all add: START_PROFILING_def fwrite_def fflush_def Let_def ok fill len)
  show "exec (START_PROFILING L prf_file us) s =
      s\<lparr>device := exec (wr (start_request pid us)) (device s),
        t_start := the (clock_gettime L (exec (wr (start_request pid us)) (device s)))\<rparr>"
    using start_taken [OF assms(2)] t
    by (cases "fwrite_eager L")
      (simp_all add: START_PROFILING_def fwrite_def fflush_def Let_def ok fill len)
qed

lemma send_stop_works:
  assumes "libc_works pid L" and "usable (device s)"
  shows "result (send_stop L prf_file (stop_request pid)) s = LIBPRF_SUCCESS"
    and "exec (send_stop L prf_file (stop_request pid)) s =
      s\<lparr>device := exec (wr (stop_request pid)) (device s)\<rparr>"
proof -
  have len: "length (stop_request pid) = 5" by (simp add: stop_request_def)
  have ok: "setvbuf_ok L d" for d using assms(1) by (simp add: libc_works_def)
  show "result (send_stop L prf_file (stop_request pid)) s = LIBPRF_SUCCESS"
    "exec (send_stop L prf_file (stop_request pid)) s =
      s\<lparr>device := exec (wr (stop_request pid)) (device s)\<rparr>"
    using stop_taken [OF assms(2)]
    by (cases "fwrite_eager L"; simp add: send_stop_def fwrite_def fflush_def Let_def ok len)+
qed

lemma stop_measures:
  assumes "libc_works pid L" and "usable (device s)" and "clock_gettime L (device s) = Some t"
  shows "result (STOP_PROFILING L prf_file) s =
    Some (verdict (scast (ELAPSED (t_start s) t)) (prof (device s)))"
proof -
  obtain dt nv niv where p: "prof (device s) = (dt, nv, niv)" by (cases "prof (device s)")
  have fill: "fill_stop pid (take OS_CTRL_STOP_CMD_LENGTH (stack_bytes L)) = stop_request pid"
    using assms(1) by (intro fill_stop_is_request) (simp add: libc_works_def protocol_defs)
  have ok: "fopen_ok L d" "fclose_ok L d" "getpid L = pid" for d
    using assms(1) by (simp_all add: libc_works_def)
  let ?s1 = "s\<lparr>t_stop := t, device := exec (wr (stop_request pid)) (device s)\<rparr>"
  have us: "usable (device (s\<lparr>t_stop := t\<rparr>))" using assms(2) by simp
  note send = send_stop_works [OF assms(1) us]
  have got: "result (fread L prf_file OS_CTRL_RX_LENGTH) ?s1 = enc_u64 dt @ [nv, niv]"
    "exec (fread L prf_file OS_CTRL_RX_LENGTH) ?s1 = ?s1\<lparr>device := exec (rd (kernel_page L) 0) (device ?s1)\<rparr>"
    using read_profile [OF assms(2), of "kernel_page L"] p
    by (simp_all add: fread_def protocol_defs profile_encoding_def poke_def Let_def)
  show ?thesis
    using assms(3) send got p
    by (simp add: STOP_PROFILING_def finish_stop_def Let_def ok fill verdict_def rx_fields(1-3)
        rx_fields(4) [simplified])
qed

end

subsection \<open>Status codes\<close>

text \<open>C40. \<open>START_PROFILING\<close> reports success exactly if every step worked: the file opened, its
  buffer was set, the device took the whole 13-byte request, the file closed and the clock
  gave a start time. Neither the order in which the C library talks to the kernel nor any
  other value makes a difference.\<close>

theorem start_success_iff:
  assumes "OS_CTRL_START_CMD_LENGTH \<le> length (stack_bytes L)"
  shows "let msg = start_request (getpid L) us; d = device s; d' = exec (dev_write F msg) d in
    result (START_PROFILING L F us) s = LIBPRF_SUCCESS \<longleftrightarrow>
      fopen_ok L d \<and> setvbuf_ok L d \<and> result (dev_write F msg) d = 13 \<and>
      fclose_ok L d' \<and> clock_gettime L d' \<noteq> None"
proof -
  have fill: "fill_start p u (take OS_CTRL_START_CMD_LENGTH (stack_bytes L)) = start_request p u" for p u
    using assms by (intro fill_start_is_request) simp
  have len: "length (start_request p u) = 13" for p u by (simp add: start_request_def)
  show ?thesis
    by (cases "fwrite_eager L")
      (auto simp: START_PROFILING_def fwrite_def fflush_def Let_def fill len libprf_status_defs
        split: option.split)
qed

text \<open>If \<open>/proc/os_ctrl\<close> cannot be opened, \<open>STOP_PROFILING\<close> does not return
  \<open>LIBPRF_ERR_OPEN_FILE\<close>: it goes on to read from the null stream.\<close>

theorem stop_without_file_crashes:
  "\<not> fopen_ok L (device s) \<Longrightarrow> result (STOP_PROFILING L F) s = None"
  by (cases "clock_gettime L (device s)") (simp_all add: STOP_PROFILING_def Let_def)

text \<open>What the calls answer depends on the device and the time stamps, not on the messages.\<close>

definition same_run :: "'s libprf \<Rightarrow> 's libprf \<Rightarrow> bool" where
  "same_run s t \<longleftrightarrow> device s = device t \<and> t_start s = t_start t \<and> t_stop s = t_stop t"

lemma same_run_send_stop:
  assumes "same_run s t"
  shows "result (send_stop L F b) s = result (send_stop L F b) t"
    and "same_run (exec (send_stop L F b) s) (exec (send_stop L F b) t)"
  using assms
  by (cases "fwrite_eager L"; simp add: same_run_def send_stop_def fwrite_def fflush_def)+

lemma same_run_fread:
  assumes "same_run s t"
  shows "result (fread L F n) s = result (fread L F n) t"
    and "same_run (exec (fread L F n) s) (exec (fread L F n) t)"
  using assms by (simp_all add: same_run_def fread_def Let_def split: prod.split)

lemma same_run_finish:
  assumes "same_run s t"
  shows "result (finish_stop L F) s = result (finish_stop L F) t"
proof -
  let ?b = "fill_stop (getpid L) (take OS_CTRL_STOP_CMD_LENGTH (stack_bytes L))"
  note a = same_run_send_stop [OF assms, of L F ?b]
  note b = same_run_fread [OF a(2), of L F OS_CTRL_RX_LENGTH]
  from b(2) show ?thesis
    by (simp add: finish_stop_def Let_def a(1) b(1)) (simp add: same_run_def)
qed

lemma stop_is_finish:
  assumes "fopen_ok L (device s)"
  shows "result (STOP_PROFILING L F) s = result (finish_stop L F)
    (case clock_gettime L (device s) of
       None \<Rightarrow> exec (perror ''libprf STOP_PROFILING clock_gettime()'') s
     | Some now \<Rightarrow> s\<lparr>t_stop := now\<rparr>)"
  using assms by (cases "clock_gettime L (device s)") (simp_all add: STOP_PROFILING_def)

text \<open>A clock that fails in \<open>STOP_PROFILING\<close> is not reported in the status: the call answers
  what it would have answered had the clock shown the stop time of the previous profile.\<close>

theorem stop_clock_failure_unreported:
  assumes "clock_gettime L (device s) = None"
  shows "result (STOP_PROFILING L F) s =
    result (STOP_PROFILING (L\<lparr>clock_gettime := \<lambda>_. Some (t_stop s)\<rparr>) F) s"
proof (cases "fopen_ok L (device s)")
  case False
  then show ?thesis using assms by (simp add: STOP_PROFILING_def Let_def)
next
  case True
  let ?L = "L\<lparr>clock_gettime := \<lambda>_. Some (t_stop s)\<rparr>"
  have "finish_stop ?L F = finish_stop L F"
    by (simp add: finish_stop_def send_stop_def fwrite_def fflush_def fread_def cong: if_cong)
  with True assms show ?thesis
    by (simp add: stop_is_finish) (rule same_run_finish, simp add: same_run_def)
qed

text \<open>A C library whose calls work, on a process with id 1 and with a clock that shows \<open>t\<close>.\<close>

definition demo_libc :: "timespec \<Rightarrow> 's libc" where
  "demo_libc t = \<lparr>getpid = 1, fopen_ok = (\<lambda>_. True), setvbuf_ok = (\<lambda>_. True), fwrite_eager = True,
     fclose_ok = (\<lambda>_. True), clock_gettime = (\<lambda>_. Some t), stack_bytes = replicate 13 0,
     kernel_page = replicate 10 0\<rparr>"

definition demo_file :: "nat proc_file" where
  "demo_file = \<lparr>dev_write = (\<lambda>b. do { modify Suc; ret (int (length b)) }),
     dev_read = (\<lambda>page off. ret (page, 10))\<rparr>"

definition demo_client :: "'s \<Rightarrow> 's libprf" where
  "demo_client d = \<lparr>device = d, t_start = \<lparr>tv_sec = 0, tv_nsec = 0\<rparr>,
     t_stop = \<lparr>tv_sec = 0, tv_nsec = 0\<rparr>, perrors = []\<rparr>"

lemma demo_libc_works: "libc_works 1 (demo_libc t)"
  by (simp add: libc_works_def demo_libc_def protocol_defs)

theorem start_success_iff_witness:
  "result (START_PROFILING (demo_libc \<lparr>tv_sec = 7, tv_nsec = 0\<rparr>) demo_file 5) (demo_client 0) = LIBPRF_SUCCESS"
proof -
  have "OS_CTRL_START_CMD_LENGTH \<le> length (stack_bytes (demo_libc \<lparr>tv_sec = 7, tv_nsec = 0\<rparr> :: nat libc))"
    by (simp add: demo_libc_def protocol_defs)
  from start_success_iff [OF this, where F = demo_file and us = 5 and s = "demo_client 0"] show ?thesis
    by (simp add: demo_libc_def demo_file_def demo_client_def Let_def start_request_def)
qed

theorem stop_without_file_crashes_witness:
  "result (STOP_PROFILING ((demo_libc \<lparr>tv_sec = 7, tv_nsec = 0\<rparr>)\<lparr>fopen_ok := \<lambda>_. False\<rparr>) demo_file) (demo_client 0) = None"
  by (rule stop_without_file_crashes) simp

theorem stop_clock_failure_unreported_witness:
  "result (STOP_PROFILING ((demo_libc \<lparr>tv_sec = 7, tv_nsec = 0\<rparr>)\<lparr>clock_gettime := \<lambda>_. None\<rparr>) demo_file) (demo_client 0) =
   result (STOP_PROFILING ((demo_libc \<lparr>tv_sec = 7, tv_nsec = 0\<rparr>)\<lparr>clock_gettime := \<lambda>_. Some \<lparr>tv_sec = 0, tv_nsec = 0\<rparr>\<rparr>) demo_file)
     (demo_client 0)"
  using stop_clock_failure_unreported [of "(demo_libc \<lparr>tv_sec = 7, tv_nsec = 0\<rparr>)\<lparr>clock_gettime := \<lambda>_. None\<rparr>" "demo_client 0" demo_file]
  by (simp add: demo_client_def)

end
