(* ===== verification/E500_cache.thy ===== *)
theory E500_cache
  imports Prelude
begin

text \<open>
  The inline assembly of \<open>L1-invalidator.c\<close> and \<open>os_ctrl.c\<close> (the same text in both):
  the PowerPC e500 registers it touches, the instructions it uses, and the two programs,
  run by a step function. What the programs do is in \<open>icache_asm_run\<close> and
  \<open>dcache_asm_run\<close>.
\<close>

subsection \<open>Registers and instructions\<close>

text \<open>What the outside can see of a run: writes to special registers and to the MSR, cache
  lines established by \<open>dcbz\<close> (with the MSR and HID0 in force at that moment) and
  synchronisation.\<close>

datatype ppc_event =
    Spr_write nat u32
  | Msr_write u32
  | Line_zeroed u32 u32 u32
  | Sync

record e500 =
  gpr :: "nat \<Rightarrow> u32"
  spr :: "nat \<Rightarrow> u32"
  msr :: u32
  cr0_lt :: bool
  mem :: "u32 \<Rightarrow> u8"
  ppc_log :: "ppc_event list"

datatype ppc_instr =
    Mfspr nat nat
  | Mtspr nat nat
  | Mfmsr nat
  | Mtmsr nat
  | Lis nat u32
  | Ori nat nat u32
  | And nat nat nat
  | Addi nat nat u32
  | Cmpw nat nat
  | Blt nat
  | Dcbz0 nat
  | Isync
  | Msync

definition zero_line :: "u32 \<Rightarrow> (u32 \<Rightarrow> u8) \<Rightarrow> (u32 \<Rightarrow> u8)" where
  "zero_line ea mm = (\<lambda>x. if x AND NOT 31 = ea AND NOT 31 then 0 else mm x)"

fun ppc_step :: "ppc_instr \<Rightarrow> nat \<times> e500 \<Rightarrow> nat \<times> e500" where
  "ppc_step (Mfspr d n) (pc, m) = (Suc pc, m\<lparr>gpr := (gpr m)(d := spr m n)\<rparr>)"
| "ppc_step (Mtspr n r) (pc, m) =
     (Suc pc, m\<lparr>spr := (spr m)(n := gpr m r), ppc_log := ppc_log m @ [Spr_write n (gpr m r)]\<rparr>)"
| "ppc_step (Mfmsr d) (pc, m) = (Suc pc, m\<lparr>gpr := (gpr m)(d := msr m)\<rparr>)"
| "ppc_step (Mtmsr r) (pc, m) =
     (Suc pc, m\<lparr>msr := gpr m r, ppc_log := ppc_log m @ [Msr_write (gpr m r)]\<rparr>)"
| "ppc_step (Lis d i) (pc, m) = (Suc pc, m\<lparr>gpr := (gpr m)(d := push_bit 16 i)\<rparr>)"
| "ppc_step (Ori d r i) (pc, m) = (Suc pc, m\<lparr>gpr := (gpr m)(d := gpr m r OR i)\<rparr>)"
| "ppc_step (And d r r') (pc, m) = (Suc pc, m\<lparr>gpr := (gpr m)(d := gpr m r AND gpr m r')\<rparr>)"
| "ppc_step (Addi d r i) (pc, m) = (Suc pc, m\<lparr>gpr := (gpr m)(d := gpr m r + i)\<rparr>)"
| "ppc_step (Cmpw r r') (pc, m) = (Suc pc, m\<lparr>cr0_lt := sint (gpr m r) < sint (gpr m r')\<rparr>)"
| "ppc_step (Blt target) (pc, m) = (if cr0_lt m then target else Suc pc, m)"
| "ppc_step (Dcbz0 r) (pc, m) =
     (Suc pc, m\<lparr>mem := zero_line (gpr m r) (mem m),
                ppc_log := ppc_log m @ [Line_zeroed (gpr m r) (msr m) (spr m 1008)]\<rparr>)"
| "ppc_step Isync (pc, m) = (Suc pc, m\<lparr>ppc_log := ppc_log m @ [Sync]\<rparr>)"
| "ppc_step Msync (pc, m) = (Suc pc, m\<lparr>ppc_log := ppc_log m @ [Sync]\<rparr>)"

definition ppc_next :: "ppc_instr list \<Rightarrow> nat \<times> e500 \<Rightarrow> nat \<times> e500" where
  "ppc_next P c = (if fst c < length P then ppc_step (P ! fst c) c else c)"

text \<open>Running a program for a number of steps; \<open>None\<close> if it has not left its last
  instruction by then.\<close>

definition ppc_run :: "nat \<Rightarrow> ppc_instr list \<Rightarrow> e500 \<Rightarrow> e500 option" where
  "ppc_run fuel P m =
     (let (pc, m') = (ppc_next P ^^ fuel) (0, m)
      in if length P \<le> pc then Some m' else None)"

lemma ppc_next_done: "length P \<le> pc \<Longrightarrow> (ppc_next P ^^ n) (pc, m) = (pc, m)"
  by (induction n) (simp_all add: ppc_next_def)

lemma ppc_runI:
  assumes "(ppc_next P ^^ k) (0, m) = (pc, m')" and "length P \<le> pc" and "k \<le> fuel"
  shows "ppc_run fuel P m = Some m'"
proof -
  from assms(3) obtain j where "fuel = j + k" by (metis le_add_diff_inverse2)
  then show ?thesis using assms(1,2)
    by (simp add: ppc_run_def funpow_add ppc_next_done)
qed

lemma ppc_steps_trans:
  "(ppc_next P ^^ a) c = c' \<Longrightarrow> (ppc_next P ^^ b) c' = c'' \<Longrightarrow> (ppc_next P ^^ (b + a)) c = c''"
  by (simp add: funpow_add)

subsection \<open>The instruction cache\<close>

text \<open>Special registers: 1008 is HID0, 1010 is L1CSR0 (data), 1011 is L1CSR1 (instruction).\<close>

definition icache_asm :: "ppc_instr list" where
  "icache_asm = [Mfspr 3 1011, Ori 4 3 0x0002, Mtspr 1011 4, Mtspr 1011 3, Isync]"

lemma icache_asm_run:
  assumes "5 \<le> fuel"
  shows "ppc_run fuel icache_asm m = Some (m\<lparr>gpr := (gpr m)(3 := spr m 1011, 4 := spr m 1011 OR 2),
     spr := (spr m)(1011 := spr m 1011),
     ppc_log := ppc_log m @ [Spr_write 1011 (spr m 1011 OR 2), Spr_write 1011 (spr m 1011), Sync]\<rparr>)"
proof (rule ppc_runI [OF _ _ assms])
  show "(ppc_next icache_asm ^^ 5) (0, m) = (5, m\<lparr>gpr := (gpr m)(3 := spr m 1011, 4 := spr m 1011 OR 2),
     spr := (spr m)(1011 := spr m 1011),
     ppc_log := ppc_log m @ [Spr_write 1011 (spr m 1011 OR 2), Spr_write 1011 (spr m 1011), Sync]\<rparr>)"
    by (simp add: eval_nat_numeral icache_asm_def ppc_next_def)
qed (simp add: icache_asm_def)

subsection \<open>The data cache\<close>

text \<open>\<open>%0\<close> is register \<open>ref\<close>, \<open>%1\<close> is register \<open>end\<close>; label \<open>1\<close> is
  instruction 11.\<close>

definition dcache_asm :: "nat \<Rightarrow> nat \<Rightarrow> ppc_instr list" where
  "dcache_asm ref ende =
    [Mfmsr 6, Lis 5 0xfffd, Ori 5 5 0x6fff, And 5 5 6, Mtmsr 5, Isync,
     Mfspr 7 1008, Ori 5 7 0x0040, Mtspr 1008 5, Msync, Isync,
     Dcbz0 ref, Addi ref ref 32, Cmpw ref ende, Blt 11,
     Mfspr 3 1010, Ori 3 3 0x0002, Msync, Isync, Mtspr 1010 3, Isync,
     Mtspr 1008 7, Mtmsr 6, Isync]"

definition asm_regs_ok :: "nat \<Rightarrow> nat \<Rightarrow> bool" where
  "asm_regs_ok ref ende \<longleftrightarrow> ref \<notin> {3, 5, 6, 7} \<and> ende \<notin> {3, 5, 6, 7} \<and> ref \<noteq> ende"

definition masked_msr :: "u32 \<Rightarrow> u32" where
  "masked_msr v = 0xfffd6fff AND v"

text \<open>The state at label 1 the first time, and the state at the exit.\<close>

definition dcache_prologue :: "e500 \<Rightarrow> e500" where
  "dcache_prologue m = m\<lparr>
     gpr := (gpr m)(6 := msr m, 7 := spr m 1008, 5 := spr m 1008 OR 0x40),
     msr := masked_msr (msr m),
     spr := (spr m)(1008 := spr m 1008 OR 0x40),
     ppc_log := ppc_log m @ [Msr_write (masked_msr (msr m)), Sync,
                             Spr_write 1008 (spr m 1008 OR 0x40), Sync, Sync]\<rparr>"

definition dcache_epilogue :: "e500 \<Rightarrow> e500" where
  "dcache_epilogue m = m\<lparr>
     gpr := (gpr m)(3 := spr m 1010 OR 2),
     msr := gpr m 6,
     spr := (spr m)(1010 := spr m 1010 OR 2, 1008 := gpr m 7),
     ppc_log := ppc_log m @ [Sync, Sync, Spr_write 1010 (spr m 1010 OR 2), Sync,
                             Spr_write 1008 (gpr m 7), Msr_write (gpr m 6), Sync]\<rparr>"

definition line_addrs :: "u32 \<Rightarrow> nat \<Rightarrow> u32 list" where
  "line_addrs start k = map (\<lambda>i. start + of_nat (32 * i)) [0..<k]"

definition dcache_loop :: "nat \<Rightarrow> nat \<Rightarrow> e500 \<Rightarrow> e500" where
  "dcache_loop ref k m = m\<lparr>
     gpr := (gpr m)(ref := gpr m ref + of_nat (32 * k)),
     cr0_lt := False,
     mem := fold zero_line (line_addrs (gpr m ref) k) (mem m),
     ppc_log := ppc_log m @
       map (\<lambda>a. Line_zeroed a (msr m) (spr m 1008)) (line_addrs (gpr m ref) k)\<rparr>"

lemma dcache_prologue_steps:
  "(ppc_next (dcache_asm ref ende) ^^ 11) (0, m) = (11, dcache_prologue m)"
proof -
  have five: "0xfffd6fff AND msr m = masked_msr (msr m)" by (simp add: masked_msr_def)
  have "(ppc_next (dcache_asm ref ende) ^^ 11) (0, m) =
     (11, m\<lparr>gpr := (gpr m)(6 := msr m, 5 := spr m 1008 OR 0x40, 7 := spr m 1008),
     msr := masked_msr (msr m),
     spr := (spr m)(1008 := spr m 1008 OR 0x40),
     ppc_log := ppc_log m @ [Msr_write (masked_msr (msr m)), Sync,
                             Spr_write 1008 (spr m 1008 OR 0x40), Sync, Sync]\<rparr>)"
    by (simp add: eval_nat_numeral dcache_asm_def ppc_next_def five fun_upd_twist)
  then show ?thesis by (simp add: dcache_prologue_def fun_upd_twist)
qed

lemma dcache_epilogue_steps:
  "(ppc_next (dcache_asm ref ende) ^^ 9) (15, m) = (24, dcache_epilogue m)"
  by (simp add: eval_nat_numeral dcache_asm_def ppc_next_def dcache_epilogue_def)


lemma dcache_iteration_steps:
  assumes "ref \<noteq> ende"
  shows "(ppc_next (dcache_asm ref ende) ^^ 4) (11, m) =
    (let lt = sint (gpr m ref + 32) < sint (gpr m ende) in
     (if lt then 11 else 15, (dcache_loop ref 1 m)\<lparr>cr0_lt := lt\<rparr>))"
  using assms
  by (simp add: eval_nat_numeral dcache_asm_def ppc_next_def dcache_loop_def line_addrs_def Let_def)

lemma line_addrs_Suc: "line_addrs start (Suc k) = start # line_addrs (start + 32) k"
proof -
  have "[0..<Suc k] = 0 # map Suc [0..<k]"
    by (simp only: upt_conv_Cons [of 0 "Suc k"] map_Suc_upt zero_less_Suc)
  then show ?thesis by (simp add: line_addrs_def algebra_simps)
qed

lemma dcache_loop_Suc:
  "dcache_loop ref k ((dcache_loop ref 1 m)\<lparr>cr0_lt := b\<rparr>) = dcache_loop ref (Suc k) m"
  by (simp add: dcache_loop_def line_addrs_Suc line_addrs_def [of _ 0] algebra_simps)

lemma dcache_loop_steps:
  assumes "ref \<noteq> ende" and "gpr m ende = word_of_int z"
    and "gpr m ref = word_of_int (z - 32 * int (Suc k))"
    and "- (2 ^ 31) \<le> z - 32 * int (Suc k)" and "z < 2 ^ 31"
  shows "(ppc_next (dcache_asm ref ende) ^^ (4 * Suc k)) (11, m) = (15, dcache_loop ref (Suc k) m)"
  using assms
proof (induction k arbitrary: m)
  case 0
  have "gpr m ref + 32 = word_of_int z" using 0 by simp
  with 0 show ?case
    using dcache_iteration_steps [of ref ende m] by (simp add: Let_def dcache_loop_def)
next
  case (Suc k)
  let ?m' = "(dcache_loop ref 1 m)\<lparr>cr0_lt := True\<rparr>"
  have step: "gpr m ref + 32 = word_of_int (z - 32 * int (Suc k))"
    using Suc.prems(3) by (simp add: algebra_simps)
  have s1: "sint (word_of_int z :: u32) = z"
    using Suc.prems by (intro sint_word_of_int_range) simp_all
  have s2: "sint (word_of_int (z - 32 * int (Suc k)) :: u32) = z - 32 * int (Suc k)"
    using Suc.prems by (intro sint_word_of_int_range) simp_all
  have lt: "sint (gpr m ref + 32) < sint (gpr m ende)"
    by (simp only: step Suc.prems(2) s1 s2) simp
  have it: "(ppc_next (dcache_asm ref ende) ^^ 4) (11, m) = (11, ?m')"
    using dcache_iteration_steps [OF Suc.prems(1), of m] lt by (simp add: Let_def)
  have g: "gpr ?m' ende = word_of_int z" "gpr ?m' ref = word_of_int (z - 32 * int (Suc k))"
    using Suc.prems(1,2) step by (simp_all add: dcache_loop_def)
  have "(ppc_next (dcache_asm ref ende) ^^ (4 * Suc k)) (11, ?m') = (15, dcache_loop ref (Suc k) ?m')"
    using Suc.prems by (intro Suc.IH [OF _ g]) simp_all
  moreover have "4 * Suc k + 4 = 4 * Suc (Suc k)" by simp
  ultimately show ?case
    using ppc_steps_trans [OF it] unfolding dcache_loop_Suc by metis
qed

lemma dcache_asm_run:
  assumes regs: "asm_regs_ok ref ende"
    and buf: "gpr m ende = gpr m ref + of_nat (32 * Suc k)"
    and no_ovf: "sint (gpr m ref) + 32 * int (Suc k) < 2 ^ 31"
    and fuel: "4 * Suc k + 20 \<le> fuel"
  shows "ppc_run fuel (dcache_asm ref ende) m =
    Some (dcache_epilogue (dcache_loop ref (Suc k) (dcache_prologue m)))"
proof (rule ppc_runI)
  let ?m1 = "dcache_prologue m" and ?z = "sint (gpr m ref) + 32 * int (Suc k)"
  have r: "gpr ?m1 ref = gpr m ref" and e: "gpr ?m1 ende = gpr m ende"
    using regs by (simp_all add: dcache_prologue_def asm_regs_ok_def)
  have "gpr ?m1 ende = word_of_int ?z" "gpr ?m1 ref = word_of_int (?z - 32 * int (Suc k))"
    using buf by (simp_all add: r e)
  moreover have "- (2 ^ 31) \<le> ?z - 32 * int (Suc k)"
    using sint_greater_eq [of "gpr m ref"] by simp
  ultimately have "(ppc_next (dcache_asm ref ende) ^^ (4 * Suc k)) (11, ?m1) =
      (15, dcache_loop ref (Suc k) ?m1)"
    using regs no_ovf by (intro dcache_loop_steps [where z = ?z]) (simp_all add: asm_regs_ok_def)
  from ppc_steps_trans [OF ppc_steps_trans [OF dcache_prologue_steps this] dcache_epilogue_steps]
  show "(ppc_next (dcache_asm ref ende) ^^ (9 + (4 * Suc k + 11))) (0, m) =
      (24, dcache_epilogue (dcache_loop ref (Suc k) ?m1))" .
qed (use fuel in \<open>simp_all add: dcache_asm_def\<close>)

subsection \<open>What the two programs leave behind\<close>

lemma dcache_asm_registers:
  assumes "asm_regs_ok ref ende"
    and m': "m' = dcache_epilogue (dcache_loop ref k (dcache_prologue m))"
  shows "msr m' = msr m" "spr m' = (spr m)(1010 := spr m 1010 OR 2)"
    "gpr m' ref = gpr m ref + of_nat (32 * k)"
    "r \<notin> {3, 5, 6, 7, ref} \<Longrightarrow> gpr m' r = gpr m r"
  using assms(1)
  by (auto simp: m' dcache_epilogue_def dcache_loop_def dcache_prologue_def asm_regs_ok_def)

lemma dcache_asm_log:
  assumes "asm_regs_ok ref ende"
  shows "ppc_log (dcache_epilogue (dcache_loop ref k (dcache_prologue m))) = ppc_log m @
    [Msr_write (masked_msr (msr m)), Sync, Spr_write 1008 (spr m 1008 OR 0x40), Sync, Sync] @
    map (\<lambda>a. Line_zeroed a (masked_msr (msr m)) (spr m 1008 OR 0x40))
      (line_addrs (gpr m ref) k) @
    [Sync, Sync, Spr_write 1010 (spr m 1010 OR 2), Sync,
     Spr_write 1008 (spr m 1008), Msr_write (msr m), Sync]"
  using assms
  by (auto simp: dcache_epilogue_def dcache_loop_def dcache_prologue_def asm_regs_ok_def)

text \<open>The mask clears exactly the critical, external and machine check enables.\<close>

lemma masked_msr_bits:
  "masked_msr v AND 0x00029000 = 0" "masked_msr v OR (v AND 0x00029000) = v"
proof -
  have m: "(0xfffd6fff :: u32) = NOT 0x00029000" by simp
  show "masked_msr v AND 0x00029000 = 0"
    unfolding masked_msr_def m by (rule bit_word_eqI) (auto simp: bit_simps)
  show "masked_msr v OR (v AND 0x00029000) = v"
    unfolding masked_msr_def m by (rule bit_word_eqI) (auto simp: bit_simps)
qed

end
