(* ===== verification/Kernel_env.thy ===== *)
theory Kernel_env
  imports E500_cache
begin

text \<open>
  What the two kernel modules share: the part of the machine they act on, the kernel
  services they call (parameters: their code is the Linux tree, which is a submodule) and
  the record of the calls they make.
\<close>

subsection \<open>Calls that leave the module\<close>

datatype kevent =
    Printk string
  | Kfree u32
  | Enable_irq u8
  | Disable_irq u8
  | Sigkill_sent nat
  | Proc_removed string
  | Asm_hang

text \<open>\<open>cpu\<close> is the processor, \<open>klog\<close> the calls made so far, \<open>world\<close> whatever the
  rest of the kernel keeps.\<close>

record 'w mach =
  cpu :: e500
  klog :: "kevent list"
  world :: 'w

datatype proc_handler = Procfile_read | Procfile_write | On_read_handler | On_written_handler

record proc_dir_entry =
  pde_name :: string
  pde_mode :: nat
  pde_uid :: nat
  pde_gid :: nat
  pde_size :: nat
  read_proc :: "proc_handler option"
  write_proc :: "proc_handler option"

text \<open>
  \<open>kmalloc\<close> returns an address, 0 for NULL. \<open>create_proc_entry\<close> returns no entry when it
  fails. The compiler's choices for the inline assembly are parameters too: the registers
  that hold its two operands, and whether \<open>scratchref\<close> is afterwards taken from the
  operand's register (the statement declares the register as an input only, so the compiler
  may believe that it still holds the pointer).
\<close>

record 'w module_env =
  kmalloc :: "nat \<Rightarrow> 'w \<Rightarrow> u32 \<times> 'w"
  kfree :: "u32 \<Rightarrow> 'w \<Rightarrow> 'w"
  create_proc_entry :: "string \<Rightarrow> nat \<Rightarrow> 'w \<Rightarrow> proc_dir_entry option \<times> 'w"
  remove_proc_entry :: "string \<Rightarrow> 'w \<Rightarrow> 'w"
  reg_ref :: nat
  reg_end :: nat
  reg_reused :: bool

definition ENOMEM :: int where
  "ENOMEM = 12"

definition emit :: "kevent \<Rightarrow> (('w, 'z) mach_scheme, unit) state" where
  "emit e = modify (\<lambda>s. s\<lparr>klog := klog s @ [e]\<rparr>)"

abbreviation printk :: "string \<Rightarrow> (('w, 'z) mach_scheme, unit) state" where
  "printk msg \<equiv> emit (Printk msg)"

definition in_world :: "('w \<Rightarrow> 'a \<times> 'w) \<Rightarrow> (('w, 'z) mach_scheme, 'a) state" where
  "in_world f = do {
     s \<leftarrow> State_Monad.get;
     (let (r, w) = f (world s) in do { State_Monad.set (s\<lparr>world := w\<rparr>); ret r }) }"

definition in_world_unit :: "('w \<Rightarrow> 'w) \<Rightarrow> (('w, 'z) mach_scheme, unit) state" where
  "in_world_unit f = modify (\<lambda>s. s\<lparr>world := f (world s)\<rparr>)"

lemma emit_simps [simp]:
  "exec (emit e) s = s\<lparr>klog := klog s @ [e]\<rparr>"
  by (simp add: emit_def)

lemma in_world_simps [simp]:
  "result (in_world f) s = fst (f (world s))"
  "exec (in_world f) s = s\<lparr>world := snd (f (world s))\<rparr>"
  "exec (in_world_unit g) s = s\<lparr>world := g (world s)\<rparr>"
  by (simp_all add: in_world_def in_world_unit_def result_def exec_def split: prod.splits)

lemma keeps_emit [keeps_intros]:
  "(\<And>s e'. obs (s\<lparr>klog := e'\<rparr>) = obs s) \<Longrightarrow> keeps obs (emit e)"
  by (simp add: keeps_def)

lemma keeps_in_world [keeps_intros]:
  "(\<And>s w. obs (s\<lparr>world := w\<rparr>) = obs s) \<Longrightarrow> keeps obs (in_world f)"
  "(\<And>s w. obs (s\<lparr>world := w\<rparr>) = obs s) \<Longrightarrow> keeps obs (in_world_unit g)"
  by (simp_all add: keeps_def)

subsection \<open>Running inline assembly\<close>

text \<open>4 * 1536 turns of the loop and 20 instructions around it are enough for the longer
  program (\<open>dcache_asm_run\<close>); a run that does not end is recorded as \<open>Asm_hang\<close>.\<close>

definition ASM_FUEL :: nat where
  "ASM_FUEL = 4 * 1536 + 20"

definition asm_volatile :: "ppc_instr list \<Rightarrow> (('w, 'z) mach_scheme, unit) state" where
  "asm_volatile P = do {
     m \<leftarrow> gets cpu;
     (case ppc_run ASM_FUEL P m of
        None \<Rightarrow> emit Asm_hang
      | Some m' \<Rightarrow> modify (\<lambda>s. s\<lparr>cpu := m'\<rparr>)) }"

definition SCRATCH_SIZE :: nat where
  "SCRATCH_SIZE = 49152"

definition load_operands :: "('w, 'e) module_env_scheme \<Rightarrow> u32 \<Rightarrow> u32 \<Rightarrow> (('w, 'z) mach_scheme, unit) state" where
  "load_operands E a b = modify (\<lambda>s. s\<lparr>cpu := (cpu s)\<lparr>
     gpr := (gpr (cpu s))(reg_ref E := a, reg_end E := b)\<rparr>\<rparr>)"

text \<open>The data cache statement of both modules: operands in, run, and which value the
  following \<open>kfree(scratchref)\<close> sees.\<close>

definition dcache_statement :: "('w, 'e) module_env_scheme \<Rightarrow> u32 \<Rightarrow> u32 \<Rightarrow> (('w, 'z) mach_scheme, u32) state" where
  "dcache_statement E scratchref scratchend = do {
     load_operands E scratchref scratchend;
     asm_volatile (dcache_asm (reg_ref E) (reg_end E));
     gets (\<lambda>s. if reg_reused E then gpr (cpu s) (reg_ref E) else scratchref) }"

definition scratch_ok :: "u32 \<Rightarrow> bool" where
  "scratch_ok p \<longleftrightarrow> p \<noteq> 0 \<and> sint p + int SCRATCH_SIZE < 2 ^ 31"

definition flushed_cpu :: "('w, 'e) module_env_scheme \<Rightarrow> u32 \<Rightarrow> e500 \<Rightarrow> e500" where
  "flushed_cpu E p m = dcache_epilogue (dcache_loop (reg_ref E) 1536 (dcache_prologue
     (m\<lparr>gpr := (gpr m)(reg_ref E := p, reg_end E := p + of_nat SCRATCH_SIZE)\<rparr>)))"

lemma dcache_statement_run:
  assumes "asm_regs_ok (reg_ref E) (reg_end E)" and "scratch_ok p"
  shows "exec (dcache_statement E p (p + of_nat SCRATCH_SIZE)) s = s\<lparr>cpu := flushed_cpu E p (cpu s)\<rparr>"
    and "result (dcache_statement E p (p + of_nat SCRATCH_SIZE)) s =
      (if reg_reused E then p + of_nat SCRATCH_SIZE else p)"
proof -
  let ?m = "(cpu s)\<lparr>gpr := (gpr (cpu s))(reg_ref E := p, reg_end E := p + of_nat SCRATCH_SIZE)\<rparr>"
  have neq: "reg_ref E \<noteq> reg_end E" using assms(1) by (simp add: asm_regs_ok_def)
  have run: "ppc_run ASM_FUEL (dcache_asm (reg_ref E) (reg_end E)) ?m =
      Some (dcache_epilogue (dcache_loop (reg_ref E) (Suc 1535) (dcache_prologue ?m)))"
    using assms neq
    by (intro dcache_asm_run) (simp_all add: scratch_ok_def SCRATCH_SIZE_def ASM_FUEL_def)
  show "exec (dcache_statement E p (p + of_nat SCRATCH_SIZE)) s = s\<lparr>cpu := flushed_cpu E p (cpu s)\<rparr>"
    using run by (simp add: dcache_statement_def load_operands_def asm_volatile_def flushed_cpu_def)
  have "gpr (flushed_cpu E p (cpu s)) (reg_ref E) = p + of_nat SCRATCH_SIZE"
    using dcache_asm_registers(3) [OF assms(1) refl, of 1536 ?m] neq
    by (simp add: flushed_cpu_def SCRATCH_SIZE_def)
  then show "result (dcache_statement E p (p + of_nat SCRATCH_SIZE)) s =
      (if reg_reused E then p + of_nat SCRATCH_SIZE else p)"
    using run by (simp add: dcache_statement_def load_operands_def asm_volatile_def flushed_cpu_def)
qed

lemma icache_statement_run:
  "exec (asm_volatile icache_asm) s = s\<lparr>cpu := (cpu s)\<lparr>
     gpr := (gpr (cpu s))(3 := spr (cpu s) 1011, 4 := spr (cpu s) 1011 OR 2),
     spr := (spr (cpu s))(1011 := spr (cpu s) 1011),
     ppc_log := ppc_log (cpu s) @
       [Spr_write 1011 (spr (cpu s) 1011 OR 2), Spr_write 1011 (spr (cpu s) 1011), Sync]\<rparr>\<rparr>"
  using icache_asm_run [of ASM_FUEL "cpu s"]
  by (simp add: asm_volatile_def ASM_FUEL_def)

text \<open>What the rest of the machine sees of the flush.\<close>

lemma flushed_cpu_registers:
  assumes "asm_regs_ok (reg_ref E) (reg_end E)"
  shows "msr (flushed_cpu E p m) = msr m"
    and "spr (flushed_cpu E p m) = (spr m)(1010 := spr m 1010 OR 2)"
    and "r \<notin> {3, 5, 6, 7, reg_ref E, reg_end E} \<Longrightarrow> gpr (flushed_cpu E p m) r = gpr m r"
  using dcache_asm_registers [OF assms refl] by (simp_all add: flushed_cpu_def)

lemma flushed_cpu_log:
  assumes "asm_regs_ok (reg_ref E) (reg_end E)"
  shows "ppc_log (flushed_cpu E p m) = ppc_log m @
    [Msr_write (masked_msr (msr m)), Sync, Spr_write 1008 (spr m 1008 OR 0x40), Sync, Sync] @
    map (\<lambda>a. Line_zeroed a (masked_msr (msr m)) (spr m 1008 OR 0x40)) (line_addrs p 1536) @
    [Sync, Sync, Spr_write 1010 (spr m 1010 OR 2), Sync,
     Spr_write 1008 (spr m 1008), Msr_write (msr m), Sync]"
proof -
  have "reg_ref E \<noteq> reg_end E" using assms by (simp add: asm_regs_ok_def)
  then show ?thesis by (simp add: flushed_cpu_def dcache_asm_log [OF assms])
qed

end
