(* ===== verification/Sched_types.thy ===== *)
theory Sched_types
  imports Prelude
begin

text \<open>
  The data of \<open>scheduler_mod/sched_mod.c\<close> as configured by \<open>linux-2.6.32/linux.config\<close>
  (32-bit, SMP with two CPUs, NO_HZ, HRTICK, no SCHEDSTATS, no group scheduling classes, no
  kernel preemption): tasks, runqueues, scheduling domains, the scheduler's global
  variables, and the parameters that stand for the code the file calls but the repository
  does not hold (scheduling classes, clock, big kernel lock, signals).
  Pointers to tasks, domains and groups are numbers, \<open>NULL\<close> is \<open>None\<close>; a runqueue is
  named by its CPU. A prefix says which structure a field belongs to (\<open>t_\<close> task_struct,
  \<open>se_\<close> sched_entity, \<open>rq_\<close> rq, \<open>sd_\<close> sched_domain, \<open>sg_\<close> sched_group,
  \<open>k_\<close> a global variable).
\<close>

type_synonym task = nat
type_synonym cpu = nat
type_synonym cpumask = "nat set"

definition NR_CPUS :: nat where
  "NR_CPUS = 2"

definition HZ :: u32 where
  "HZ = 250"

datatype cpu_idle_type = CPU_IDLE | CPU_NOT_IDLE | CPU_NEWLY_IDLE

datatype sched_class = Rt_sched_class | Fair_sched_class | Idle_sched_class

record load_weight =
  lw_weight :: u32
  lw_inv :: u32

record sched_entity =
  se_load :: load_weight
  se_on_rq :: bool
  se_exec_start :: u64
  se_sum_exec_runtime :: u64
  se_vruntime :: u64
  se_prev_sum_exec_runtime :: u64
  se_last_wakeup :: u64
  se_avg_overlap :: u64
  se_start_runtime :: u64
  se_avg_wakeup :: u64
  se_avg_running :: u64
  se_nr_migrations :: u64

record cputimes =
  ct_utime :: u32
  ct_stime :: u32
  ct_gtime :: u32
  ct_utimescaled :: u32
  ct_stimescaled :: u32
  ct_prev_utime :: u32
  ct_prev_stime :: u32

record task_struct =
  t_pid :: s32
  t_state :: u32
  t_exit_state :: u32
  t_flags :: u32
  t_prio :: int
  t_static_prio :: int
  t_normal_prio :: int
  t_rt_priority :: int
  t_policy :: int
  t_sched_class :: sched_class
  t_se :: sched_entity
  t_cpus_allowed :: cpumask
  t_nr_cpus_allowed :: nat
  t_cpu :: cpu
  t_need_resched :: bool
  t_polling :: bool
  t_preempt_count :: u32
  t_nvcsw :: u32
  t_nivcsw :: u32
  t_mm :: "nat option"
  t_active_mm :: "nat option"
  t_sched_reset_on_fork :: bool
  t_times :: cputimes
  t_in_iowait :: bool
  t_uid :: u32
  t_euid :: u32
  t_rlim_nice :: u32
  t_rlim_rtprio :: u32

text \<open>The parts of the fair runqueue that \<open>sched_mod.c\<close> reads or writes itself.\<close>

record cfs_rq =
  cfs_nr_running :: u32
  cfs_min_vruntime :: u64
  cfs_next :: "task option"
  cfs_last :: "task option"

record migration_req =
  mr_task :: "task option"
  mr_dest_cpu :: cpu

record root_domain =
  rd_refcount :: s32
  rd_span :: cpumask
  rd_online :: cpumask

text \<open>The bandwidth of the real-time class, and the fields of a real-time runqueue that \<open>sched_mod.c\<close>
  sets itself.\<close>

record rt_bandwidth =
  rtb_period :: u64
  rtb_runtime :: u64

record rt_rq =
  rt_queue :: "nat \<Rightarrow> task list"
  rt_bitmap :: "nat set"
  rt_highest_curr :: int
  rt_highest_next :: int
  rt_nr_migratory :: u32
  rt_overloaded :: bool
  rt_pushable_tasks :: "task list"
  rt_time :: u64
  rt_throttled :: bool
  rt_runtime :: u64

record rq =
  rq_nr_running :: u32
  rq_cpu_load :: "u32 list"
  rq_in_nohz_recently :: bool
  rq_load :: load_weight
  rq_nr_load_updates :: u32
  rq_nr_switches :: u64
  rq_nr_migrations_in :: u64
  rq_cfs :: cfs_rq
  rq_rt :: rt_rq
  rq_nr_uninterruptible :: u32
  rq_curr :: task
  rq_idle :: task
  rq_next_balance :: u32
  rq_prev_mm :: "nat option"
  rq_clock :: u64
  rq_nr_iowait :: s32
  rq_sd :: "nat option"
  rq_idle_at_tick :: bool
  rq_post_schedule :: bool
  rq_active_balance :: bool
  rq_push_cpu :: cpu
  rq_avg_load_per_task :: u32
  rq_migration_thread :: "task option"
  rq_migration_queue :: "nat list"
  rq_rt_avg :: u64
  rq_age_stamp :: u64
  rq_calc_load_update :: u32
  rq_calc_load_active :: s32
  rq_hrtick_csd_pending :: bool
  rq_online :: bool
  rq_rd :: "nat option"

record sched_domain =
  sd_parent :: "nat option"
  sd_child :: "nat option"
  sd_groups :: nat
  sd_span :: cpumask
  sd_flags :: u32
  sd_min_interval :: u32
  sd_max_interval :: u32
  sd_busy_factor :: u32
  sd_imbalance_pct :: u32
  sd_cache_nice_tries :: u32
  sd_busy_idx :: nat
  sd_idle_idx :: nat
  sd_newidle_idx :: nat
  sd_smt_gain :: u32
  sd_last_balance :: u32
  sd_balance_interval :: u32
  sd_nr_balance_failed :: u32
  sd_level :: nat

record sched_group =
  sg_next :: nat
  sg_cpumask :: cpumask
  sg_cpu_power :: u32

record task_group =
  tg_parent :: "nat option"
  tg_children :: "nat list"

text \<open>A table of \<open>sysctl\<close> entries. The name of a directory is allocated and may be missing; an entry
  with a handler is a file.\<close>

datatype ctl_entry = Ctl_entry (ce_name: "string option") (ce_mode: nat) (ce_child: "ctl_entry list option")
  (ce_file: bool)

record cpu_usage_stat =
  cs_user :: u64
  cs_nice :: u64
  cs_system :: u64
  cs_softirq :: u64
  cs_irq :: u64
  cs_idle :: u64
  cs_iowait :: u64
  cs_steal :: u64
  cs_guest :: u64

record sysctls =
  sysctl_sched_features :: u32
  sysctl_sched_nr_migrate :: u32
  sysctl_sched_time_avg :: u32
  sysctl_sched_rt_period :: u32
  sysctl_sched_rt_runtime :: s32
  sysctl_sched_migration_cost :: u32
  sysctl_sched_wakeup_granularity :: u32
  sysctl_sched_min_granularity :: u32
  sysctl_sched_latency :: u32
  sysctl_sched_shares_ratelimit :: u32
  sched_mc_power_savings :: int
  sched_smt_power_savings :: int

text \<open>The order in which locks are taken and released, interrupts masked, other CPUs prodded
  and address spaces handed over is kept as a log.\<close>

datatype lock_id = Rq_lock cpu | Force_lock | Pi_lock task | Queue_lock nat | Balancing_lock | Tasklist_lock
  | Domains_mutex | Task_group_lock | Rt_bandwidth_lock | Rt_runtime_lock cpu | Rt_handler_mutex

text \<open>The memory that comes and goes: the scratch masks of the construction of domains, root domains
  and their masks, \<open>sysctl\<close> tables and the names in them, task groups.\<close>

datatype scratch_mask = Nodemask | This_sibling_map | This_core_map | Send_covered | Tmpmask | Non_isolated_cpus
  | Fallback_doms

datatype memory = Scratch scratch_mask | Root_domain nat | Rd_span nat | Rd_online nat | Rd_rto_mask nat | Cpupri nat
  | Ctl_table | Ctl_name | Task_group nat

datatype sched_event =
    Spin_lock lock_id
  | Spin_unlock lock_id
  | Irq_off
  | Irq_on
  | Irq_restore bool
  | Preempt_disable
  | Preempt_enable
  | Send_reschedule cpu
  | Rcu_qs cpu
  | Schedule_debug task
  | Sched_bug
  | Switch task task
  | Switch_mm "nat option" nat task
  | Lazy_tlb "nat option" task
  | Mm_count_inc "nat option"
  | Mmdrop nat
  | Get_task task
  | Put_task task
  | Get_online_cpus
  | Put_online_cpus
  | Kprobe_flush task
  | Warn
  | Raise_softirq
  | Blocked_on nat
  | Synchronize_sched
  | Alloc memory
  | Free memory
  | Call_rcu memory

text \<open>A waiter on a wait queue: its task, whether it is exclusive, and its wake function, which is
  \<open>default_wake_function\<close> or one from outside the file.\<close>

record wait_entry =
  wq_task :: task
  wq_exclusive :: bool
  wq_foreign :: "nat option"

text \<open>The whole state; \<open>k_frame\<close> holds, for a task that was switched out inside
  \<open>schedule\<close>, whether its local variable \<open>switch_count\<close> points to \<open>nvcsw\<close>; \<open>k_wait\<close> and
  \<open>k_done\<close> are the queues and counters of the wait queues and completions; \<open>k_req\<close> holds the
  migration requests, a request having the number of its completion; \<open>k_rd\<close> holds the root domains and \<open>k_tg\<close> the
  task groups; \<open>k_ctl_child\<close> is the table below \<open>sched_domain\<close>; \<open>k_ext\<close> is the state of the code outside the repository.\<close>

record 'x kst =
  k_task :: "task \<Rightarrow> task_struct"
  k_rq :: "cpu \<Rightarrow> rq"
  k_sd :: "nat \<Rightarrow> sched_domain"
  k_sg :: "nat \<Rightarrow> sched_group"
  k_cpustat :: "cpu \<Rightarrow> cpu_usage_stat"
  k_sysctl :: sysctls
  k_this_cpu :: cpu
  k_current :: task
  k_irqs_off :: bool
  k_jiffies :: u32
  k_online :: cpumask
  k_active :: cpumask
  k_calc_load_tasks :: s32
  k_calc_load_update :: u32
  k_avenrun :: "u32 list"
  k_nohz_balancer :: int
  k_nohz_mask :: cpumask
  k_pid_force_run :: s32
  k_last_p_id :: s32
  k_frame :: "task \<Rightarrow> bool option"
  k_wait :: "nat \<Rightarrow> wait_entry list"
  k_done :: "nat \<Rightarrow> u32"
  k_req :: "nat \<Rightarrow> migration_req"
  k_rd :: "nat \<Rightarrow> root_domain"
  k_doms_cur :: "cpumask list"
  k_dattr_cur :: "int list option"
  k_isolated_map :: cpumask
  k_relax_domain_level :: int
  k_rcu_state :: int
  k_rcu_count :: s32
  k_def_rt_bandwidth :: rt_bandwidth
  k_ctl_child :: "ctl_entry list option"
  k_ctl_registered :: bool
  k_tg :: "nat \<Rightarrow> task_group"
  k_task_groups :: "nat list"
  k_scheduler_running :: bool
  k_log :: "sched_event list"
  k_ext :: 'x

subsection \<open>Code outside the repository\<close>

text \<open>
  \<open>struct sched_class\<close>: the entry points of \<open>sched_fair.c\<close>, \<open>sched_rt.c\<close> and
  \<open>sched_idletask.c\<close>. An entry the C code tests against \<open>NULL\<close> is optional.
\<close>

record 'x class_ops =
  next_class :: "sched_class \<Rightarrow> sched_class option"
  op_enqueue_task :: "sched_class \<Rightarrow> cpu \<Rightarrow> task \<Rightarrow> bool \<Rightarrow> ('x kst, unit) state"
  op_dequeue_task :: "sched_class \<Rightarrow> cpu \<Rightarrow> task \<Rightarrow> bool \<Rightarrow> ('x kst, unit) state"
  op_check_preempt_curr :: "sched_class \<Rightarrow> cpu \<Rightarrow> task \<Rightarrow> u32 \<Rightarrow> ('x kst, unit) state"
  op_pick_next_task :: "sched_class \<Rightarrow> cpu \<Rightarrow> ('x kst, task option) state"
  op_put_prev_task :: "sched_class \<Rightarrow> cpu \<Rightarrow> task \<Rightarrow> ('x kst, unit) state"
  op_select_task_rq :: "sched_class \<Rightarrow> task \<Rightarrow> u32 \<Rightarrow> u32 \<Rightarrow> ('x kst, cpu) state"
  op_set_curr_task :: "sched_class \<Rightarrow> cpu \<Rightarrow> ('x kst, unit) state"
  op_task_tick :: "sched_class \<Rightarrow> cpu \<Rightarrow> task \<Rightarrow> bool \<Rightarrow> ('x kst, unit) state"
  op_yield_task :: "sched_class \<Rightarrow> cpu \<Rightarrow> ('x kst, unit) state"
  op_switched_from :: "sched_class \<Rightarrow> (cpu \<Rightarrow> task \<Rightarrow> bool \<Rightarrow> ('x kst, unit) state) option"
  op_switched_to :: "sched_class \<Rightarrow> cpu \<Rightarrow> task \<Rightarrow> bool \<Rightarrow> ('x kst, unit) state"
  op_prio_changed :: "sched_class \<Rightarrow> cpu \<Rightarrow> task \<Rightarrow> int \<Rightarrow> bool \<Rightarrow> ('x kst, unit) state"
  op_pre_schedule :: "sched_class \<Rightarrow> (cpu \<Rightarrow> task \<Rightarrow> ('x kst, unit) state) option"
  op_post_schedule :: "sched_class \<Rightarrow> (cpu \<Rightarrow> ('x kst, unit) state) option"
  op_task_wake_up :: "sched_class \<Rightarrow> (cpu \<Rightarrow> task \<Rightarrow> ('x kst, unit) state) option"
  op_task_new :: "sched_class \<Rightarrow> (cpu \<Rightarrow> task \<Rightarrow> ('x kst, unit) state) option"
  op_get_rr_interval :: "sched_class \<Rightarrow> task \<Rightarrow> ('x kst, u32) state"
  op_rq_online :: "sched_class \<Rightarrow> (cpu \<Rightarrow> ('x kst, unit) state) option"
  op_rq_offline :: "sched_class \<Rightarrow> (cpu \<Rightarrow> ('x kst, unit) state) option"
  op_set_cpus_allowed :: "sched_class \<Rightarrow> (task \<Rightarrow> cpumask \<Rightarrow> ('x kst, unit) state) option"
  op_load_balance :: "sched_class \<Rightarrow> cpu \<Rightarrow> cpu \<Rightarrow> cpu \<Rightarrow> u32 \<Rightarrow> nat \<Rightarrow> cpu_idle_type \<Rightarrow>
    bool \<times> int \<Rightarrow> ('x kst, u32 \<times> bool \<times> int) state"
  op_move_one_task :: "sched_class \<Rightarrow> cpu \<Rightarrow> cpu \<Rightarrow> cpu \<Rightarrow> nat \<Rightarrow> cpu_idle_type \<Rightarrow> ('x kst, bool) state"

text \<open>What happens to the state outside this file's control: what the other CPUs do while this
  one spins (\<open>cpu_relax\<close>); what happens from the moment a task calls \<open>schedule\<close> until it runs
  again, as that task sees it (\<open>call_schedule\<close>, and \<open>schedule_timeout\<close>, which answers the
  jiffies that were left); the wake functions of wait queues that are defined elsewhere (by
  number, with the waiting task, mode and flags); priority inheritance after a change of
  priority; the creation and stopping of the migration threads; the bandwidth of the
  real-time class when a CPU comes or goes.\<close>

record 'x others =
  cpu_relax :: "('x kst, unit) state"
  call_schedule :: "('x kst, unit) state"
  schedule_timeout :: "s32 \<Rightarrow> ('x kst, s32) state"
  wake_func :: "nat \<Rightarrow> task \<Rightarrow> u32 \<Rightarrow> u32 \<Rightarrow> ('x kst, bool) state"
  rt_mutex_adjust_pi :: "task \<Rightarrow> ('x kst, unit) state"
  kthread_create :: "cpu \<Rightarrow> ('x kst, task option) state"
  kthread_stop :: "task \<Rightarrow> ('x kst, unit) state"
  disable_runtime :: "cpu \<Rightarrow> ('x kst, unit) state"
  enable_runtime :: "cpu \<Rightarrow> ('x kst, unit) state"

text \<open>Services of the rest of the kernel: they act on their own state only. The numbering of
  the debug features comes from \<open>sched_features.h\<close>.\<close>

datatype rt_sysctl = Sched_rt_period | Sched_rt_runtime

datatype sched_feature = HRTICK | LB_BIAS | SYNC_WAKEUPS | CACHE_HOT_BUDDY | OWNER_SPIN | ARCH_POWER

record 'x services =
  feature_bit :: "sched_feature \<Rightarrow> nat"
  sched_clock_cpu :: "cpu \<Rightarrow> 'x \<Rightarrow> u64 \<times> 'x"
  release_kernel_lock :: "task \<Rightarrow> 'x \<Rightarrow> 'x"
  reacquire_kernel_lock :: "task \<Rightarrow> 'x \<Rightarrow> int \<times> 'x"
  signal_pending_state :: "u32 \<Rightarrow> task \<Rightarrow> 'x \<Rightarrow> bool"
  hrtick_active :: "cpu \<Rightarrow> 'x \<Rightarrow> bool"
  hrtick_cancel :: "cpu \<Rightarrow> 'x \<Rightarrow> 'x"
  hrtick_hres :: "cpu \<Rightarrow> 'x \<Rightarrow> bool"
  hrtick_base_time :: "cpu \<Rightarrow> 'x \<Rightarrow> s64"
  hrtick_set_expires :: "cpu \<Rightarrow> s64 \<Rightarrow> 'x \<Rightarrow> 'x"
  hrtick_restart :: "cpu \<Rightarrow> 'x \<Rightarrow> 'x"
  hrtick_ipi :: "cpu \<Rightarrow> 'x \<Rightarrow> 'x"
  sched_clock_tick :: "'x \<Rightarrow> 'x"
  group_sum_exec :: "task \<Rightarrow> 'x \<Rightarrow> u64"
  account_group :: "task \<Rightarrow> u32 \<Rightarrow> bool \<Rightarrow> 'x \<Rightarrow> 'x"
  in_interrupt :: "'x \<Rightarrow> bool"
  capable_sys_nice :: "task \<Rightarrow> 'x \<Rightarrow> bool"
  msecs_to_jiffies :: "u32 \<Rightarrow> u32"
  security_setscheduler :: "task \<Rightarrow> 'x \<Rightarrow> int"
  security_getscheduler :: "task \<Rightarrow> 'x \<Rightarrow> int"
  security_setnice :: "task \<Rightarrow> int \<Rightarrow> 'x \<Rightarrow> int"
  lock_sighand_ok :: "task \<Rightarrow> 'x \<Rightarrow> bool"
  rt_mutex_getprio :: "task \<Rightarrow> int \<Rightarrow> 'x \<Rightarrow> int"
  find_task_by_vpid :: "s32 \<Rightarrow> 'x \<Rightarrow> task option"
  cpuset_cpus_allowed :: "task \<Rightarrow> 'x \<Rightarrow> cpumask"
  mutex_owner :: "nat \<Rightarrow> 'x \<Rightarrow> task option"
  cpuset_cpus_allowed_locked :: "task \<Rightarrow> 'x \<Rightarrow> cpumask"
  cpumask_of_node :: "nat \<Rightarrow> 'x \<Rightarrow> cpumask"
  alloc_cpumask_var :: "'x \<Rightarrow> bool \<times> 'x"
  jiffies_to_timespec :: "u32 \<Rightarrow> s32 \<times> s32"
  sched_clock :: "'x \<Rightarrow> u64 \<times> 'x"
  kthread_should_stop :: "task \<Rightarrow> 'x \<Rightarrow> bool"
  all_threads :: "'x \<Rightarrow> task list"
  mutex_trylock :: "'x \<Rightarrow> bool \<times> 'x"
  arch_update_cpu_topology :: "'x \<Rightarrow> bool"
  alloc_root_domain :: "(nat \<Rightarrow> bool) \<Rightarrow> 'x \<Rightarrow> nat option \<times> 'x"
  cpupri_init :: "nat \<Rightarrow> 'x \<Rightarrow> bool \<times> 'x"
  kmalloc_ok :: "'x \<Rightarrow> bool \<times> 'x"
  alloc_task_group :: "'x \<Rightarrow> nat option \<times> 'x"
  proc_dointvec :: "rt_sysctl \<Rightarrow> bool \<Rightarrow> u32 \<Rightarrow> 'x \<Rightarrow> (int \<times> u32) \<times> 'x"
  init_sched_rt_class :: "'x \<Rightarrow> 'x"
  sd_cpu_init :: sched_domain
  spin_trylock_ok :: "lock_id \<Rightarrow> 'x \<Rightarrow> bool"

record 'x kops =
  classes :: "'x class_ops"
  others :: "'x others"
  services :: "'x services"

subsection \<open>Reading and writing the state\<close>

definition upd_task :: "task \<Rightarrow> (task_struct \<Rightarrow> task_struct) \<Rightarrow> ('x kst, unit) state" where
  "upd_task p f = modify (\<lambda>s. s\<lparr>k_task := (k_task s)(p := f (k_task s p))\<rparr>)"

definition upd_se :: "task \<Rightarrow> (sched_entity \<Rightarrow> sched_entity) \<Rightarrow> ('x kst, unit) state" where
  "upd_se p f = upd_task p (\<lambda>t. t\<lparr>t_se := f (t_se t)\<rparr>)"

definition upd_rq :: "cpu \<Rightarrow> (rq \<Rightarrow> rq) \<Rightarrow> ('x kst, unit) state" where
  "upd_rq c f = modify (\<lambda>s. s\<lparr>k_rq := (k_rq s)(c := f (k_rq s c))\<rparr>)"

definition upd_sd :: "nat \<Rightarrow> (sched_domain \<Rightarrow> sched_domain) \<Rightarrow> ('x kst, unit) state" where
  "upd_sd d f = modify (\<lambda>s. s\<lparr>k_sd := (k_sd s)(d := f (k_sd s d))\<rparr>)"

definition upd_sg :: "nat \<Rightarrow> (sched_group \<Rightarrow> sched_group) \<Rightarrow> ('x kst, unit) state" where
  "upd_sg g f = modify (\<lambda>s. s\<lparr>k_sg := (k_sg s)(g := f (k_sg s g))\<rparr>)"

definition task_get :: "task \<Rightarrow> (task_struct \<Rightarrow> 'a) \<Rightarrow> ('x kst, 'a) state" where
  "task_get p f = gets (\<lambda>s. f (k_task s p))"

definition rq_get :: "cpu \<Rightarrow> (rq \<Rightarrow> 'a) \<Rightarrow> ('x kst, 'a) state" where
  "rq_get c f = gets (\<lambda>s. f (k_rq s c))"

definition log_event :: "sched_event \<Rightarrow> ('x kst, unit) state" where
  "log_event e = modify (\<lambda>s. s\<lparr>k_log := k_log s @ [e]\<rparr>)"

definition service :: "('x \<Rightarrow> 'a \<times> 'x) \<Rightarrow> ('x kst, 'a) state" where
  "service f = do {
     s \<leftarrow> State_Monad.get;
     (let (r, x) = f (k_ext s) in do { State_Monad.set (s\<lparr>k_ext := x\<rparr>); ret r }) }"

definition service_unit :: "('x \<Rightarrow> 'x) \<Rightarrow> ('x kst, unit) state" where
  "service_unit f = modify (\<lambda>s. s\<lparr>k_ext := f (k_ext s)\<rparr>)"

lemma kst_access [simp]:
  "exec (upd_task p f) s = s\<lparr>k_task := (k_task s)(p := f (k_task s p))\<rparr>"
  "exec (upd_se p g) s = s\<lparr>k_task := (k_task s)(p := (k_task s p)\<lparr>t_se := g (t_se (k_task s p))\<rparr>)\<rparr>"
  "exec (upd_rq c h) s = s\<lparr>k_rq := (k_rq s)(c := h (k_rq s c))\<rparr>"
  "exec (upd_sd d i) s = s\<lparr>k_sd := (k_sd s)(d := i (k_sd s d))\<rparr>"
  "exec (upd_sg d j) s = s\<lparr>k_sg := (k_sg s)(d := j (k_sg s d))\<rparr>"
  "exec (log_event e) s = s\<lparr>k_log := k_log s @ [e]\<rparr>"
  "exec (task_get p l) s = s" "result (task_get p l) s = l (k_task s p)"
  "exec (rq_get c m) s = s" "result (rq_get c m) s = m (k_rq s c)"
  "exec (service_unit n) s = s\<lparr>k_ext := n (k_ext s)\<rparr>"
  "exec (service q) s = s\<lparr>k_ext := snd (q (k_ext s))\<rparr>" "result (service q) s = fst (q (k_ext s))"
  by (simp_all add: upd_task_def upd_se_def upd_rq_def upd_sd_def upd_sg_def log_event_def
      task_get_def rq_get_def service_unit_def service_def result_def exec_def split: prod.splits)

lemma keeps_kst_access [keeps_intros]:
  "(\<And>s. obs (s\<lparr>k_task := (k_task s)(p := f (k_task s p))\<rparr>) = obs s) \<Longrightarrow> keeps obs (upd_task p f)"
  "(\<And>s. obs (s\<lparr>k_task := (k_task s)(p := (k_task s p)\<lparr>t_se := g (t_se (k_task s p))\<rparr>)\<rparr>) = obs s) \<Longrightarrow>
     keeps obs (upd_se p g)"
  "(\<And>s. obs (s\<lparr>k_rq := (k_rq s)(c := h (k_rq s c))\<rparr>) = obs s) \<Longrightarrow> keeps obs (upd_rq c h)"
  "(\<And>s. obs (s\<lparr>k_sd := (k_sd s)(d := i (k_sd s d))\<rparr>) = obs s) \<Longrightarrow> keeps obs (upd_sd d i)"
  "(\<And>s. obs (s\<lparr>k_sg := (k_sg s)(d := j (k_sg s d))\<rparr>) = obs s) \<Longrightarrow> keeps obs (upd_sg d j)"
  "(\<And>s l. obs (s\<lparr>k_log := l\<rparr>) = obs s) \<Longrightarrow> keeps obs (log_event e)"
  "keeps obs (task_get p l)"
  "keeps obs (rq_get c m)"
  "(\<And>s x. obs (s\<lparr>k_ext := x\<rparr>) = obs s) \<Longrightarrow> keeps obs (service_unit n)"
  "(\<And>s x. obs (s\<lparr>k_ext := x\<rparr>) = obs s) \<Longrightarrow> keeps obs (service q)"
  by (simp_all add: keeps_def)

end
