(* ===== verification/Sched_prio.thy ===== *)
theory Sched_prio
  imports Sched_types
begin

text \<open>
  \<open>sched_mod.c\<close>: priorities, nice levels and load weights; running averages; the
  fixed-point multiplication \<open>calc_delta_mine\<close>; bandwidth constants. Everything here is
  arithmetic on one task or one weight.
\<close>

subsection \<open>Priorities\<close>

definition MAX_RT_PRIO :: int where "MAX_RT_PRIO = 100"
definition MAX_USER_RT_PRIO :: int where "MAX_USER_RT_PRIO = 100"
definition MAX_PRIO :: int where "MAX_PRIO = MAX_RT_PRIO + 40"

definition SCHED_NORMAL :: int where "SCHED_NORMAL = 0"
definition SCHED_FIFO :: int where "SCHED_FIFO = 1"
definition SCHED_RR :: int where "SCHED_RR = 2"
definition SCHED_BATCH :: int where "SCHED_BATCH = 3"
definition SCHED_IDLE :: int where "SCHED_IDLE = 5"

lemmas prio_consts = MAX_RT_PRIO_def MAX_USER_RT_PRIO_def MAX_PRIO_def
lemmas policy_consts = SCHED_NORMAL_def SCHED_FIFO_def SCHED_RR_def SCHED_BATCH_def SCHED_IDLE_def

definition NICE_TO_PRIO :: "int \<Rightarrow> int" where
  "NICE_TO_PRIO nice = MAX_RT_PRIO + nice + 20"

definition PRIO_TO_NICE :: "int \<Rightarrow> int" where
  "PRIO_TO_NICE prio = prio - MAX_RT_PRIO - 20"

definition TASK_NICE :: "task_struct \<Rightarrow> int" where
  "TASK_NICE p = PRIO_TO_NICE (t_static_prio p)"

definition USER_PRIO :: "int \<Rightarrow> int" where
  "USER_PRIO p = p - MAX_RT_PRIO"

definition rt_policy :: "int \<Rightarrow> bool" where
  "rt_policy policy \<longleftrightarrow> policy = SCHED_FIFO \<or> policy = SCHED_RR"

definition task_has_rt_policy :: "task_struct \<Rightarrow> bool" where
  "task_has_rt_policy p = rt_policy (t_policy p)"

definition rt_prio :: "int \<Rightarrow> bool" where
  "rt_prio prio \<longleftrightarrow> prio < MAX_RT_PRIO"

definition normal_prio_aux :: "task_struct \<Rightarrow> int" where
  "normal_prio_aux p = t_static_prio p"

definition normal_prio :: "task_struct \<Rightarrow> int" where
  "normal_prio p =
     (if task_has_rt_policy p then MAX_RT_PRIO - 1 - t_rt_priority p else normal_prio_aux p)"

text \<open>\<open>effective_prio\<close> also stores \<open>normal_prio\<close> in the task.\<close>

definition effective_prio :: "task_struct \<Rightarrow> int \<times> task_struct" where
  "effective_prio p =
     (let p' = p\<lparr>t_normal_prio := normal_prio p\<rparr>
      in (if \<not> rt_prio (t_prio p') then t_normal_prio p' else t_prio p', p'))"

definition task_prio :: "task_struct \<Rightarrow> int" where
  "task_prio p = t_prio p - MAX_RT_PRIO"

definition task_nice :: "task_struct \<Rightarrow> int" where
  "task_nice p = TASK_NICE p"

subsection \<open>Load weights\<close>

definition prio_to_weight :: "u32 list" where
  "prio_to_weight =
    [88761, 71755, 56483, 46273, 36291,
     29154, 23254, 18705, 14949, 11916,
     9548, 7620, 6100, 4904, 3906,
     3121, 2501, 1991, 1586, 1277,
     1024, 820, 655, 526, 423,
     335, 272, 215, 172, 137,
     110, 87, 70, 56, 45,
     36, 29, 23, 18, 15]"

definition prio_to_wmult :: "u32 list" where
  "prio_to_wmult =
    [48388, 59856, 76040, 92818, 118348,
     147320, 184698, 229616, 287308, 360437,
     449829, 563644, 704093, 875809, 1099582,
     1376151, 1717300, 2157191, 2708050, 3363326,
     4194304, 5237765, 6557202, 8165337, 10153587,
     12820798, 15790321, 19976592, 24970740, 31350126,
     39045157, 49367440, 61356676, 76695844, 95443717,
     119304647, 148102320, 186737708, 238609294, 286331153]"

definition WEIGHT_IDLEPRIO :: u32 where "WEIGHT_IDLEPRIO = 3"
definition WMULT_IDLEPRIO :: u32 where "WMULT_IDLEPRIO = 1431655765"

text \<open>The tables are read at \<open>static_prio - MAX_RT_PRIO\<close>; outside the table C reads foreign
  memory, here the answer is \<open>None\<close>.\<close>

definition table_at :: "u32 list \<Rightarrow> int \<Rightarrow> u32 option" where
  "table_at tab i = (if 0 \<le> i \<and> i < int (length tab) then Some (tab ! nat i) else None)"

definition load_weight_of :: "task_struct \<Rightarrow> load_weight option" where
  "load_weight_of p =
     (if task_has_rt_policy p then
        Some \<lparr>lw_weight = prio_to_weight ! 0 * 2, lw_inv = drop_bit 1 (prio_to_wmult ! 0)\<rparr>
      else if t_policy p = SCHED_IDLE then
        Some \<lparr>lw_weight = WEIGHT_IDLEPRIO, lw_inv = WMULT_IDLEPRIO\<rparr>
      else (case (table_at prio_to_weight (t_static_prio p - MAX_RT_PRIO),
                  table_at prio_to_wmult (t_static_prio p - MAX_RT_PRIO)) of
          (Some w, Some i) \<Rightarrow> Some \<lparr>lw_weight = w, lw_inv = i\<rparr>
        | _ \<Rightarrow> None))"

definition set_load_weight :: "task \<Rightarrow> ('x kst, unit) state" where
  "set_load_weight p = do {
     t \<leftarrow> task_get p (\<lambda>t. t);
     (case load_weight_of t of
        Some lw \<Rightarrow> upd_se p (\<lambda>se. se\<lparr>se_load := lw\<rparr>)
      | None \<Rightarrow> log_event Sched_bug) }"

definition update_load_add :: "load_weight \<Rightarrow> u32 \<Rightarrow> load_weight" where
  "update_load_add lw inc = lw\<lparr>lw_weight := lw_weight lw + inc, lw_inv := 0\<rparr>"

definition update_load_sub :: "load_weight \<Rightarrow> u32 \<Rightarrow> load_weight" where
  "update_load_sub lw dec = lw\<lparr>lw_weight := lw_weight lw - dec, lw_inv := 0\<rparr>"

definition inc_cpu_load :: "cpu \<Rightarrow> u32 \<Rightarrow> ('x kst, unit) state" where
  "inc_cpu_load c load = upd_rq c (\<lambda>r. r\<lparr>rq_load := update_load_add (rq_load r) load\<rparr>)"

definition dec_cpu_load :: "cpu \<Rightarrow> u32 \<Rightarrow> ('x kst, unit) state" where
  "dec_cpu_load c load = upd_rq c (\<lambda>r. r\<lparr>rq_load := update_load_sub (rq_load r) load\<rparr>)"

subsection \<open>\<open>calc_delta_mine\<close>\<close>

definition WMULT_CONST :: u32 where "WMULT_CONST = 0xffffffff"
definition WMULT_SHIFT :: nat where "WMULT_SHIFT = 32"
definition LONG_MAX :: u32 where "LONG_MAX = 0x7fffffff"

definition SRR :: "u64 \<Rightarrow> nat \<Rightarrow> u64" where
  "SRR x y = drop_bit y (x + ucast (push_bit (y - 1) (1 :: u32)))"

text \<open>\<open>BITS_PER_LONG\<close> is 32, so the first branch of the inverse's computation is dead.\<close>

definition calc_delta_mine :: "u32 \<Rightarrow> u32 \<Rightarrow> load_weight \<Rightarrow> u32 \<times> load_weight" where
  "calc_delta_mine delta_exec weight lw =
     (let lw = (if lw_inv lw = 0
                then lw\<lparr>lw_inv := 1 + (WMULT_CONST - lw_weight lw div 2) div (lw_weight lw + 1)\<rparr>
                else lw);
          tmp = ucast delta_exec * ucast weight :: u64;
          tmp = (if ucast WMULT_CONST < tmp
                 then SRR (SRR tmp (WMULT_SHIFT div 2) * ucast (lw_inv lw)) (WMULT_SHIFT div 2)
                 else SRR (tmp * ucast (lw_inv lw)) WMULT_SHIFT)
      in (ucast (min tmp (ucast LONG_MAX)), lw))"

subsection \<open>Averages and bandwidth\<close>

definition update_avg :: "u64 \<Rightarrow> u64 \<Rightarrow> u64" where
  "update_avg avg sample = (let diff = sample - avg in avg + signed_drop_bit 3 diff)"

definition NSEC_PER_USEC :: u64 where "NSEC_PER_USEC = 1000"
definition NSEC_PER_MSEC :: u64 where "NSEC_PER_MSEC = 1000000"
definition RUNTIME_INF :: u64 where "RUNTIME_INF = - 1"

definition global_rt_period :: "sysctls \<Rightarrow> u64" where
  "global_rt_period y = ucast (sysctl_sched_rt_period y) * NSEC_PER_USEC"

definition global_rt_runtime :: "sysctls \<Rightarrow> u64" where
  "global_rt_runtime y =
     (if sint (sysctl_sched_rt_runtime y) < 0 then RUNTIME_INF
      else scast (sysctl_sched_rt_runtime y) * NSEC_PER_USEC)"

definition rt_bandwidth_enabled :: "sysctls \<Rightarrow> bool" where
  "rt_bandwidth_enabled y \<longleftrightarrow> 0 \<le> sint (sysctl_sched_rt_runtime y)"

definition to_ratio :: "u64 \<Rightarrow> u64 \<Rightarrow> u32" where
  "to_ratio period runtime =
     (if runtime = RUNTIME_INF then push_bit 20 1
      else ucast (push_bit 20 runtime div period))"

definition sched_avg_period :: "sysctls \<Rightarrow> u64" where
  "sched_avg_period y = ucast (sysctl_sched_time_avg y) * NSEC_PER_MSEC div 2"

subsection \<open>Priorities lie in their bands\<close>

definition prio_wf :: "task_struct \<Rightarrow> bool" where
  "prio_wf t \<longleftrightarrow> MAX_RT_PRIO \<le> t_static_prio t \<and> t_static_prio t < MAX_PRIO \<and>
     (if task_has_rt_policy t then 1 \<le> t_rt_priority t \<and> t_rt_priority t < MAX_RT_PRIO
      else t_rt_priority t = 0)"

lemma nice_roundtrip [simp]:
  "PRIO_TO_NICE (NICE_TO_PRIO n) = n" "NICE_TO_PRIO (PRIO_TO_NICE p) = p"
  by (simp_all add: PRIO_TO_NICE_def NICE_TO_PRIO_def)

text \<open>For a task with a legal policy and priority the normal priority is a real-time
  one (0 to 98) exactly when the policy is real-time, otherwise the one of its nice level
  (100 to 139), and \<open>effective_prio\<close> keeps a priority boosted into the real-time band and
  returns the normal priority in every other case.\<close>

theorem normal_prio_bands:
  assumes "prio_wf t"
  shows "0 \<le> normal_prio t \<and> normal_prio t < MAX_PRIO \<and>
    (rt_prio (normal_prio t) \<longleftrightarrow> task_has_rt_policy t) \<and>
    (\<not> task_has_rt_policy t \<longrightarrow> PRIO_TO_NICE (normal_prio t) = task_nice t \<and>
       - 20 \<le> task_nice t \<and> task_nice t \<le> 19) \<and>
    fst (effective_prio t) = (if rt_prio (t_prio t) then t_prio t else normal_prio t) \<and>
    t_normal_prio (snd (effective_prio t)) = normal_prio t"
  using assms
  by (auto simp: prio_wf_def normal_prio_def normal_prio_aux_def effective_prio_def rt_prio_def
      task_nice_def TASK_NICE_def PRIO_TO_NICE_def Let_def prio_consts split: if_splits)

text \<open>A task with default attributes, used in the witnesses.\<close>

definition nice0_load :: load_weight where
  "nice0_load = \<lparr>lw_weight = 1024, lw_inv = 4194304\<rparr>"

definition blank_se :: sched_entity where
  "blank_se = \<lparr>se_load = nice0_load, se_on_rq = True, se_exec_start = 0, se_sum_exec_runtime = 0,
     se_vruntime = 0, se_prev_sum_exec_runtime = 0, se_last_wakeup = 0, se_avg_overlap = 0,
     se_start_runtime = 0, se_avg_wakeup = 0, se_avg_running = 0, se_nr_migrations = 0\<rparr>"

definition blank_task :: task_struct where
  "blank_task = \<lparr>t_pid = 1, t_state = 0, t_exit_state = 0, t_flags = 0, t_prio = 120,
     t_static_prio = 120, t_normal_prio = 120, t_rt_priority = 0, t_policy = 0,
     t_sched_class = Fair_sched_class, t_se = blank_se, t_cpus_allowed = {0, 1},
     t_nr_cpus_allowed = 2, t_cpu = 0, t_need_resched = False, t_polling = False,
     t_preempt_count = 0, t_nvcsw = 0, t_nivcsw = 0, t_mm = Some 1, t_active_mm = Some 1,
     t_sched_reset_on_fork = False,
     t_times = \<lparr>ct_utime = 0, ct_stime = 0, ct_gtime = 0, ct_utimescaled = 0,
       ct_stimescaled = 0, ct_prev_utime = 0, ct_prev_stime = 0\<rparr>,
     t_in_iowait = False, t_uid = 0, t_euid = 0, t_rlim_nice = 0, t_rlim_rtprio = 0\<rparr>"

text \<open>A machine of two CPUs: CPU 0 runs task 1, task 0 is idle, nothing else is queued.\<close>

definition blank_rq :: rq where
  "blank_rq = \<lparr>rq_nr_running = 1, rq_cpu_load = replicate 5 1024, rq_in_nohz_recently = False,
     rq_load = nice0_load, rq_nr_load_updates = 0, rq_nr_switches = 0, rq_nr_migrations_in = 0,
     rq_cfs = \<lparr>cfs_nr_running = 1, cfs_min_vruntime = 0, cfs_next = None, cfs_last = None\<rparr>,
     rq_rt = \<lparr>rt_queue = (\<lambda>_. []), rt_bitmap = {100}, rt_highest_curr = 100, rt_highest_next = 100,
       rt_nr_migratory = 0, rt_overloaded = False, rt_pushable_tasks = [], rt_time = 0,
       rt_throttled = False, rt_runtime = 950000000\<rparr>,
     rq_nr_uninterruptible = 0, rq_curr = 1, rq_idle = 0, rq_next_balance = 0, rq_prev_mm = None,
     rq_clock = 0, rq_nr_iowait = 0, rq_sd = None, rq_idle_at_tick = False, rq_post_schedule = False,
     rq_active_balance = False, rq_push_cpu = 0, rq_avg_load_per_task = 0, rq_migration_thread = Some 3,
     rq_migration_queue = [], rq_rt_avg = 0, rq_age_stamp = 0, rq_calc_load_update = 0,
     rq_calc_load_active = 0, rq_hrtick_csd_pending = False, rq_online = True, rq_rd = Some 0\<rparr>"

definition blank_kst :: "'x \<Rightarrow> 'x kst" where
  "blank_kst x = \<lparr>k_task = (\<lambda>p. blank_task\<lparr>t_pid := of_nat p\<rparr>), k_rq = (\<lambda>_. blank_rq),
     k_sd = (\<lambda>_. \<lparr>sd_parent = None, sd_child = None, sd_groups = 0, sd_span = {0, 1}, sd_flags = 0,
       sd_min_interval = 1, sd_max_interval = 4, sd_busy_factor = 64, sd_imbalance_pct = 125,
       sd_cache_nice_tries = 1, sd_busy_idx = 2, sd_idle_idx = 1, sd_newidle_idx = 0,
       sd_smt_gain = 0, sd_last_balance = 0, sd_balance_interval = 1, sd_nr_balance_failed = 0, sd_level = 3\<rparr>),
     k_sg = (\<lambda>g. \<lparr>sg_next = 1 - g, sg_cpumask = {g}, sg_cpu_power = 1024\<rparr>),
     k_cpustat = (\<lambda>_. \<lparr>cs_user = 0, cs_nice = 0, cs_system = 0, cs_softirq = 0, cs_irq = 0,
       cs_idle = 0, cs_iowait = 0, cs_steal = 0, cs_guest = 0\<rparr>),
     k_sysctl = \<lparr>sysctl_sched_features = 0, sysctl_sched_nr_migrate = 32,
       sysctl_sched_time_avg = 1000, sysctl_sched_rt_period = 1000000,
       sysctl_sched_rt_runtime = 950000, sysctl_sched_migration_cost = 500000,
       sysctl_sched_wakeup_granularity = 1000000, sysctl_sched_min_granularity = 1000000,
       sysctl_sched_latency = 5000000, sysctl_sched_shares_ratelimit = 250000,
       sched_mc_power_savings = 0, sched_smt_power_savings = 0\<rparr>,
     k_this_cpu = 0, k_current = 1, k_irqs_off = False, k_jiffies = 0,
     k_online = {0, 1}, k_active = {0, 1}, k_calc_load_tasks = 0, k_calc_load_update = 0,
     k_avenrun = [0, 0, 0], k_nohz_balancer = - 1, k_nohz_mask = {}, k_pid_force_run = 0,
     k_last_p_id = 0, k_frame = (\<lambda>_. Some False), k_wait = (\<lambda>_. []), k_done = (\<lambda>_. 0),
     k_req = (\<lambda>_. \<lparr>mr_task = None, mr_dest_cpu = 0\<rparr>),
     k_rd = (\<lambda>_. \<lparr>rd_refcount = 3, rd_span = {0, 1}, rd_online = {0, 1}\<rparr>),
     k_doms_cur = [{0, 1}], k_dattr_cur = None, k_isolated_map = {}, k_relax_domain_level = - 1, k_rcu_state = - 1, k_rcu_count = 0,
     k_def_rt_bandwidth = \<lparr>rtb_period = 1000000000, rtb_runtime = 950000000\<rparr>, k_ctl_child = None,
     k_ctl_registered = False, k_tg = (\<lambda>_. \<lparr>tg_parent = None, tg_children = []\<rparr>), k_task_groups = [],
     k_scheduler_running = True, k_log = [], k_ext = x\<rparr>"

theorem normal_prio_bands_witness:
  "prio_wf (blank_task\<lparr>t_policy := SCHED_FIFO, t_rt_priority := 10\<rparr>) \<and>
   normal_prio (blank_task\<lparr>t_policy := SCHED_FIFO, t_rt_priority := 10\<rparr>) = 89 \<and>
   rt_prio (normal_prio (blank_task\<lparr>t_policy := SCHED_FIFO, t_rt_priority := 10\<rparr>))"
proof -
  let ?t = "blank_task\<lparr>t_policy := SCHED_FIFO, t_rt_priority := 10\<rparr>"
  have rt: "task_has_rt_policy ?t" by (simp add: task_has_rt_policy_def rt_policy_def)
  then have "prio_wf ?t" by (simp add: prio_wf_def prio_consts) (simp add: blank_task_def)
  moreover from this have "rt_prio (normal_prio ?t)"
    using normal_prio_bands [of ?t] rt by blast
  moreover have "normal_prio ?t = 89" using rt by (simp add: normal_prio_def prio_consts)
  ultimately show ?thesis by blast
qed

subsection \<open>The weight tables\<close>

text \<open>The weight tables: 40 entries each, weights strictly falling with the nice level, each
  step a factor between 1.2 and 1.28 (the documented 1.25), every precalculated inverse within
  one unit of \<open>2^32 / weight\<close>.\<close>

theorem weight_tables:
  "length prio_to_weight = 40 \<and> length prio_to_wmult = 40 \<and>
   list_all (\<lambda>i. 120 * unat (prio_to_weight ! Suc i) \<le> 100 * unat (prio_to_weight ! i) \<and>
     100 * unat (prio_to_weight ! i) \<le> 128 * unat (prio_to_weight ! Suc i)) [0..<39] \<and>
   list_all2 (\<lambda>m w. \<bar>uint m * uint w - 2 ^ 32\<bar> < uint w) prio_to_wmult prio_to_weight"
  by (simp add: prio_to_weight_def prio_to_wmult_def upt_rec)

lemma set_prio_to_weight: "w \<in> set prio_to_weight \<Longrightarrow> 15 \<le> unat w \<and> unat w \<le> 88761"
  by (auto simp: prio_to_weight_def)

lemma load_weight_of_legal:
  assumes "prio_wf t"
  shows "\<exists>lw. load_weight_of t = Some lw \<and> 3 \<le> unat (lw_weight lw) \<and>
    unat (lw_weight lw) \<le> 177522"
proof -
  have len: "length prio_to_weight = 40" "length prio_to_wmult = 40"
    by (simp_all add: prio_to_weight_def prio_to_wmult_def)
  have idx: "nat (t_static_prio t - 100) < length prio_to_weight"
    using assms len by (auto simp: prio_wf_def prio_consts)
  show ?thesis
    using assms set_prio_to_weight [OF nth_mem [OF idx]] len
    by (auto simp: load_weight_of_def prio_wf_def prio_consts table_at_def WEIGHT_IDLEPRIO_def)
      (simp_all add: prio_to_weight_def)
qed

subsection \<open>Fixed-point multiplication\<close>

lemma unat_SRR:
  assumes y: "y = 16 \<or> y = 32" and sum: "unat x + 2 ^ (y - 1) < 2 ^ 64"
  shows "unat (SRR x y) = (unat x + 2 ^ (y - 1)) div 2 ^ y"
proof -
  have a: "unat (ucast (push_bit (y - 1) (1 :: u32)) :: u64) = 2 ^ (y - 1)"
    using y by (auto simp: push_bit_eq_mult)
  have "unat (x + ucast (push_bit (y - 1) (1 :: u32))) = unat x + 2 ^ (y - 1)"
    using sum a by (subst unat_add_lem [THEN iffD1]) simp_all
  with sum show ?thesis
    by (simp only: SRR_def unsigned_drop_bit_eq) (simp add: drop_bit_eq_div take_bit_nat_eq_self)
qed

lemma calc_delta_nice0_aux:
  assumes lw: "lw = \<lparr>lw_weight = 1024, lw_inv = 4194304\<rparr>"
    and d: "unat delta < 2 ^ 31 - 32"
  shows "\<bar>int (unat (fst (calc_delta_mine delta 1024 lw))) - int (unat delta)\<bar> \<le> 32"
    and "unat delta < 2 ^ 22 \<Longrightarrow> fst (calc_delta_mine delta 1024 lw) = delta"
proof -
  let ?d = "unat delta" and ?tmp = "ucast delta * ucast (1024 :: u32) :: u64"
  define r where "r = (if ucast WMULT_CONST < ?tmp
       then SRR (SRR ?tmp 16 * ucast (4194304 :: u32)) 16
       else SRR (?tmp * ucast (4194304 :: u32)) 32)"
  have ud: "unat (ucast delta :: u64) = ?d"
    using d by (simp add: unsigned_ucast_eq take_bit_nat_eq_self)
  have tmp: "unat ?tmp = ?d * 1024"
    using d by (subst unat_mult_small) (simp_all add: ud)
  then have tmp': "unat (ucast delta * 1024 :: u64) = ?d * 1024" by simp
  have fst_eq: "fst (calc_delta_mine delta 1024 lw) = ucast (min r (ucast LONG_MAX))"
    by (simp add: calc_delta_mine_def lw Let_def WMULT_SHIFT_def r_def)
  have big: "ucast WMULT_CONST < ?tmp \<longleftrightarrow> 2 ^ 22 \<le> ?d"
    unfolding word_less_nat_alt tmp by (simp add: WMULT_CONST_def) linarith
  have small: "?d < 2 ^ 22 \<Longrightarrow> unat r = ?d"
  proof -
    assume s: "?d < 2 ^ 22"
    have "unat (?tmp * ucast (4194304 :: u32)) = ?d * 4294967296"
      using s by (subst unat_mult_small) (simp_all add: tmp')
    then have "unat (SRR (?tmp * ucast (4194304 :: u32)) 32) = (?d * 4294967296 + 2 ^ 31) div 2 ^ 32"
      using s by (subst unat_SRR) simp_all
    then show ?thesis using s big by (simp add: r_def)
  qed
  have large: "2 ^ 22 \<le> ?d \<Longrightarrow> unat r = (?d * 1024 + 32768) div 65536 * 64"
  proof -
    assume s: "2 ^ 22 \<le> ?d"
    have i: "unat (SRR ?tmp 16) = (?d * 1024 + 32768) div 65536"
      using d by (subst unat_SRR) (simp_all add: tmp')
    then have i': "unat (SRR (ucast delta * 1024) 16) = (?d * 1024 + 32768) div 65536" by simp
    have "unat (SRR ?tmp 16 * ucast (4194304 :: u32)) = (?d * 1024 + 32768) div 65536 * 4194304"
      using d by (subst unat_mult_small) (simp_all add: i')
    then have "unat (SRR (SRR ?tmp 16 * ucast (4194304 :: u32)) 16) =
        ((?d * 1024 + 32768) div 65536 * 4194304 + 2 ^ 15) div 2 ^ 16"
      using d by (subst unat_SRR) simp_all
    then show ?thesis using s big by (simp add: r_def)
  qed
  have lim: "unat (ucast LONG_MAX :: u64) = 2147483647"
    by (simp add: LONG_MAX_def)
  have res: "unat (fst (calc_delta_mine delta 1024 lw)) = min (unat r) 2147483647"
  proof -
    have m: "unat (min r (ucast LONG_MAX)) = min (unat r) 2147483647"
      by (simp add: min_def word_le_nat_alt lim)
    then show ?thesis
      unfolding fst_eq unsigned_ucast_eq m by (simp add: take_bit_nat_eq_self)
  qed
  show exact: "unat delta < 2 ^ 22 \<Longrightarrow> fst (calc_delta_mine delta 1024 lw) = delta"
    using res small by (intro word_unat_eq_iff [THEN iffD2]) simp
  show "\<bar>int (unat (fst (calc_delta_mine delta 1024 lw))) - int (unat delta)\<bar> \<le> 32"
  proof (cases "?d < 2 ^ 22")
    case True
    then show ?thesis by (simp add: exact)
  next
    case False
    then have "unat r = (?d * 1024 + 32768) div 65536 * 64" by (intro large) simp
    then have b: "unat r \<le> ?d + 32" "?d \<le> unat r + 32" by linarith+
    then have "min (unat r) 2147483647 = unat r" using d by simp
    then show ?thesis unfolding res using b by linarith
  qed
qed

text \<open>Scaling a runtime by the weight of nice level 0 on a runqueue of that weight is the
  identity up to the rounding of the two-stage shift: exact below 2^22 ns, within 32 ns up to
  the 31-bit bound, and never more than \<open>LONG_MAX\<close>.\<close>

theorem calc_delta_nice0:
  "unat delta < 2 ^ 31 - 32 \<Longrightarrow>
   \<bar>int (unat (fst (calc_delta_mine delta 1024 nice0_load))) - int (unat delta)\<bar> \<le> 32 \<and>
   (unat delta < 2 ^ 22 \<longrightarrow> fst (calc_delta_mine delta 1024 nice0_load) = delta)"
  using calc_delta_nice0_aux [OF nice0_load_def] by blast

theorem calc_delta_nice0_witness:
  "fst (calc_delta_mine 4000000 1024 nice0_load) = 4000000"
  using calc_delta_nice0 [of 4000000] by simp

subsection \<open>Running averages\<close>

text \<open>\<open>update_avg\<close> moves an average an eighth of the way to the sample: for values below
  2^63 the new average lies between the old one and the sample, in spite of the wrapping
  subtraction and the arithmetic shift.\<close>

theorem update_avg_between:
  assumes "uint avg < 2 ^ 63" "uint sample < 2 ^ 63"
  shows "min (uint avg) (uint sample) \<le> uint (update_avg avg sample) \<and>
    uint (update_avg avg sample) \<le> max (uint avg) (uint sample)"
proof -
  let ?a = "uint avg" and ?s = "uint sample"
  have pos: "0 \<le> ?a" "0 \<le> ?s" by simp_all
  have d: "sint (sample - avg) = ?s - ?a"
  proof -
    have "sample - avg = word_of_int (?s - ?a)" by simp
    then have "sint (sample - avg) = signed_take_bit 63 (?s - ?a)" by (simp only: signed_of_int) simp
    also have "\<dots> = ?s - ?a"
      using assms pos by (intro signed_take_bit_int_eq_self; linarith)
    finally show ?thesis .
  qed
  have "sint (signed_drop_bit 3 (sample - avg)) = (?s - ?a) div 8"
    by (simp add: sint_signed_drop_bit_eq d drop_bit_eq_div)
  then have q: "signed_drop_bit 3 (sample - avg) = word_of_int ((?s - ?a) div 8)"
    by (metis of_int_sint scast_id)
  have "update_avg avg sample = word_of_int (?a + (?s - ?a) div 8)"
    by (simp add: update_avg_def Let_def q)
  moreover have "0 \<le> ?a + (?s - ?a) div 8" "?a + (?s - ?a) div 8 < 2 ^ 63" "min ?a ?s \<le> ?a + (?s - ?a) div 8" "?a + (?s - ?a) div 8 \<le> max ?a ?s"
    using assms pos by linarith+
  ultimately show ?thesis by (simp only: unsigned_of_int) (simp add: take_bit_int_eq_self)
qed

theorem update_avg_between_witness:
  "uint (update_avg 100 20) = 90 \<and> uint (update_avg 100 20) \<le> 100"
proof -
  have "uint (update_avg 100 20) \<le> max 100 20"
    using update_avg_between [of 100 20] by simp
  moreover have "update_avg 100 20 = 90" by (simp add: update_avg_def)
  ultimately show ?thesis by simp
qed

end
