(* ===== verification/Sched_core.thy ===== *)
theory Sched_core
  imports Sched_prio
begin

text \<open>
  \<open>sched_mod.c\<close>: the layer every other part of the scheduler stands on. Locks and interrupt
  masking, the clock of a runqueue, and locking the runqueue of a task or two runqueues.
\<close>

subsection \<open>Locks\<close>

definition spin_lock :: "lock_id \<Rightarrow> ('x kst, unit) state" where
  "spin_lock l = log_event (Spin_lock l)"

definition spin_unlock :: "lock_id \<Rightarrow> ('x kst, unit) state" where
  "spin_unlock l = log_event (Spin_unlock l)"

definition local_irq_disable :: "('x kst, unit) state" where
  "local_irq_disable = do { modify (\<lambda>s. s\<lparr>k_irqs_off := True\<rparr>); log_event Irq_off }"

definition local_irq_enable :: "('x kst, unit) state" where
  "local_irq_enable = do { modify (\<lambda>s. s\<lparr>k_irqs_off := False\<rparr>); log_event Irq_on }"

definition local_irq_save :: "('x kst, bool) state" where
  "local_irq_save = do { f \<leftarrow> gets k_irqs_off; local_irq_disable; ret f }"

definition local_irq_restore :: "bool \<Rightarrow> ('x kst, unit) state" where
  "local_irq_restore f = do {
     modify (\<lambda>s. s\<lparr>k_irqs_off := f\<rparr>); log_event (Irq_restore f) }"

definition spin_lock_irq :: "lock_id \<Rightarrow> ('x kst, unit) state" where
  "spin_lock_irq l = do { local_irq_disable; spin_lock l }"

definition spin_unlock_irq :: "lock_id \<Rightarrow> ('x kst, unit) state" where
  "spin_unlock_irq l = do { spin_unlock l; local_irq_enable }"

definition spin_lock_irqsave :: "lock_id \<Rightarrow> ('x kst, bool) state" where
  "spin_lock_irqsave l = do { f \<leftarrow> local_irq_save; spin_lock l; ret f }"

definition spin_unlock_irqrestore :: "lock_id \<Rightarrow> bool \<Rightarrow> ('x kst, unit) state" where
  "spin_unlock_irqrestore l f = do { spin_unlock l; local_irq_restore f }"

lemma lock_exec [simp]:
  "exec (spin_lock l) s = s\<lparr>k_log := k_log s @ [Spin_lock l]\<rparr>"
  "exec (spin_unlock l) s = s\<lparr>k_log := k_log s @ [Spin_unlock l]\<rparr>"
  "exec local_irq_disable s = s\<lparr>k_irqs_off := True, k_log := k_log s @ [Irq_off]\<rparr>"
  "exec local_irq_enable s = s\<lparr>k_irqs_off := False, k_log := k_log s @ [Irq_on]\<rparr>"
  "exec local_irq_save s = s\<lparr>k_irqs_off := True, k_log := k_log s @ [Irq_off]\<rparr>"
  "result local_irq_save s = k_irqs_off s"
  "exec (local_irq_restore f) s = s\<lparr>k_irqs_off := f, k_log := k_log s @ [Irq_restore f]\<rparr>"
  "exec (spin_lock_irq l) s = s\<lparr>k_irqs_off := True, k_log := k_log s @ [Irq_off, Spin_lock l]\<rparr>"
  "exec (spin_unlock_irq l) s = s\<lparr>k_irqs_off := False, k_log := k_log s @ [Spin_unlock l, Irq_on]\<rparr>"
  "exec (spin_lock_irqsave l) s = s\<lparr>k_irqs_off := True, k_log := k_log s @ [Irq_off, Spin_lock l]\<rparr>"
  "result (spin_lock_irqsave l) s = k_irqs_off s"
  "exec (spin_unlock_irqrestore l f) s =
     s\<lparr>k_irqs_off := f, k_log := k_log s @ [Spin_unlock l, Irq_restore f]\<rparr>"
  by (simp_all add: spin_lock_def spin_unlock_def local_irq_disable_def local_irq_enable_def
      local_irq_save_def local_irq_restore_def spin_lock_irq_def spin_unlock_irq_def
      spin_lock_irqsave_def spin_unlock_irqrestore_def)

lemma keeps_locks [keeps_intros]:
  assumes "\<And>s l b. obs (s\<lparr>k_irqs_off := b, k_log := l\<rparr>) = obs s"
  shows "keeps obs (spin_lock a)" "keeps obs (spin_unlock a)" "keeps obs local_irq_disable"
    "keeps obs local_irq_enable" "keeps obs local_irq_save" "keeps obs (local_irq_restore f)"
    "keeps obs (spin_lock_irq a)" "keeps obs (spin_unlock_irq a)" "keeps obs (spin_lock_irqsave a)"
    "keeps obs (spin_unlock_irqrestore a f)"
proof -
  have l: "obs (s\<lparr>k_log := l\<rparr>) = obs s" for s l using assms [where s = s and l = l and b = "k_irqs_off s"] by simp
  have b: "obs (s\<lparr>k_irqs_off := b, k_log := l\<rparr>) = obs s" for s l b
    using assms [where s = s and l = l and b = b] by simp
  have i: "obs (s\<lparr>k_irqs_off := b\<rparr>) = obs s" for s b
    using assms [where s = s and l = "k_log s" and b = b] by simp
  show "keeps obs (spin_lock a)" "keeps obs (spin_unlock a)" "keeps obs local_irq_disable"
    "keeps obs local_irq_enable" "keeps obs local_irq_save" "keeps obs (local_irq_restore f)"
    "keeps obs (spin_lock_irq a)" "keeps obs (spin_unlock_irq a)" "keeps obs (spin_lock_irqsave a)"
    "keeps obs (spin_unlock_irqrestore a f)"
    by (simp_all add: keeps_def l b i)
qed

subsection \<open>Runqueues, clocks and current tasks\<close>

definition sched_feat :: "'x kops \<Rightarrow> sched_feature \<Rightarrow> ('x kst, bool) state" where
  "sched_feat K x =
     gets (\<lambda>s. bit (sysctl_sched_features (k_sysctl s)) (feature_bit (services K) x))"

definition update_rq_clock :: "'x kops \<Rightarrow> cpu \<Rightarrow> ('x kst, unit) state" where
  "update_rq_clock K c = do {
     now \<leftarrow> service (sched_clock_cpu (services K) c);
     upd_rq c (\<lambda>r. r\<lparr>rq_clock := now\<rparr>) }"

definition task_current :: "cpu \<Rightarrow> task \<Rightarrow> ('x kst, bool) state" where
  "task_current c p = rq_get c (\<lambda>r. rq_curr r = p)"

definition task_running :: "cpu \<Rightarrow> task \<Rightarrow> ('x kst, bool) state" where
  "task_running c p = task_current c p"

definition task_curr :: "task \<Rightarrow> ('x kst, bool) state" where
  "task_curr p = gets (\<lambda>s. rq_curr (k_rq s (t_cpu (k_task s p))) = p)"

definition idle_cpu :: "cpu \<Rightarrow> ('x kst, bool) state" where
  "idle_cpu c = rq_get c (\<lambda>r. rq_curr r = rq_idle r)"

definition idle_task :: "cpu \<Rightarrow> ('x kst, task) state" where
  "idle_task c = rq_get c rq_idle"

text \<open>\<open>task_rq_lock\<close> takes the lock of the runqueue the task is on, looks whether it still is,
  and starts again if not. Nothing runs in between here, so one turn is enough
  (\<open>task_rq_lock_run\<close>).\<close>

definition task_rq_lock_loop :: "nat \<Rightarrow> task \<Rightarrow> ('x kst, (cpu \<times> bool) option) state" where
  "task_rq_lock_loop fuel p = loop_m fuel (\<lambda>_. do {
     flags \<leftarrow> local_irq_save;
     rq \<leftarrow> task_get p t_cpu;
     spin_lock (Rq_lock rq);
     rq' \<leftarrow> task_get p t_cpu;
     if rq = rq' then ret (Inr (rq, flags))
     else do { spin_unlock_irqrestore (Rq_lock rq) flags; ret (Inl ()) } }) ()"

definition task_rq_lock :: "task \<Rightarrow> ('x kst, cpu \<times> bool) state" where
  "task_rq_lock p = do { r \<leftarrow> task_rq_lock_loop 1 p; ret (the r) }"

definition task_rq_lock_noirq_loop :: "nat \<Rightarrow> task \<Rightarrow> ('x kst, cpu option) state" where
  "task_rq_lock_noirq_loop fuel p = loop_m fuel (\<lambda>_. do {
     rq \<leftarrow> task_get p t_cpu;
     spin_lock (Rq_lock rq);
     rq' \<leftarrow> task_get p t_cpu;
     if rq = rq' then ret (Inr rq)
     else do { spin_unlock (Rq_lock rq); ret (Inl ()) } }) ()"

definition task_rq_lock_noirq :: "task \<Rightarrow> ('x kst, cpu) state" where
  "task_rq_lock_noirq p = do { r \<leftarrow> task_rq_lock_noirq_loop 1 p; ret (the r) }"

definition task_rq_unlock :: "cpu \<Rightarrow> bool \<Rightarrow> ('x kst, unit) state" where
  "task_rq_unlock rq flags = spin_unlock_irqrestore (Rq_lock rq) flags"

definition this_rq_lock :: "('x kst, cpu) state" where
  "this_rq_lock = do {
     local_irq_disable;
     rq \<leftarrow> gets k_this_cpu;
     spin_lock (Rq_lock rq);
     ret rq }"

lemma task_rq_lock_run [simp]:
  "result (task_rq_lock_loop 1 p) s = Some (t_cpu (k_task s p), k_irqs_off s)"
  "result (task_rq_lock p) s = (t_cpu (k_task s p), k_irqs_off s)"
  "exec (task_rq_lock p) s =
     s\<lparr>k_irqs_off := True, k_log := k_log s @ [Irq_off, Spin_lock (Rq_lock (t_cpu (k_task s p)))]\<rparr>"
  "result (task_rq_lock_noirq p) s = t_cpu (k_task s p)"
  "exec (task_rq_lock_noirq p) s =
     s\<lparr>k_log := k_log s @ [Spin_lock (Rq_lock (t_cpu (k_task s p)))]\<rparr>"
  by (simp_all add: task_rq_lock_def task_rq_lock_loop_def task_rq_lock_noirq_def
      task_rq_lock_noirq_loop_def)

lemma task_rq_unlock_run [simp]:
  "exec (task_rq_unlock c f) s =
     s\<lparr>k_irqs_off := f, k_log := k_log s @ [Spin_unlock (Rq_lock c), Irq_restore f]\<rparr>"
  by (simp add: task_rq_unlock_def)

lemma keeps_task_rq_lock [keeps_intros]:
  assumes "\<And>s l b. obs (s\<lparr>k_irqs_off := b, k_log := l\<rparr>) = obs s"
  shows "keeps obs (task_rq_lock p)" "keeps obs (task_rq_unlock c f)"
    "keeps obs (task_rq_lock_noirq p)"
proof -
  have l: "obs (s\<lparr>k_log := l\<rparr>) = obs s" for s l using assms [where s = s and l = l and b = "k_irqs_off s"] by simp
  have b: "obs (s\<lparr>k_irqs_off := b, k_log := l\<rparr>) = obs s" for s l b
    using assms [where s = s and l = l and b = b] by simp
  have i: "obs (s\<lparr>k_irqs_off := b\<rparr>) = obs s" for s b
    using assms [where s = s and l = "k_log s" and b = b] by simp
  show "keeps obs (task_rq_lock p)" "keeps obs (task_rq_unlock c f)"
    "keeps obs (task_rq_lock_noirq p)"
    by (simp_all add: keeps_def l b i)
qed

lemma keeps_update_rq_clock [keeps_intros]:
  "(\<And>s x. obs (s\<lparr>k_ext := x\<rparr>) = obs s) \<Longrightarrow>
   (\<And>s v. obs (s\<lparr>k_rq := (k_rq s)(c := (k_rq s c)\<lparr>rq_clock := v\<rparr>)\<rparr>) = obs s) \<Longrightarrow>
   keeps obs (update_rq_clock K c)"
  unfolding update_rq_clock_def by (intro keeps_intros)

text \<open>Two runqueues are always locked in the order of their addresses, that is of their CPUs.\<close>

definition double_rq_lock :: "'x kops \<Rightarrow> cpu \<Rightarrow> cpu \<Rightarrow> ('x kst, unit) state" where
  "double_rq_lock K rq1 rq2 = do {
     off \<leftarrow> gets k_irqs_off;
     if \<not> off then log_event Sched_bug else do {
       (if rq1 = rq2 then spin_lock (Rq_lock rq1)
        else if rq1 < rq2 then do { spin_lock (Rq_lock rq1); spin_lock (Rq_lock rq2) }
        else do { spin_lock (Rq_lock rq2); spin_lock (Rq_lock rq1) });
       update_rq_clock K rq1;
       update_rq_clock K rq2 } }"

definition double_rq_unlock :: "cpu \<Rightarrow> cpu \<Rightarrow> ('x kst, unit) state" where
  "double_rq_unlock rq1 rq2 = do {
     spin_unlock (Rq_lock rq1);
     when_m (rq1 \<noteq> rq2) (spin_unlock (Rq_lock rq2)) }"

text \<open>\<open>double_lock_balance\<close> (the variant for kernels without preemption): \<open>this_rq\<close> is held. The
  answer says whether it was dropped meanwhile.\<close>

definition double_lock_balance_inner :: "'x kops \<Rightarrow> cpu \<Rightarrow> cpu \<Rightarrow> ('x kst, bool) state" where
  "double_lock_balance_inner K this_rq busiest = do {
     got \<leftarrow> gets (\<lambda>s. spin_trylock_ok (services K) (Rq_lock busiest) (k_ext s));
     if got then do { log_event (Spin_lock (Rq_lock busiest)); ret False }
     else if busiest < this_rq then do {
       spin_unlock (Rq_lock this_rq);
       spin_lock (Rq_lock busiest);
       spin_lock (Rq_lock this_rq);
       ret True }
     else do { spin_lock (Rq_lock busiest); ret False } }"

definition double_lock_balance :: "'x kops \<Rightarrow> cpu \<Rightarrow> cpu \<Rightarrow> ('x kst, bool) state" where
  "double_lock_balance K this_rq busiest = do {
     off \<leftarrow> gets k_irqs_off;
     if \<not> off then do { spin_unlock (Rq_lock this_rq); log_event Sched_bug; ret False }
     else double_lock_balance_inner K this_rq busiest }"

definition double_unlock_balance :: "cpu \<Rightarrow> cpu \<Rightarrow> ('x kst, unit) state" where
  "double_unlock_balance this_rq busiest = spin_unlock (Rq_lock busiest)"

end
