(* ===== verification/Sched_force.thy ===== *)
theory Sched_force
  imports Sched_core
begin

text \<open>
  \<open>sched_mod.c\<close>, the interface that the patch adds: \<open>set_pid_force_run\<close> and the variables
  behind it. First the function as one caller runs it, and the contract that the
  \<open>os_ctrl\<close> module relies on as the locale \<open>force_run\<close>; then its statements as the steps of
  a transition system in which several CPUs are inside the function at once, because the
  test of \<open>last_p_id\<close> and the assignment to it stand outside the lock.
\<close>

subsection \<open>One caller\<close>

definition set_pid_force_run :: "s32 \<Rightarrow> ('x kst, unit) state" where
  "set_pid_force_run p_id = do {
     last_p_id \<leftarrow> gets k_last_p_id;
     when_m (p_id \<noteq> last_p_id) (do {
       spin_lock Force_lock;
       modify (\<lambda>s. s\<lparr>k_pid_force_run := p_id\<rparr>);
       spin_unlock Force_lock });
     modify (\<lambda>s. s\<lparr>k_last_p_id := p_id\<rparr>) }"

text \<open>\<open>last_p_id\<close> is a cache of \<open>pid_force_run\<close>: the function is right as long as the two agree.\<close>

definition force_sync :: "'x kst \<Rightarrow> bool" where
  "force_sync s \<longleftrightarrow> k_last_p_id s = k_pid_force_run s"

lemma set_pid_force_run_exec:
  "exec (set_pid_force_run p) s =
    (if p \<noteq> k_last_p_id s
     then s\<lparr>k_pid_force_run := p, k_last_p_id := p,
            k_log := k_log s @ [Spin_lock Force_lock, Spin_unlock Force_lock]\<rparr>
     else s)"
  by (simp add: set_pid_force_run_def)

lemma force_sync_set_pid [simp]: "force_sync s \<Longrightarrow> force_sync (exec (set_pid_force_run p) s)"
  by (simp add: set_pid_force_run_exec force_sync_def)

lemma set_pid_takes [simp]:
  "force_sync s \<Longrightarrow> k_pid_force_run (exec (set_pid_force_run p) s) = p"
  by (simp add: set_pid_force_run_exec force_sync_def)

lemma set_pid_cached [simp]: "k_last_p_id (exec (set_pid_force_run p) s) = p"
  by (simp add: set_pid_force_run_exec)

lemma keeps_set_pid_force_run [keeps_intros]:
  assumes "\<And>s a b l. obs (s\<lparr>k_pid_force_run := a, k_last_p_id := b, k_log := l\<rparr>) = obs s"
  shows "keeps obs (set_pid_force_run p)"
  by (rule keepsI) (simp add: set_pid_force_run_exec assms)

subsection \<open>The contract the profiling module relies on\<close>

text \<open>A cell that a call of \<open>put\<close> sets, in states that satisfy \<open>ok\<close>.\<close>

locale force_run =
  fixes put :: "'v \<Rightarrow> ('s, unit) state"
    and look :: "'s \<Rightarrow> 'v"
    and ok :: "'s \<Rightarrow> bool"
  assumes put_ok: "ok s \<Longrightarrow> ok (exec (put v) s)"
    and look_put: "ok s \<Longrightarrow> look (exec (put v) s) = v"
begin

lemma last_put_wins: "ok s \<Longrightarrow> look (exec (do { put v; put w }) s) = w"
  by (simp add: put_ok look_put)

lemma put_all: "ok s \<Longrightarrow> vs \<noteq> [] \<Longrightarrow> look (exec (for_each vs put) s) = last vs"
proof (induction vs arbitrary: s)
  case (Cons v vs)
  then show ?case by (cases "vs = []") (simp_all add: put_ok look_put)
qed simp

lemma ok_put_all: "ok s \<Longrightarrow> ok (exec (for_each vs put) s)"
  by (induction vs arbitrary: s) (simp_all add: put_ok)

end

interpretation force: force_run set_pid_force_run k_pid_force_run force_sync
  by unfold_locales simp_all

subsection \<open>Several callers at once\<close>

text \<open>Where a CPU is in the function, with its argument; \<open>Outside\<close> before and after a call.
  A lock holder is a CPU; an action of the environment starts a call.\<close>

datatype force_pc = Outside | At_test s32 | At_lock s32 | At_store s32 | At_unlock s32 | At_last s32

record race =
  f_pid :: s32
  f_last :: s32
  f_lock :: "cpu option"
  f_pc :: "cpu \<Rightarrow> force_pc"

definition goto :: "cpu \<Rightarrow> force_pc \<Rightarrow> race \<Rightarrow> race" where
  "goto c l s = s\<lparr>f_pc := (f_pc s)(c := l)\<rparr>"

lemma goto_fields [simp]:
  "f_pid (goto c l s) = f_pid s" "f_last (goto c l s) = f_last s" "f_lock (goto c l s) = f_lock s"
  "f_pc (goto c l s) = (f_pc s)(c := l)"
  by (simp_all add: goto_def)

inductive force_step :: "race \<Rightarrow> race \<Rightarrow> bool" where
  Call: "f_pc s c = Outside \<Longrightarrow> force_step s (goto c (At_test p) s)"
| Test_new: "f_pc s c = At_test p \<Longrightarrow> p \<noteq> f_last s \<Longrightarrow> force_step s (goto c (At_lock p) s)"
| Test_same: "f_pc s c = At_test p \<Longrightarrow> p = f_last s \<Longrightarrow> force_step s (goto c (At_last p) s)"
| Lock: "f_pc s c = At_lock p \<Longrightarrow> f_lock s = None \<Longrightarrow>
    force_step s (goto c (At_store p) (s\<lparr>f_lock := Some c\<rparr>))"
| Store: "f_pc s c = At_store p \<Longrightarrow> force_step s (goto c (At_unlock p) (s\<lparr>f_pid := p\<rparr>))"
| Unlock: "f_pc s c = At_unlock p \<Longrightarrow> force_step s (goto c (At_last p) (s\<lparr>f_lock := None\<rparr>))"
| Set_last: "f_pc s c = At_last p \<Longrightarrow> force_step s (goto c Outside (s\<lparr>f_last := p\<rparr>))"

inductive_cases force_stepE: "force_step s t"

definition all_outside :: "race \<Rightarrow> bool" where
  "all_outside s \<longleftrightarrow> (\<forall>c. f_pc s c = Outside)"

definition holds_lock :: "force_pc \<Rightarrow> bool" where
  "holds_lock l = (case l of At_store _ \<Rightarrow> True | At_unlock _ \<Rightarrow> True | _ \<Rightarrow> False)"

lemma holds_lock_simps [simp]:
  "holds_lock (At_store p)" "holds_lock (At_unlock p)" "\<not> holds_lock Outside"
  "\<not> holds_lock (At_test p)" "\<not> holds_lock (At_lock p)" "\<not> holds_lock (At_last p)"
  by (simp_all add: holds_lock_def)

definition lock_inv :: "race \<Rightarrow> bool" where
  "lock_inv s \<longleftrightarrow> (\<forall>c. holds_lock (f_pc s c) \<longleftrightarrow> f_lock s = Some c)"

lemma lock_inv_stay:
  "lock_inv s \<Longrightarrow> f_pc s' = f_pc s \<Longrightarrow> f_lock s' = f_lock s \<Longrightarrow>
   holds_lock l = holds_lock (f_pc s c) \<Longrightarrow> lock_inv (goto c l s')"
  by (simp add: lock_inv_def)

lemma lock_inv_take:
  "lock_inv s \<Longrightarrow> f_lock s = None \<Longrightarrow> lock_inv (goto c (At_store p) (s\<lparr>f_lock := Some c\<rparr>))"
  by (simp add: lock_inv_def)

lemma lock_inv_release:
  "lock_inv s \<Longrightarrow> f_pc s c = At_unlock p \<Longrightarrow> lock_inv (goto c (At_last p) (s\<lparr>f_lock := None\<rparr>))"
  by (simp add: lock_inv_def) (metis holds_lock_simps(2) option.inject)

lemma lock_inv_step: "force_step s t \<Longrightarrow> lock_inv s \<Longrightarrow> lock_inv t"
  by (erule force_stepE)
    (simp_all add: lock_inv_stay [where s = s] lock_inv_take lock_inv_release)

definition race_start :: race where
  "race_start = \<lparr>f_pid = 0, f_last = 0, f_lock = None, f_pc = \<lambda>_. Outside\<rparr>"

inductive force_reach :: "race \<Rightarrow> bool" where
  Start: "force_reach race_start"
| Step: "force_reach s \<Longrightarrow> force_step s t \<Longrightarrow> force_reach t"

lemma lock_inv_reach: "force_reach s \<Longrightarrow> lock_inv s"
  by (induction rule: force_reach.induct) (simp add: race_start_def lock_inv_def, rule lock_inv_step)

subsection \<open>What the function does, alone and not alone\<close>

definition race_of :: "'x kst \<Rightarrow> race" where
  "race_of s = \<lparr>f_pid = k_pid_force_run s, f_last = k_last_p_id s, f_lock = None,
     f_pc = \<lambda>_. Outside\<rparr>"

lemma goto_race [simp]:
  "goto c l \<lparr>f_pid = a, f_last = b, f_lock = k, f_pc = f\<rparr> =
     \<lparr>f_pid = a, f_last = b, f_lock = k, f_pc = f(c := l)\<rparr>"
  by (simp add: goto_def)

text \<open>A call that nobody disturbs, as steps.\<close>

lemma solo_call_new:
  assumes "p \<noteq> b"
  shows "force_step\<^sup>*\<^sup>* \<lparr>f_pid = a, f_last = b, f_lock = None, f_pc = \<lambda>_. Outside\<rparr>
    \<lparr>f_pid = p, f_last = p, f_lock = None, f_pc = \<lambda>_. Outside\<rparr>"
proof -
  let ?S = "\<lambda>a b k l. \<lparr>f_pid = a, f_last = b, f_lock = k, f_pc = (\<lambda>_. Outside)(0 := l)\<rparr>"
  have 1: "force_step (?S a b None Outside) (?S a b None (At_test p))"
    using Call [of "?S a b None Outside" 0 p] by simp
  have 2: "force_step (?S a b None (At_test p)) (?S a b None (At_lock p))"
    using Test_new [of "?S a b None (At_test p)" 0 p] assms by simp
  have 3: "force_step (?S a b None (At_lock p)) (?S a b (Some 0) (At_store p))"
    using Lock [of "?S a b None (At_lock p)" 0 p] by simp
  have 4: "force_step (?S a b (Some 0) (At_store p)) (?S p b (Some 0) (At_unlock p))"
    using Store [of "?S a b (Some 0) (At_store p)" 0 p] by simp
  have 5: "force_step (?S p b (Some 0) (At_unlock p)) (?S p b None (At_last p))"
    using Unlock [of "?S p b (Some 0) (At_unlock p)" 0 p] by simp
  have 6: "force_step (?S p b None (At_last p)) (?S p p None Outside)"
    using Set_last [of "?S p b None (At_last p)" 0 p] by simp
  from 1 2 3 4 5 6 show ?thesis
    by (simp add: fun_upd_idem)
qed

lemma solo_call_same:
  "force_step\<^sup>*\<^sup>* \<lparr>f_pid = a, f_last = p, f_lock = None, f_pc = \<lambda>_. Outside\<rparr>
    \<lparr>f_pid = a, f_last = p, f_lock = None, f_pc = \<lambda>_. Outside\<rparr>"
  by simp


text \<open>Calls that follow one another: whatever pids were forced before, the last call
  decides whom the scheduler is locked to, and calls keep the cache \<open>last_p_id\<close> in step.\<close>

theorem last_force_wins:
  assumes "force_sync s" and "vs \<noteq> []"
  shows "k_pid_force_run (exec (for_each vs set_pid_force_run) s) = last vs \<and>
    force_sync (exec (for_each vs set_pid_force_run) s)"
  using assms by (simp_all add: force.put_all force.ok_put_all)

text \<open>C33. The statement that stores into \<open>pid_force_run\<close> is run by one CPU at a time, in
  every reachable interleaving.\<close>

theorem force_store_exclusive:
  assumes "force_reach s" and "f_pc s c = At_store p" and "f_pc s d = At_store q"
  shows "c = d"
  using lock_inv_reach [OF assms(1)] assms(2,3) unfolding lock_inv_def
  by (metis holds_lock_simps(1) option.inject)

text \<open>The lock does not protect the cache: a release \<open>set_pid_force_run(0)\<close> that runs
  while another CPU locks the scheduler to \<open>p\<close> can be lost, so that all calls have returned,
  the scheduler is locked to \<open>p\<close>, and every later \<open>set_pid_force_run(0)\<close> does nothing.\<close>

theorem force_release_lost:
  assumes "p \<noteq> 0"
  shows "\<exists>t. force_reach t \<and> all_outside t \<and> f_pid t = p \<and>
    (\<forall>s :: 'x kst. race_of s = t \<longrightarrow> exec (set_pid_force_run 0) s = s)"
proof -
  let ?S = "\<lambda>a b k l m. \<lparr>f_pid = a, f_last = b, f_lock = k,
    f_pc = (\<lambda>_. Outside)(0 := l, Suc 0 := m)\<rparr>"
  have "force_reach (?S 0 0 None Outside Outside)"
    using Start by (simp add: race_start_def fun_upd_idem)
  from Step [OF this Call [of _ 0 p]] have "force_reach (?S 0 0 None (At_test p) Outside)"
    by (simp add: fun_upd_twist)
  from Step [OF this Test_new [of _ 0 p]] assms have "force_reach (?S 0 0 None (At_lock p) Outside)"
    by (simp add: fun_upd_twist)
  from Step [OF this Lock [of _ 0 p]] have "force_reach (?S 0 0 (Some 0) (At_store p) Outside)"
    by (simp add: fun_upd_twist)
  from Step [OF this Store [of _ 0 p]] have "force_reach (?S p 0 (Some 0) (At_unlock p) Outside)"
    by (simp add: fun_upd_twist)
  from Step [OF this Unlock [of _ 0 p]] have "force_reach (?S p 0 None (At_last p) Outside)"
    by (simp add: fun_upd_twist)
  from Step [OF this Call [of _ "Suc 0" 0]] have "force_reach (?S p 0 None (At_last p) (At_test 0))"
    by simp
  from Step [OF this Test_same [of _ "Suc 0" 0]] have "force_reach (?S p 0 None (At_last p) (At_last 0))"
    by simp
  from Step [OF this Set_last [of _ 0 p]] have "force_reach (?S p p None Outside (At_last 0))"
    by (simp add: fun_upd_twist)
  from Step [OF this Set_last [of _ "Suc 0" 0]] have "force_reach (?S p 0 None Outside Outside)"
    by simp
  moreover have "exec (set_pid_force_run 0) s = s"
    if "race_of s = ?S p 0 None Outside Outside" for s :: "'x kst"
    using that by (simp add: race_of_def set_pid_force_run_exec)
  ultimately show ?thesis by (intro exI [of _ "?S p 0 None Outside Outside"]) (simp add: all_outside_def)
qed

text \<open>Concrete runs.\<close>

theorem last_force_wins_witness:
  "k_pid_force_run (exec (for_each [5, 0, 7] set_pid_force_run) (blank_kst ())) = 7"
  using last_force_wins [of "blank_kst ()" "[5, 0, 7]"] by (simp add: force_sync_def blank_kst_def)

theorem force_store_exclusive_witness:
  "\<exists>s. force_reach s \<and> f_pc s 0 = At_store 7"
proof -
  let ?s1 = "goto 0 (At_test 7) race_start"
  have r1: "force_reach ?s1"
    by (rule force_reach.Step [OF Start Call]) (simp add: race_start_def)
  have r2: "force_reach (goto 0 (At_lock 7) ?s1)"
    by (rule force_reach.Step [OF r1 Test_new]) (simp_all add: race_start_def)
  let ?s3 = "goto 0 (At_store 7) (goto 0 (At_lock 7) ?s1\<lparr>f_lock := Some 0\<rparr>)"
  have r3: "force_reach ?s3"
    by (rule force_reach.Step [OF r2 Lock]) (simp_all add: race_start_def)
  have "f_pc ?s3 0 = At_store 7" by simp
  with r3 force_store_exclusive [OF r3 this this] show ?thesis by blast
qed

theorem force_release_lost_witness:
  "\<exists>t. force_reach t \<and> all_outside t \<and> f_pid t = 7"
  using force_release_lost [of 7] by auto

end
