(* ===== verification/Os_ctrl.thy ===== *)
theory Os_ctrl
  imports Os_ctrl_common Kernel_env Sched_force
begin

text \<open>
  \<open>km_os_ctrl/os_ctrl.c\<close>: the kernel module behind \<open>/proc/os_ctrl\<close>. Its static variables
  and the static locals of its functions are the record \<open>os_ctrl\<close>, which also holds the
  scheduler's state (\<open>kern\<close>) that \<open>set_pid_force_run\<close> acts on. One definition per function
  or macro: the cache operations, the three timer handlers, \<open>set_os\<close>, the read and write
  handlers of the file, \<open>init_module\<close> and \<open>cleanup_module\<close>. A message of \<open>printk\<close> is
  recorded by its format string.
\<close>

subsection \<open>The module's state\<close>

datatype timer = Invalidate_L1_cache_timer | Kill_application_timer | Sched_reset_timer

datatype ktime = Ktime u32 u32

datatype hrtimer_handler =
  Invalidate_L1_cache_interrupt_handler | Kill_application_interrupt_handler |
  Sched_reset_interrupt_handler

text \<open>\<open>struct hrtimer\<close>: the two fields that the module reads or writes, and the rest.\<close>

record hrtimer =
  ht_state :: u32
  ht_function :: "hrtimer_handler option"
  ht_expires :: "ktime option"

definition HRTIMER_STATE_INACTIVE :: u32 where
  "HRTIMER_STATE_INACTIVE = 0"

datatype hrtimer_restart = HRTIMER_NORESTART | HRTIMER_RESTART

record siginfo =
  si_signo :: int
  si_code :: int
  si_int :: int

record ('w, 'x) os_ctrl = "'w mach" +
  p_id :: s32
  cmd :: u8
  os_ctrl_proc_file :: "proc_dir_entry option"
  timers :: "timer \<Rightarrow> hrtimer"
  timer_int_delay :: "timer \<Rightarrow> ktime"
  module_data :: "u8 list"
  kill_app_signal :: siginfo
  t_zero :: timespec
  t_L1_inv_start :: timespec
  t_L1_inv_end :: timespec
  d_nvcsw :: u32
  d_nivcsw :: u32
  prf_ready :: bool
  irq_enabled :: bool
  last_enable :: u8
  last_cmd :: u8
  kern :: "'x kst"

text \<open>\<open>module_data\<close> is the memory from the start of \<open>os_ctrl_input_buffer\<close> on: the buffer's 13
  bytes and what the linker put behind them.\<close>

definition MODULE_NAME :: string where
  "MODULE_NAME = ''os_ctrl''"

definition PROCFS_MAX_SIZE :: nat where
  "PROCFS_MAX_SIZE = 13"

definition KILL_APPLICATION_DELAY_S :: u32 where
  "KILL_APPLICATION_DELAY_S = 10"

definition SCHED_RESET_DELAY_NS :: u32 where
  "SCHED_RESET_DELAY_NS = 900000"

definition OS_CTRL_OS_DISABLE :: u8 where
  "OS_CTRL_OS_DISABLE = 0"

definition OS_CTRL_OS_ENABLE :: u8 where
  "OS_CTRL_OS_ENABLE = 1"

definition SIGKILL :: int where
  "SIGKILL = 9"

definition SI_KERNEL :: int where
  "SI_KERNEL = 128"

text \<open>Kernel services the module calls. \<open>copy_from_user\<close> gets the user's bytes and answers the
  number of bytes it could not copy and the bytes it did store at the destination.\<close>

record 'w os_env = "'w module_env" +
  hrtimer_init :: "hrtimer \<Rightarrow> hrtimer"
  hrtimer_start :: "hrtimer \<Rightarrow> ktime \<Rightarrow> 'w \<Rightarrow> hrtimer \<times> 'w"
  hrtimer_cancel :: "hrtimer \<Rightarrow> 'w \<Rightarrow> hrtimer \<times> 'w"
  find_vpid :: "s32 \<Rightarrow> 'w \<Rightarrow> nat option"
  pid_task :: "nat \<Rightarrow> 'w \<Rightarrow> task option"
  copy_from_user :: "u8 list \<Rightarrow> 'w \<Rightarrow> nat \<times> u8 list"
  getrawmonotonic :: "'w \<Rightarrow> timespec \<times> 'w"
  send_sig_info :: "int \<Rightarrow> siginfo \<Rightarrow> task \<Rightarrow> 'w \<Rightarrow> int \<times> 'w"
  set_normalized_timespec :: "int \<Rightarrow> int \<Rightarrow> timespec"

type_synonym ('w, 'x, 'a) os_op = "(('w, 'x) os_ctrl, 'a) state"

definition in_kern :: "('x kst, 'a) state \<Rightarrow> ('w, 'x, 'a) os_op" where
  "in_kern m = do {
     s \<leftarrow> State_Monad.get;
     State_Monad.set (s\<lparr>kern := exec m (kern s)\<rparr>);
     ret (result m (kern s)) }"

lemma in_kern_simps [simp]:
  "exec (in_kern m) s = s\<lparr>kern := exec m (kern s)\<rparr>"
  "result (in_kern m) s = result m (kern s)"
  by (simp_all add: in_kern_def exec_def result_def)

definition upd_timer :: "timer \<Rightarrow> (hrtimer \<Rightarrow> hrtimer) \<Rightarrow> ('w, 'x, unit) os_op" where
  "upd_timer t f = modify (\<lambda>s. s\<lparr>timers := (timers s)(t := f (timers s t))\<rparr>)"

definition call_timer ::
    "timer \<Rightarrow> (hrtimer \<Rightarrow> 'w \<Rightarrow> hrtimer \<times> 'w) \<Rightarrow> ('w, 'x, unit) os_op" where
  "call_timer t f = do {
     h \<leftarrow> gets (\<lambda>s. timers s t);
     h' \<leftarrow> in_world (f h);
     upd_timer t (\<lambda>_. h') }"

lemma timer_simps [simp]:
  "exec (upd_timer t f) s = s\<lparr>timers := (timers s)(t := f (timers s t))\<rparr>"
  "exec (call_timer t g) s = s\<lparr>timers := (timers s)(t := fst (g (timers s t) (world s))),
     world := snd (g (timers s t) (world s))\<rparr>"
  by (simp_all add: upd_timer_def call_timer_def)

definition timer_inactive :: "timer \<Rightarrow> ('w, 'x) os_ctrl \<Rightarrow> bool" where
  "timer_inactive t s \<longleftrightarrow> ht_state (timers s t) = HRTIMER_STATE_INACTIVE"

subsection \<open>Interrupts and counters\<close>

definition irq_no :: "u8 list" where
  "irq_no = [17, 18, 20, 21, 22, 23, 24, 28, 29, 30, 34, 41, 42, 43, 45, 58, 72, 74, 76, 77, 78,
     79, 247, 251, 252, 253]"

definition IRQ_ENABLE :: "('w, 'x, unit) os_op" where
  "IRQ_ENABLE = do {
     for_each irq_no (\<lambda>n. do {
       on \<leftarrow> gets irq_enabled;
       when_m (\<not> on) (emit (Enable_irq n)) });
     modify (\<lambda>s. s\<lparr>irq_enabled := True\<rparr>) }"

definition IRQ_DISABLE :: "('w, 'x, unit) os_op" where
  "IRQ_DISABLE = do {
     for_each irq_no (\<lambda>n. do {
       on \<leftarrow> gets irq_enabled;
       when_m on (emit (Disable_irq n)) });
     modify (\<lambda>s. s\<lparr>irq_enabled := False\<rparr>) }"

definition reset_cntrs :: "('w, 'x, unit) os_op" where
  "reset_cntrs = do {
     modify (\<lambda>s. s\<lparr>cmd := OS_CTRL_TASK_CMD_NONE\<rparr>);
     modify (\<lambda>s. s\<lparr>d_nvcsw := 0, d_nivcsw := 0\<rparr>);
     modify (\<lambda>s. s\<lparr>t_L1_inv_start := t_zero s, t_L1_inv_end := t_zero s\<rparr>) }"

definition os_invalidate_L1_instruction_cache :: "('w, 'x, unit) os_op" where
  "os_invalidate_L1_instruction_cache = asm_volatile icache_asm"

definition os_flush_and_invalidate_L1_data_cache :: "'w os_env \<Rightarrow> ('w, 'x, unit) os_op" where
  "os_flush_and_invalidate_L1_data_cache E = do {
     scratchref \<leftarrow> in_world (kmalloc E SCRATCH_SIZE);
     if scratchref \<noteq> 0 then do {
       let scratchend = scratchref + of_nat SCRATCH_SIZE;
       freed \<leftarrow> dcache_statement E scratchref scratchend;
       emit (Kfree freed);
       in_world_unit (kfree E freed)
     } else printk ''%s ERROR: MEM not allocated!'' }"

subsection \<open>The timer handlers\<close>

definition invalidate_L1_cache_interrupt_handler ::
    "'w os_env \<Rightarrow> ('w, 'x, hrtimer_restart) os_op" where
  "invalidate_L1_cache_interrupt_handler E = do {
     t1 \<leftarrow> in_world (getrawmonotonic E);
     modify (\<lambda>s. s\<lparr>t_L1_inv_start := t1\<rparr>);
     os_invalidate_L1_instruction_cache;
     os_flush_and_invalidate_L1_data_cache E;
     t2 \<leftarrow> in_world (getrawmonotonic E);
     modify (\<lambda>s. s\<lparr>t_L1_inv_end := t2\<rparr>);
     ret HRTIMER_NORESTART }"

text \<open>The task a process id names: the running task if it has that id, else a search.\<close>

definition find_task :: "'w os_env \<Rightarrow> s32 \<Rightarrow> ('w, 'x, task option) os_op" where
  "find_task E pid = do {
     me \<leftarrow> gets (\<lambda>s. k_current (kern s));
     mine \<leftarrow> gets (\<lambda>s. t_pid (k_task (kern s) me) = pid);
     if mine then ret (Some me)
     else gets (\<lambda>s. case find_vpid E pid (world s) of
                      None \<Rightarrow> None
                    | Some a \<Rightarrow> pid_task E a (world s)) }"

definition kill_application_interrupt_handler ::
    "'w os_env \<Rightarrow> ('w, 'x, hrtimer_restart) os_op" where
  "kill_application_interrupt_handler E = do {
     in_kern (set_pid_force_run 0);
     IRQ_ENABLE;
     printk ''%s: [PID %u] Application timed out after %llu s'';
     idle \<leftarrow> gets (timer_inactive Invalidate_L1_cache_timer);
     when_m (\<not> idle) (do {
       printk ''%s: [PID %u] Stopping L1 invalidation cache timer'';
       call_timer Invalidate_L1_cache_timer (hrtimer_cancel E) });
     pid \<leftarrow> gets p_id;
     if pid = 0 then do {
       printk ''%s: [PID %d] Will NOT kill the init process, did you start profiling?'';
       ret HRTIMER_NORESTART }
     else do {
       pTask \<leftarrow> find_task E pid;
       (case pTask of
          None \<Rightarrow> do {
            printk ''%s ERROR: [PID %u] Unable to find task in scheduler'';
            ret HRTIMER_NORESTART }
        | Some t \<Rightarrow> do {
            sig \<leftarrow> gets kill_app_signal;
            r \<leftarrow> in_world (send_sig_info E SIGKILL sig t);
            (if r < 0 then printk ''%s ERROR: [PID %u] Unable to send signal SIGKILL to application''
             else do {
               emit (Sigkill_sent t);
               printk ''%s: [PID %u] Sent a SIGKILL signal to application'' });
            ret HRTIMER_NORESTART }) } }"

definition sched_reset_interrupt_handler :: "('w, 'x, hrtimer_restart) os_op" where
  "sched_reset_interrupt_handler = do {
     in_kern (set_pid_force_run 0);
     IRQ_ENABLE;
     ret HRTIMER_NORESTART }"

subsection \<open>Switching the operating system off and on\<close>

definition cancel_if_active :: "'w os_env \<Rightarrow> timer \<Rightarrow> ('w, 'x, unit) os_op" where
  "cancel_if_active E t = do {
     idle \<leftarrow> gets (timer_inactive t);
     when_m (\<not> idle) (call_timer t (hrtimer_cancel E)) }"

definition start_timer ::
    "'w os_env \<Rightarrow> timer \<Rightarrow> ktime \<Rightarrow> hrtimer_handler \<Rightarrow> ('w, 'x, unit) os_op" where
  "start_timer E t d h = do {
     modify (\<lambda>s. s\<lparr>timer_int_delay := (timer_int_delay s)(t := d)\<rparr>);
     upd_timer t (hrtimer_init E);
     upd_timer t (\<lambda>x. x\<lparr>ht_function := Some h\<rparr>);
     call_timer t (\<lambda>x. hrtimer_start E x d) }"

definition set_os :: "'w os_env \<Rightarrow> task option \<Rightarrow> u8 \<Rightarrow> ('w, 'x, unit) os_op" where
  "set_os E pTask enable = do {
     last \<leftarrow> gets last_enable;
     when_m (enable \<noteq> last) (cancel_if_active E Sched_reset_timer);
     when_m (enable \<noteq> last) (cancel_if_active E Kill_application_timer);
     when_m (enable \<noteq> last) (
       if enable = OS_CTRL_OS_DISABLE then do {
         start_timer E Kill_application_timer (Ktime KILL_APPLICATION_DELAY_S 0)
           Kill_application_interrupt_handler;
         start_timer E Sched_reset_timer (Ktime 0 SCHED_RESET_DELAY_NS)
           Sched_reset_interrupt_handler;
         IRQ_DISABLE;
         (case pTask of
            Some t \<Rightarrow> do {
              pid \<leftarrow> gets (\<lambda>s. t_pid (k_task (kern s) t));
              in_kern (set_pid_force_run pid) }
          | None \<Rightarrow> skip) }
       else do {
         IRQ_ENABLE;
         in_kern (set_pid_force_run 0) });
     modify (\<lambda>s. s\<lparr>last_enable := enable\<rparr>) }"

subsection \<open>Reading the file\<close>

definition on_read_handler :: "'w os_env \<Rightarrow> u8 list \<Rightarrow> int \<Rightarrow> ('w, 'x, u8 list \<times> int) os_op" where
  "on_read_handler E buffer offset = do {
     in_kern (set_pid_force_run 0);
     IRQ_ENABLE;
     cancel_if_active E Sched_reset_timer;
     cancel_if_active E Kill_application_timer;
     cancel_if_active E Invalidate_L1_cache_timer;
     have \<leftarrow> gets (\<lambda>s. prf_ready s \<and> cmd s \<noteq> last_cmd s);
     out \<leftarrow> (if offset \<le> 0 \<and> have then do {
         v \<leftarrow> gets (\<lambda>s. (ELAPSED (t_L1_inv_start s) (t_L1_inv_end s), d_nvcsw s, d_nivcsw s));
         reset_cntrs;
         (case v of (el, nv, niv) \<Rightarrow>
            ret (enc_u64 (scast el) @ [ucast (nv AND 0xFF), ucast (niv AND 0xFF)])) }
       else ret (enc_u64 0 @ [0, 0]));
     modify (\<lambda>s. s\<lparr>last_cmd := cmd s\<rparr>);
     ret (poke 0 out buffer, if offset > 0 then 0 else 8 + 2 * 1) }"

subsection \<open>Writing the file\<close>

text \<open>The parser: \<open>count\<close> bytes lie in the input buffer. It answers the error flag and the
  delay of the cache invalidation in ns (0 if there is none).\<close>

definition parse_request :: "nat \<Rightarrow> ('w, 'x, bool \<times> u64) os_op" where
  "parse_request count =
     (if count = OS_CTRL_STOP_CMD_LENGTH then do {
        modify (\<lambda>s. s\<lparr>p_id := dec_pid (peek 0 4 (module_data s))\<rparr>);
        modify (\<lambda>s. s\<lparr>cmd := module_data s ! 4\<rparr>);
        ret (False, 0) }
      else if count = OS_CTRL_START_CMD_LENGTH then do {
        modify (\<lambda>s. s\<lparr>p_id := dec_pid (peek 0 4 (module_data s))\<rparr>);
        modify (\<lambda>s. s\<lparr>cmd := module_data s ! 4\<rparr>);
        d \<leftarrow> gets (\<lambda>s. dec_u64 (peek 5 8 (module_data s)) * 1000);
        ret (False, if d > 999999999 then 999999999 else d) }
      else do {
        printk ''%s ERROR: An error has occurred while parsing input data'';
        reset_cntrs;
        ret (True, 0) })"

definition handle_cmd :: "'w os_env \<Rightarrow> task \<Rightarrow> u64 \<Rightarrow> ('w, 'x, unit) os_op" where
  "handle_cmd E pTask delay_ns = do {
     c \<leftarrow> gets cmd;
     if c = OS_CTRL_TASK_CMD_DISABLE_OS then do {
       os_invalidate_L1_instruction_cache;
       os_flush_and_invalidate_L1_data_cache E;
       set_os E (Some pTask) OS_CTRL_OS_DISABLE;
       modify (\<lambda>s. s\<lparr>d_nvcsw := t_nvcsw (k_task (kern s) pTask)\<rparr>);
       modify (\<lambda>s. s\<lparr>d_nivcsw := t_nivcsw (k_task (kern s) pTask)\<rparr>);
       modify (\<lambda>s. s\<lparr>t_L1_inv_start := t_zero s\<rparr>);
       modify (\<lambda>s. s\<lparr>t_L1_inv_end := t_zero s\<rparr>);
       when_m (0 < delay_ns) (start_timer E Invalidate_L1_cache_timer (Ktime 0 (ucast delay_ns))
         Invalidate_L1_cache_interrupt_handler) }
     else if c = OS_CTRL_TASK_CMD_ENABLE_OS then do {
       modify (\<lambda>s. let n = t_nvcsw (k_task (kern s) pTask) in
         s\<lparr>d_nvcsw := (if n > d_nvcsw s then n - d_nvcsw s else 0)\<rparr>);
       modify (\<lambda>s. let n = t_nivcsw (k_task (kern s) pTask) in
         s\<lparr>d_nivcsw := (if n > d_nivcsw s then n - d_nivcsw s else 0)\<rparr>);
       modify (\<lambda>s. s\<lparr>prf_ready := True\<rparr>);
       set_os E (Some pTask) OS_CTRL_OS_ENABLE }
     else printk ''%s ERROR: [PID %u] Unknown CMD 0x%02X'' }"

definition on_written_handler :: "'w os_env \<Rightarrow> u8 list \<Rightarrow> ('w, 'x, int) os_op" where
  "on_written_handler E user = do {
     let count = length user;
     modify (\<lambda>s. s\<lparr>prf_ready := False\<rparr>);
     (left, bytes) \<leftarrow> gets (\<lambda>s. copy_from_user E user (world s));
     modify (\<lambda>s. s\<lparr>module_data := poke 0 bytes (module_data s)\<rparr>);
     (err, delay_ns) \<leftarrow> (if left = 0 then parse_request count else ret (True, 0));
     if err then ret (- ENOMEM)
     else do {
       pid \<leftarrow> gets p_id;
       pTask \<leftarrow> find_task E pid;
       (case pTask of
          None \<Rightarrow> do {
            printk ''%s ERROR: [PID %u] Unable to find task in scheduler'';
            IRQ_ENABLE;
            reset_cntrs;
            ret (- ENOMEM) }
        | Some t \<Rightarrow> do {
            cancel_if_active E Invalidate_L1_cache_timer;
            handle_cmd E t delay_ns;
            ret (sint (of_nat count :: u32)) }) } }"

subsection \<open>Loading and unloading\<close>

definition init_module :: "'w os_env \<Rightarrow> ('w, 'x, int) os_op" where
  "init_module E = do {
     printk ''%s: Loading module'';
     reset_cntrs;
     modify (\<lambda>s. s\<lparr>t_zero := set_normalized_timespec E 0 0\<rparr>);
     in_kern (set_pid_force_run 0);
     f \<leftarrow> in_world (create_proc_entry E MODULE_NAME 438);
     modify (\<lambda>s. s\<lparr>os_ctrl_proc_file := f\<rparr>);
     (case f of
        None \<Rightarrow> do {
          emit (Proc_removed ''profiler'');
          in_world_unit (remove_proc_entry E ''profiler'');
          printk ''%s ERROR: Could not create /proc/%s'';
          ret (- ENOMEM) }
      | Some pde \<Rightarrow> do {
          modify (\<lambda>s. s\<lparr>t_L1_inv_start := t_zero s\<rparr>);
          modify (\<lambda>s. s\<lparr>t_L1_inv_end := t_zero s\<rparr>);
          modify (\<lambda>s. s\<lparr>os_ctrl_proc_file := Some (pde\<lparr>pde_mode := 438, pde_uid := 0, pde_gid := 0,
            pde_size := PROCFS_MAX_SIZE, read_proc := Some On_read_handler,
            write_proc := Some On_written_handler\<rparr>)\<rparr>);
          printk ''%s: Created /proc/%s (rw)'';
          printk ''%s: Scheduler reset timeout set to %lu ns'';
          printk ''%s: Application timeout set to %d s'';
          modify (\<lambda>s. s\<lparr>kill_app_signal :=
            \<lparr>si_signo = SIGKILL, si_code = SI_KERNEL, si_int = 0\<rparr>\<rparr>);
          ret 0 }) }"

definition cleanup_module :: "'w os_env \<Rightarrow> ('w, 'x, unit) os_op" where
  "cleanup_module E = do {
     in_kern (set_pid_force_run 0);
     IRQ_ENABLE;
     i1 \<leftarrow> gets (timer_inactive Sched_reset_timer);
     when_m (\<not> i1) (do {
       printk ''%s: Stopping scheduler reset timeout timer'';
       call_timer Sched_reset_timer (hrtimer_cancel E) });
     i2 \<leftarrow> gets (timer_inactive Kill_application_timer);
     when_m (\<not> i2) (do {
       printk ''%s: Stopping application timeout timer'';
       call_timer Kill_application_timer (hrtimer_cancel E) });
     i3 \<leftarrow> gets (timer_inactive Invalidate_L1_cache_timer);
     when_m (\<not> i3) (do {
       printk ''%s: Stopping L1 invalidation cache timer'';
       call_timer Invalidate_L1_cache_timer (hrtimer_cancel E) });
     printk ''%s: Removing /proc/%s'';
     emit (Proc_removed MODULE_NAME);
     in_world_unit (remove_proc_entry E MODULE_NAME);
     printk ''%s: Unloaded module'' }"

end
