(* ===== verification/Os_ctrl_correct.thy ===== *)
theory Os_ctrl_correct
  imports Os_ctrl
begin

subsection \<open>Running the small operations\<close>

lemma irq_loop_on:
  "irq_enabled s \<Longrightarrow>
   exec (for_each ns (\<lambda>n. do { on \<leftarrow> gets irq_enabled; when_m (\<not> on) (emit (Enable_irq n)) })) s = s"
  "\<not> irq_enabled s \<Longrightarrow>
   exec (for_each ns (\<lambda>n. do { on \<leftarrow> gets irq_enabled; when_m (\<not> on) (emit (Enable_irq n)) })) s =
     s\<lparr>klog := klog s @ map Enable_irq ns\<rparr>"
  by (induction ns arbitrary: s) simp_all

lemma irq_loop_off:
  "\<not> irq_enabled s \<Longrightarrow>
   exec (for_each ns (\<lambda>n. do { on \<leftarrow> gets irq_enabled; when_m on (emit (Disable_irq n)) })) s = s"
  "irq_enabled s \<Longrightarrow>
   exec (for_each ns (\<lambda>n. do { on \<leftarrow> gets irq_enabled; when_m on (emit (Disable_irq n)) })) s =
     s\<lparr>klog := klog s @ map Disable_irq ns\<rparr>"
  by (induction ns arbitrary: s) simp_all

lemma IRQ_ENABLE_run [simp]:
  "exec IRQ_ENABLE s = s\<lparr>irq_enabled := True,
     klog := klog s @ (if irq_enabled s then [] else map Enable_irq irq_no)\<rparr>"
  by (cases "irq_enabled s") (simp_all add: IRQ_ENABLE_def irq_loop_on)

lemma IRQ_DISABLE_run [simp]:
  "exec IRQ_DISABLE s = s\<lparr>irq_enabled := False,
     klog := klog s @ (if irq_enabled s then map Disable_irq irq_no else [])\<rparr>"
  by (cases "irq_enabled s") (simp_all add: IRQ_DISABLE_def irq_loop_off)

lemma reset_cntrs_run [simp]:
  "exec reset_cntrs s = s\<lparr>cmd := OS_CTRL_TASK_CMD_NONE, d_nvcsw := 0, d_nivcsw := 0,
     t_L1_inv_start := t_zero s, t_L1_inv_end := t_zero s\<rparr>"
  by (simp add: reset_cntrs_def)

text \<open>The cache operations touch the processor, the log and the world outside only.\<close>

lemma asm_frame: "\<exists>m l. exec (asm_volatile P) s = s\<lparr>cpu := m, klog := l\<rparr>"
proof (cases "ppc_run ASM_FUEL P (cpu s)")
  case None
  then have "exec (asm_volatile P) s = s\<lparr>cpu := cpu s, klog := klog s @ [Asm_hang]\<rparr>"
    by (simp add: asm_volatile_def)
  then show ?thesis by blast
next
  case (Some m)
  then have "exec (asm_volatile P) s = s\<lparr>cpu := m, klog := klog s\<rparr>"
    by (simp add: asm_volatile_def)
  then show ?thesis by blast
qed

lemma statement_frame: "\<exists>m l. exec (dcache_statement E a b) s = s\<lparr>cpu := m, klog := l\<rparr>"
proof -
  obtain m l where "exec (asm_volatile (dcache_asm (reg_ref E) (reg_end E))) (exec (load_operands E a b) s) =
      (exec (load_operands E a b) s)\<lparr>cpu := m, klog := l\<rparr>"
    using asm_frame by blast
  then have "exec (dcache_statement E a b) s = s\<lparr>cpu := m, klog := l\<rparr>"
    by (simp add: dcache_statement_def load_operands_def)
  then show ?thesis by blast
qed

lemma icache_frame: "\<exists>m l. exec os_invalidate_L1_instruction_cache s = s\<lparr>cpu := m, klog := l\<rparr>"
  by (simp add: os_invalidate_L1_instruction_cache_def asm_frame)

lemma flush_frame:
  "\<exists>m l w. exec (os_flush_and_invalidate_L1_data_cache E) s = s\<lparr>cpu := m, klog := l, world := w\<rparr>"
proof (cases "fst (kmalloc E SCRATCH_SIZE (world s)) = 0")
  case True
  then have "exec (os_flush_and_invalidate_L1_data_cache E) s =
      s\<lparr>cpu := cpu s, klog := klog s @ [Printk ''%s ERROR: MEM not allocated!''],
        world := snd (kmalloc E SCRATCH_SIZE (world s))\<rparr>"
    by (simp add: os_flush_and_invalidate_L1_data_cache_def)
  then show ?thesis by blast
next
  case False
  let ?p = "fst (kmalloc E SCRATCH_SIZE (world s))" and ?t = "exec (in_world (kmalloc E SCRATCH_SIZE)) s"
  obtain m l where st: "exec (dcache_statement E ?p (?p + of_nat SCRATCH_SIZE)) ?t = ?t\<lparr>cpu := m, klog := l\<rparr>"
    using statement_frame by blast
  let ?r = "result (dcache_statement E ?p (?p + of_nat SCRATCH_SIZE)) ?t"
  have "exec (os_flush_and_invalidate_L1_data_cache E) s =
      s\<lparr>cpu := m, klog := l @ [Kfree ?r], world := kfree E ?r (snd (kmalloc E SCRATCH_SIZE (world s)))\<rparr>"
    using False st by (simp add: os_flush_and_invalidate_L1_data_cache_def Let_def)
  then show ?thesis by blast
qed

subsection \<open>Assumptions on the kernel's timers\<close>

definition hrtimer_laws :: "'w os_env \<Rightarrow> bool" where
  "hrtimer_laws E \<longleftrightarrow> (\<forall>h d w.
     ht_state (fst (hrtimer_start E h d w)) \<noteq> HRTIMER_STATE_INACTIVE \<and>
     ht_function (fst (hrtimer_start E h d w)) = ht_function h \<and>
     ht_expires (fst (hrtimer_start E h d w)) = Some d \<and>
     ht_state (fst (hrtimer_cancel E h w)) = HRTIMER_STATE_INACTIVE)"

lemma hrtimer_lawsD [simp]:
  assumes "hrtimer_laws E"
  shows "ht_state (fst (hrtimer_start E h d w)) \<noteq> HRTIMER_STATE_INACTIVE"
    and "ht_function (fst (hrtimer_start E h d w)) = ht_function h"
    and "ht_expires (fst (hrtimer_start E h d w)) = Some d"
    and "ht_state (fst (hrtimer_cancel E h w)) = HRTIMER_STATE_INACTIVE"
  using assms unfolding hrtimer_laws_def by blast+

lemma start_timer_run:
  "exec (start_timer E t d h) s =
    (let r = hrtimer_start E ((hrtimer_init E (timers s t))\<lparr>ht_function := Some h\<rparr>) d (world s) in
     s\<lparr>timer_int_delay := (timer_int_delay s)(t := d), timers := (timers s)(t := fst r), world := snd r\<rparr>)"
  by (simp add: start_timer_def Let_def)

subsection \<open>The watchdog invariant\<close>

text \<open>\<open>os_off\<close>: the interrupts are off or the scheduler is locked. \<open>armed\<close>: a timer is pending
  and will run its handler.\<close>

definition os_off :: "('w, 'x) os_ctrl \<Rightarrow> bool" where
  "os_off s \<longleftrightarrow> k_pid_force_run (kern s) \<noteq> 0 \<or> \<not> irq_enabled s"

definition armed :: "timer \<Rightarrow> hrtimer_handler \<Rightarrow> ('w, 'x) os_ctrl \<Rightarrow> bool" where
  "armed t h s \<longleftrightarrow> \<not> timer_inactive t s \<and> ht_function (timers s t) = Some h"

definition watched :: "('w, 'x) os_ctrl \<Rightarrow> bool" where
  "watched s \<longleftrightarrow> armed Kill_application_timer Kill_application_interrupt_handler s \<and>
     armed Sched_reset_timer Sched_reset_interrupt_handler s"

definition osc_inv :: "('w, 'x) os_ctrl \<Rightarrow> bool" where
  "osc_inv s \<longleftrightarrow> force_sync (kern s) \<and> (os_off s \<longrightarrow> watched s) \<and>
     (last_enable s \<noteq> OS_CTRL_OS_DISABLE \<longrightarrow> \<not> os_off s)"

lemmas watch_defs = os_off_def armed_def watched_def timer_inactive_def

text \<open>What the invariant depends on.\<close>

lemma osc_inv_cong:
  assumes "osc_inv s" and "k_pid_force_run (kern t) = k_pid_force_run (kern s)"
    and "k_last_p_id (kern t) = k_last_p_id (kern s)" and "irq_enabled t = irq_enabled s"
    and "timers t Kill_application_timer = timers s Kill_application_timer"
    and "timers t Sched_reset_timer = timers s Sched_reset_timer"
    and "last_enable t = last_enable s"
  shows "osc_inv t"
  using assms by (simp add: osc_inv_def watch_defs force_sync_def)

lemma osc_inv_fields [simp]:
  "osc_inv (s\<lparr>cpu := m\<rparr>) = osc_inv s" "osc_inv (s\<lparr>klog := l\<rparr>) = osc_inv s"
  "osc_inv (s\<lparr>world := w\<rparr>) = osc_inv s" "osc_inv (s\<lparr>p_id := i\<rparr>) = osc_inv s"
  "osc_inv (s\<lparr>cmd := c\<rparr>) = osc_inv s" "osc_inv (s\<lparr>os_ctrl_proc_file := f\<rparr>) = osc_inv s"
  "osc_inv (s\<lparr>timer_int_delay := td\<rparr>) = osc_inv s" "osc_inv (s\<lparr>module_data := b\<rparr>) = osc_inv s"
  "osc_inv (s\<lparr>t_zero := t0\<rparr>) = osc_inv s"
  "osc_inv (s\<lparr>t_L1_inv_start := t1\<rparr>) = osc_inv s" "osc_inv (s\<lparr>t_L1_inv_end := t1\<rparr>) = osc_inv s"
  "osc_inv (s\<lparr>d_nvcsw := n\<rparr>) = osc_inv s" "osc_inv (s\<lparr>d_nivcsw := n\<rparr>) = osc_inv s"
  "osc_inv (s\<lparr>prf_ready := r\<rparr>) = osc_inv s" "osc_inv (s\<lparr>last_cmd := c\<rparr>) = osc_inv s"
  "osc_inv (s\<lparr>kill_app_signal := g\<rparr>) = osc_inv s"
  "osc_inv (s\<lparr>timers := (timers s)(Invalidate_L1_cache_timer := h)\<rparr>) = osc_inv s"
  by (simp_all add: osc_inv_def watch_defs force_sync_def)

lemma osc_inv_irq [simp]: "osc_inv s \<Longrightarrow> osc_inv (s\<lparr>irq_enabled := True\<rparr>)"
  by (simp add: osc_inv_def watch_defs force_sync_def)

text \<open>Any state in which the system is on satisfies it.\<close>

lemma osc_inv_on: "force_sync (kern s) \<Longrightarrow> \<not> os_off s \<Longrightarrow> osc_inv s"
  by (simp add: osc_inv_def)

lemma osc_inv_sync: "osc_inv s \<Longrightarrow> force_sync (kern s)"
  by (simp add: osc_inv_def)

lemma cancel_if_active_run:
  "exec (cancel_if_active E t) s =
    (if timer_inactive t s then s
     else s\<lparr>timers := (timers s)(t := fst (hrtimer_cancel E (timers s t) (world s))),
            world := snd (hrtimer_cancel E (timers s t) (world s))\<rparr>)"
  by (simp add: cancel_if_active_def)

lemma cancel_frame:
  "\<exists>h w. exec (cancel_if_active E t) s = s\<lparr>timers := (timers s)(t := h), world := w\<rparr>"
proof (cases "timer_inactive t s")
  case True
  then have "exec (cancel_if_active E t) s = s\<lparr>timers := (timers s)(t := timers s t), world := world s\<rparr>"
    by (simp add: cancel_if_active_run)
  then show ?thesis by blast
qed (simp add: cancel_if_active_run, blast)

lemma set_os_inv:
  assumes "hrtimer_laws E" and "osc_inv s"
  shows "osc_inv (exec (set_os E p e) s)"
proof (cases "e = last_enable s")
  case True
  then have "exec (set_os E p e) s = s" by (simp add: set_os_def)
  with assms(2) show ?thesis by simp
next
  case new: False
  show ?thesis
  proof (cases "e = OS_CTRL_OS_DISABLE")
    case True
    with new assms show ?thesis
      by (cases p) (simp_all add: set_os_def cancel_if_active_run start_timer_run Let_def
          osc_inv_def watch_defs)
  next
    case False
    with new assms show ?thesis
      by (simp add: set_os_def cancel_if_active_run osc_inv_def watch_defs)
  qed
qed


lemma find_task_exec [simp]: "exec (find_task E pid) s = s"
  by (simp add: find_task_def)

lemma parse_exec:
  "\<exists>p c a b t1 t2 l. exec (parse_request n) s =
     s\<lparr>p_id := p, cmd := c, d_nvcsw := a, d_nivcsw := b, t_L1_inv_start := t1, t_L1_inv_end := t2,
       klog := l\<rparr>"
proof -
  consider "n = OS_CTRL_STOP_CMD_LENGTH" | "n = OS_CTRL_START_CMD_LENGTH"
    | "n \<noteq> OS_CTRL_STOP_CMD_LENGTH" "n \<noteq> OS_CTRL_START_CMD_LENGTH" by blast
  then show ?thesis
  proof cases
    case 1
    then have "exec (parse_request n) s = s\<lparr>p_id := dec_pid (peek 0 4 (module_data s)),
        cmd := module_data s ! 4, d_nvcsw := d_nvcsw s, d_nivcsw := d_nivcsw s,
        t_L1_inv_start := t_L1_inv_start s, t_L1_inv_end := t_L1_inv_end s, klog := klog s\<rparr>"
      by (simp add: parse_request_def)
    then show ?thesis by blast
  next
    case 2
    then have "exec (parse_request n) s = s\<lparr>p_id := dec_pid (peek 0 4 (module_data s)),
        cmd := module_data s ! 4, d_nvcsw := d_nvcsw s, d_nivcsw := d_nivcsw s,
        t_L1_inv_start := t_L1_inv_start s, t_L1_inv_end := t_L1_inv_end s, klog := klog s\<rparr>"
      by (simp add: parse_request_def protocol_defs)
    then show ?thesis by blast
  next
    case 3
    then have "exec (parse_request n) s = s\<lparr>p_id := p_id s, cmd := OS_CTRL_TASK_CMD_NONE,
        d_nvcsw := 0, d_nivcsw := 0, t_L1_inv_start := t_zero s, t_L1_inv_end := t_zero s,
        klog := klog s @ [Printk ''%s ERROR: An error has occurred while parsing input data'']\<rparr>"
      by (simp add: parse_request_def)
    then show ?thesis by blast
  qed
qed

lemma cancel_other_inv:
  assumes "osc_inv s"
  shows "osc_inv (exec (cancel_if_active E Invalidate_L1_cache_timer) s)"
  using assms by (rule osc_inv_cong) (simp_all add: cancel_if_active_run)

lemma start_other_inv:
  assumes "osc_inv s"
  shows "osc_inv (exec (start_timer E Invalidate_L1_cache_timer d h) s)"
  using assms by (rule osc_inv_cong) (simp_all add: start_timer_run Let_def)

lemma cache_ops_inv:
  assumes "osc_inv s"
  shows "osc_inv (exec os_invalidate_L1_instruction_cache s)"
    and "osc_inv (exec (os_flush_and_invalidate_L1_data_cache E) s)"
proof -
  from icache_frame [of s] obtain m l where "exec os_invalidate_L1_instruction_cache s = s\<lparr>cpu := m, klog := l\<rparr>"
    by blast
  with assms show "osc_inv (exec os_invalidate_L1_instruction_cache s)"
    by simp
  from flush_frame [of E s] obtain m l w where
    "exec (os_flush_and_invalidate_L1_data_cache E) s = s\<lparr>cpu := m, klog := l, world := w\<rparr>" by blast
  with assms show "osc_inv (exec (os_flush_and_invalidate_L1_data_cache E) s)"
    by simp
qed

definition switches_since :: "u32 \<Rightarrow> u32 \<Rightarrow> u32" where
  "switches_since before now = (if now > before then now - before else 0)"

lemma handle_cmd_enable:
  assumes "cmd s = OS_CTRL_TASK_CMD_ENABLE_OS"
  shows "exec (handle_cmd E t d) s = exec (set_os E (Some t) OS_CTRL_OS_ENABLE)
    (s\<lparr>d_nvcsw := switches_since (d_nvcsw s) (t_nvcsw (k_task (kern s) t)),
       d_nivcsw := switches_since (d_nivcsw s) (t_nivcsw (k_task (kern s) t)), prf_ready := True\<rparr>)"
  using assms by (simp add: handle_cmd_def protocol_defs switches_since_def)

lemma handle_cmd_disable:
  assumes "cmd s = OS_CTRL_TASK_CMD_DISABLE_OS"
  shows "exec (handle_cmd E t d) s =
    (let s2 = exec (set_os E (Some t) OS_CTRL_OS_DISABLE)
                (exec (os_flush_and_invalidate_L1_data_cache E)
                  (exec os_invalidate_L1_instruction_cache s));
         s3 = s2\<lparr>d_nvcsw := t_nvcsw (k_task (kern s2) t), d_nivcsw := t_nivcsw (k_task (kern s2) t),
                 t_L1_inv_start := t_zero s2, t_L1_inv_end := t_zero s2\<rparr>
     in if 0 < d then exec (start_timer E Invalidate_L1_cache_timer (Ktime 0 (ucast d))
          Invalidate_L1_cache_interrupt_handler) s3 else s3)"
  using assms by (simp add: handle_cmd_def Let_def)

lemma handle_cmd_inv:
  assumes "hrtimer_laws E" and "osc_inv s"
  shows "osc_inv (exec (handle_cmd E t d) s)"
proof -
  consider "cmd s = OS_CTRL_TASK_CMD_DISABLE_OS" | "cmd s = OS_CTRL_TASK_CMD_ENABLE_OS"
    | "cmd s \<noteq> OS_CTRL_TASK_CMD_DISABLE_OS" "cmd s \<noteq> OS_CTRL_TASK_CMD_ENABLE_OS" by blast
  then show ?thesis
  proof cases
    case 1
    have "osc_inv (exec (set_os E (Some t) OS_CTRL_OS_DISABLE)
        (exec (os_flush_and_invalidate_L1_data_cache E) (exec os_invalidate_L1_instruction_cache s)))"
      by (intro set_os_inv cache_ops_inv assms)
    then show ?thesis by (simp add: handle_cmd_disable [OF 1] Let_def start_other_inv)
  next
    case 2
    show ?thesis unfolding handle_cmd_enable [OF 2]
      by (rule set_os_inv [OF assms(1)]) (simp add: assms(2))
  next
    case 3
    then show ?thesis using assms(2) by (simp add: handle_cmd_def)
  qed
qed

lemma written_inv:
  assumes "hrtimer_laws E" and "osc_inv s"
  shows "osc_inv (exec (on_written_handler E user) s)"
proof -
  obtain n bytes where cp: "copy_from_user E user (world s) = (n, bytes)" by fastforce
  let ?s1 = "s\<lparr>prf_ready := False, module_data := poke 0 bytes (module_data s)\<rparr>"
  have s1: "osc_inv ?s1" using assms(2) by simp
  show ?thesis
  proof (cases "n = 0")
    case False
    with cp s1 show ?thesis by (simp add: on_written_handler_def Let_def)
  next
    case True
    let ?s2 = "exec (parse_request (length user)) ?s1"
    have s2: "osc_inv ?s2"
      using parse_exec [of "length user" ?s1] s1 by auto
    obtain err d where pr: "result (parse_request (length user)) ?s1 = (err, d)" by fastforce
    have s3: "osc_inv (exec (handle_cmd E t d) (exec (cancel_if_active E Invalidate_L1_cache_timer) ?s2))"
      for t by (intro handle_cmd_inv cancel_other_inv assms s2)
    have s4: "osc_inv (exec reset_cntrs (exec IRQ_ENABLE (?s2\<lparr>klog := l\<rparr>)))" for l
      using s2 by simp
    show ?thesis
      using cp True pr s2 s3 s4
      by (simp add: on_written_handler_def Let_def split: option.split)
  qed
qed

text \<open>After \<open>set_pid_force_run(0)\<close> and \<open>IRQ_ENABLE\<close> the system is on, and it stays so
  through code that touches neither the scheduler nor the interrupts.\<close>

definition switches :: "('w, 'x) os_ctrl \<Rightarrow> 'x kst \<times> bool" where
  "switches s = (kern s, irq_enabled s)"

lemma on_after:
  assumes "force_sync (kern s)" and "keeps switches rest"
  shows "\<not> os_off (exec (do { in_kern (set_pid_force_run 0); IRQ_ENABLE; rest }) s) \<and>
    osc_inv (exec (do { in_kern (set_pid_force_run 0); IRQ_ENABLE; rest }) s)"
proof -
  let ?u = "exec IRQ_ENABLE (exec (in_kern (set_pid_force_run 0)) s)"
  have "switches (exec rest ?u) = switches ?u" using assms(2) by (rule keepsD)
  then show ?thesis using assms(1) by (simp add: switches_def osc_inv_def os_off_def)
qed

lemma switches_fields [simp]:
  "switches (s\<lparr>klog := l\<rparr>) = switches s" "switches (s\<lparr>world := w\<rparr>) = switches s"
  "switches (s\<lparr>timers := h\<rparr>) = switches s" "switches (s\<lparr>last_cmd := c\<rparr>) = switches s"
  by (simp_all add: switches_def)

lemma keeps_switches [keeps_intros]:
  "keeps switches (upd_timer t f)" "keeps switches (call_timer t g)"
  "keeps switches (cancel_if_active E t)" "keeps switches reset_cntrs"
  "keeps switches (find_task E p)"
  by (simp_all add: keeps_def cancel_if_active_run switches_def)

lemma read_on:
  assumes "osc_inv s"
  shows "\<not> os_off (exec (on_read_handler E buf off) s) \<and> osc_inv (exec (on_read_handler E buf off) s)"
  unfolding on_read_handler_def
  by (rule on_after [OF osc_inv_sync [OF assms]])
    (auto intro!: keeps_intros simp: Let_def split: prod.split)

lemma kill_on:
  assumes "osc_inv s"
  shows "\<not> os_off (exec (kill_application_interrupt_handler E) s) \<and>
    osc_inv (exec (kill_application_interrupt_handler E) s)"
  unfolding kill_application_interrupt_handler_def
  by (rule on_after [OF osc_inv_sync [OF assms]]) (auto intro!: keeps_intros)

lemma sched_reset_on:
  assumes "osc_inv s"
  shows "\<not> os_off (exec sched_reset_interrupt_handler s) \<and>
    osc_inv (exec sched_reset_interrupt_handler s)"
  unfolding sched_reset_interrupt_handler_def
  by (rule on_after [OF osc_inv_sync [OF assms]]) (auto intro!: keeps_intros)

lemma cleanup_on:
  assumes "osc_inv s"
  shows "\<not> os_off (exec (cleanup_module E) s) \<and> osc_inv (exec (cleanup_module E) s)"
  unfolding cleanup_module_def
  by (rule on_after [OF osc_inv_sync [OF assms]]) (auto intro!: keeps_intros)

lemma invalidate_frame:
  "\<exists>m l w a b. exec (invalidate_L1_cache_interrupt_handler E) s =
     s\<lparr>cpu := m, klog := l, world := w, t_L1_inv_start := a, t_L1_inv_end := b\<rparr>"
proof -
  let ?s1 = "exec (in_world (getrawmonotonic E)) s"
  let ?s2 = "?s1\<lparr>t_L1_inv_start := result (in_world (getrawmonotonic E)) s\<rparr>"
  obtain m1 l1 where 1: "exec os_invalidate_L1_instruction_cache ?s2 = ?s2\<lparr>cpu := m1, klog := l1\<rparr>"
    using icache_frame [of ?s2] by blast
  let ?s3 = "?s2\<lparr>cpu := m1, klog := l1\<rparr>"
  obtain m l w where 2: "exec (os_flush_and_invalidate_L1_data_cache E) ?s3 =
      ?s3\<lparr>cpu := m, klog := l, world := w\<rparr>"
    using flush_frame [of E ?s3] by blast
  have "exec (invalidate_L1_cache_interrupt_handler E) s = s\<lparr>cpu := m, klog := l,
      world := snd (getrawmonotonic E w), t_L1_inv_start := fst (getrawmonotonic E (world s)),
      t_L1_inv_end := fst (getrawmonotonic E w)\<rparr>"
    using 1 2 by (simp add: invalidate_L1_cache_interrupt_handler_def)
  then show ?thesis by blast
qed

lemma invalidate_inv:
  assumes "osc_inv s"
  shows "osc_inv (exec (invalidate_L1_cache_interrupt_handler E) s)"
  using assms by (simp add: invalidate_L1_cache_interrupt_handler_def cache_ops_inv)

lemma init_inv:
  assumes "force_sync (kern s)" and "irq_enabled s"
  shows "osc_inv (exec (init_module E) s)"
proof -
  have "osc_inv (s\<lparr>kern := exec (set_pid_force_run 0) (kern s)\<rparr>)"
    using assms by (simp add: osc_inv_def os_off_def)
  then show ?thesis using assms
    by (auto simp: init_module_def osc_inv_def os_off_def split: option.split)
qed

subsection \<open>The module in use\<close>

text \<open>A timer that expires: the kernel runs the handler and, as every handler answers
  \<open>HRTIMER_NORESTART\<close>, the timer is inactive afterwards.\<close>

definition run_handler :: "'w os_env \<Rightarrow> hrtimer_handler \<Rightarrow> ('w, 'x, hrtimer_restart) os_op" where
  "run_handler E h = (case h of
     Invalidate_L1_cache_interrupt_handler \<Rightarrow> invalidate_L1_cache_interrupt_handler E
   | Kill_application_interrupt_handler \<Rightarrow> kill_application_interrupt_handler E
   | Sched_reset_interrupt_handler \<Rightarrow> sched_reset_interrupt_handler)"

definition expire :: "'w os_env \<Rightarrow> timer \<Rightarrow> ('w, 'x, unit) os_op" where
  "expire E t = do {
     h \<leftarrow> gets (\<lambda>s. ht_function (timers s t));
     (case h of
        None \<Rightarrow> skip
      | Some f \<Rightarrow> do {
          r \<leftarrow> run_handler E f;
          when_m (r = HRTIMER_NORESTART)
            (upd_timer t (\<lambda>x. x\<lparr>ht_state := HRTIMER_STATE_INACTIVE\<rparr>)) }) }"

lemma handlers_norestart:
  "result (run_handler E h) s = HRTIMER_NORESTART"
  by (cases h) (simp_all add: run_handler_def invalidate_L1_cache_interrupt_handler_def
      kill_application_interrupt_handler_def sched_reset_interrupt_handler_def split: option.split)

text \<open>One step: a user writes or reads the file, a pending timer expires, or the rest of the
  system runs (which leaves the module's variables and the two of the patch alone).\<close>

inductive os_step :: "'w os_env \<Rightarrow> ('w, 'x) os_ctrl \<Rightarrow> ('w, 'x) os_ctrl \<Rightarrow> bool" for E where
  Written: "os_step E s (exec (on_written_handler E user) s)"
| Read: "os_step E s (exec (on_read_handler E buf off) s)"
| Expired: "\<not> timer_inactive t s \<Longrightarrow> os_step E s (exec (expire E t) s)"
| Others: "k_pid_force_run k = k_pid_force_run (kern s) \<Longrightarrow> k_last_p_id k = k_last_p_id (kern s) \<Longrightarrow>
    os_step E s (s\<lparr>kern := k, cpu := m, world := w\<rparr>)"

text \<open>The module is loaded into a kernel in which nothing is forced, its variables as the
  compiler initialised them.\<close>

definition unloaded :: "('w, 'x) os_ctrl \<Rightarrow> bool" where
  "unloaded s \<longleftrightarrow> force_sync (kern s) \<and> irq_enabled s \<and> last_enable s = 0xFF \<and>
     (\<forall>t. timer_inactive t s) \<and> p_id s = 0 \<and> \<not> prf_ready s \<and> last_cmd s = OS_CTRL_TASK_CMD_NONE \<and>
     length (module_data s) \<ge> PROCFS_MAX_SIZE"

inductive os_reach :: "'w os_env \<Rightarrow> ('w, 'x) os_ctrl \<Rightarrow> bool" for E where
  Loaded: "unloaded s \<Longrightarrow> os_reach E (exec (init_module E) s)"
| Step: "os_reach E s \<Longrightarrow> os_step E s t \<Longrightarrow> os_reach E t"

lemma expire_inv:
  assumes inv: "osc_inv s"
  shows "osc_inv (exec (expire E t) s)"
proof (cases "ht_function (timers s t)")
  case None
  with inv show ?thesis by (simp add: expire_def)
next
  case (Some f)
  let ?u = "exec (run_handler E f) s"
  have ex: "exec (expire E t) s = ?u\<lparr>timers := (timers ?u)(t := (timers ?u t)\<lparr>ht_state := HRTIMER_STATE_INACTIVE\<rparr>)\<rparr>"
    using Some by (simp add: expire_def handlers_norestart)
  have on: "f \<noteq> Invalidate_L1_cache_interrupt_handler \<Longrightarrow> \<not> os_off ?u \<and> osc_inv ?u"
    using kill_on [OF inv] sched_reset_on [OF inv] by (cases f) (simp_all add: run_handler_def)
  show ?thesis
  proof (cases "f = Invalidate_L1_cache_interrupt_handler")
    case False
    from on [OF this] show ?thesis by (simp add: ex osc_inv_def os_off_def)
  next
    case True
    then have u: "?u = exec (invalidate_L1_cache_interrupt_handler E) s" by (simp add: run_handler_def)
    obtain m l w a b where eq: "?u = s\<lparr>cpu := m, klog := l, world := w, t_L1_inv_start := a,
        t_L1_inv_end := b\<rparr>"
      unfolding u using invalidate_frame [of E s] by blast
    show ?thesis
    proof (cases "os_off s")
      case False
      with inv show ?thesis by (simp add: ex eq osc_inv_def os_off_def)
    next
      case off: True
      with inv have "watched s" by (simp add: osc_inv_def)
      with Some True have "t = Invalidate_L1_cache_timer"
        by (cases t) (simp_all add: watched_def armed_def)
      then show ?thesis
        unfolding ex eq by (intro osc_inv_cong [OF inv]) simp_all
    qed
  qed
qed

lemma os_step_inv: "os_step E s t \<Longrightarrow> hrtimer_laws E \<Longrightarrow> osc_inv s \<Longrightarrow> osc_inv t"
proof (induction rule: os_step.induct)
  case (Others k s m w)
  then show ?case by (intro osc_inv_cong [OF Others.prems(2)]) simp_all
qed (simp_all add: written_inv read_on expire_inv)

lemma os_reach_inv: "os_reach E s \<Longrightarrow> hrtimer_laws E \<Longrightarrow> osc_inv s"
  by (induction rule: os_reach.induct) (auto simp: unloaded_def intro: init_inv os_step_inv)

lemma osc_inv_system:
  assumes "osc_inv t" and "k_pid_force_run k = k_pid_force_run (kern t)"
    and "k_last_p_id k = k_last_p_id (kern t)"
  shows "osc_inv (t\<lparr>kern := k\<rparr>)"
  by (rule osc_inv_cong [OF assms(1)]) (simp_all add: assms)

subsection \<open>A request that parses\<close>

definition request_delay :: "u8 list \<Rightarrow> u64" where
  "request_delay user =
     (if length user = OS_CTRL_START_CMD_LENGTH then
        (let d = dec_u64 (take 8 (drop 5 user)) * 1000 in if d > 999999999 then 999999999 else d)
      else 0)"

definition request_state :: "u8 list \<Rightarrow> ('w, 'x) os_ctrl \<Rightarrow> ('w, 'x) os_ctrl" where
  "request_state user s = s\<lparr>prf_ready := False, module_data := poke 0 user (module_data s),
     p_id := dec_pid (take 4 user), cmd := user ! 4\<rparr>"

lemma peek_request:
  assumes "length user \<le> length buf"
  shows "off + n \<le> length user \<Longrightarrow> peek off n (poke 0 user buf) = take n (drop off user)"
    and "i < length user \<Longrightarrow> poke 0 user buf ! i = user ! i"
  by (simp_all add: peek_def poke_def nth_append)

lemma parse_request_run:
  assumes "length user = OS_CTRL_STOP_CMD_LENGTH \<or> length user = OS_CTRL_START_CMD_LENGTH"
    and "length user \<le> length (module_data s)"
  defines "s1 \<equiv> s\<lparr>prf_ready := False, module_data := poke 0 user (module_data s)\<rparr>"
  shows "exec (parse_request (length user)) s1 = request_state user s"
    and "result (parse_request (length user)) s1 = (False, request_delay user)"
  using assms(1) peek_request [OF assms(2)]
  by (auto simp: parse_request_def s1_def request_state_def request_delay_def protocol_defs Let_def)

lemma written_parsed:
  assumes "copy_from_user E user (world s) = (0, user)"
    and "length user = OS_CTRL_STOP_CMD_LENGTH \<or> length user = OS_CTRL_START_CMD_LENGTH"
    and "length user \<le> length (module_data s)"
    and "result (find_task E (dec_pid (take 4 user))) s = Some t"
  shows "exec (on_written_handler E user) s = exec (handle_cmd E t (request_delay user))
      (exec (cancel_if_active E Invalidate_L1_cache_timer) (request_state user s))"
    and "result (on_written_handler E user) s = int (length user)"
proof -
  have fs: "result (find_task E p) (request_state user s) = result (find_task E p) s" for p
    by (simp add: find_task_def request_state_def split: option.split)
  have pid: "p_id (request_state user s) = dec_pid (take 4 user)" by (simp add: request_state_def)
  note run = parse_request_run [OF assms(2,3)]
  show "exec (on_written_handler E user) s = exec (handle_cmd E t (request_delay user))
      (exec (cancel_if_active E Invalidate_L1_cache_timer) (request_state user s))"
    using assms(1,4) by (simp add: on_written_handler_def Let_def run fs pid)
  have "sint (of_nat (length user) :: u32) = int (length user)"
    using assms(2) by (auto simp: protocol_defs)
  then show "result (on_written_handler E user) s = int (length user)"
    using assms(1,4) by (simp add: on_written_handler_def Let_def run fs pid)
qed

lemma find_current:
  "t_pid (k_task (kern s) (k_current (kern s))) = pid \<Longrightarrow>
   result (find_task E pid) s = Some (k_current (kern s))"
  by (simp add: find_task_def)

subsection \<open>START, STOP and READ as a whole\<close>

text \<open>What the flush before a START leaves alone, and the state a START ends in.\<close>

lemma caches_frame:
  "\<exists>m l w. exec (os_flush_and_invalidate_L1_data_cache E) (exec os_invalidate_L1_instruction_cache s) =
     s\<lparr>cpu := m, klog := l, world := w\<rparr>"
proof -
  obtain m1 l1 where 1: "exec os_invalidate_L1_instruction_cache s = s\<lparr>cpu := m1, klog := l1\<rparr>"
    using icache_frame [of s] by blast
  obtain m l w where 2: "exec (os_flush_and_invalidate_L1_data_cache E) (s\<lparr>cpu := m1, klog := l1\<rparr>) =
      s\<lparr>cpu := m1, klog := l1\<rparr>\<lparr>cpu := m, klog := l, world := w\<rparr>"
    using flush_frame [of E "s\<lparr>cpu := m1, klog := l1\<rparr>"] by blast
  from 1 2 show ?thesis by simp blast
qed

definition os_locked :: "s32 \<Rightarrow> ('w, 'x) os_ctrl \<Rightarrow> bool" where
  "os_locked pid s \<longleftrightarrow> k_pid_force_run (kern s) = pid \<and> \<not> irq_enabled s \<and> watched s \<and>
     ht_expires (timers s Kill_application_timer) = Some (Ktime 10 0) \<and>
     ht_expires (timers s Sched_reset_timer) = Some (Ktime 0 900000)"

lemma set_os_disable:
  assumes "hrtimer_laws E" and "osc_inv s" and "last_enable s \<noteq> OS_CTRL_OS_DISABLE"
  shows "os_locked (t_pid (k_task (kern s) t)) (exec (set_os E (Some t) OS_CTRL_OS_DISABLE) s)"
    and "k_task (kern (exec (set_os E (Some t) OS_CTRL_OS_DISABLE) s)) = k_task (kern s)"
    and "timers (exec (set_os E (Some t) OS_CTRL_OS_DISABLE) s) Invalidate_L1_cache_timer =
      timers s Invalidate_L1_cache_timer"
  using assms osc_inv_sync [OF assms(2)]
  by (simp_all add: set_os_def cancel_if_active_run start_timer_run Let_def os_locked_def watch_defs
      KILL_APPLICATION_DELAY_S_def SCHED_RESET_DELAY_NS_def OS_CTRL_OS_DISABLE_def
      keepsD [OF keeps_set_pid_force_run])


lemma set_os_frame:
  "p_id (exec (set_os E t e) s) = p_id s" "prf_ready (exec (set_os E t e) s) = prf_ready s"
  "t_zero (exec (set_os E t e) s) = t_zero s" "cmd (exec (set_os E t e) s) = cmd s"
  "last_cmd (exec (set_os E t e) s) = last_cmd s"
  "module_data (exec (set_os E t e) s) = module_data s"
  "k_task (kern (exec (set_os E t e) s)) = k_task (kern s)"
  "k_current (kern (exec (set_os E t e) s)) = k_current (kern s)"
  by (cases t; simp add: set_os_def cancel_if_active_run start_timer_run Let_def
      keepsD [OF keeps_set_pid_force_run])+

text \<open>The DISABLE branch of the command handler.\<close>

lemma handle_disable:
  assumes "hrtimer_laws E" and "osc_inv s" and "last_enable s \<noteq> OS_CTRL_OS_DISABLE"
    and "cmd s = OS_CTRL_TASK_CMD_DISABLE_OS" and idle: "timer_inactive Invalidate_L1_cache_timer s"
  shows "let s' = exec (handle_cmd E t d) s; me = k_task (kern s) t in
    os_locked (t_pid me) s' \<and> prf_ready s' = prf_ready s \<and> p_id s' = p_id s \<and>
    d_nvcsw s' = t_nvcsw me \<and> d_nivcsw s' = t_nivcsw me \<and>
    t_L1_inv_start s' = t_zero s \<and> t_L1_inv_end s' = t_zero s \<and>
    (if d = 0 then timer_inactive Invalidate_L1_cache_timer s'
     else armed Invalidate_L1_cache_timer Invalidate_L1_cache_interrupt_handler s' \<and>
       ht_expires (timers s' Invalidate_L1_cache_timer) = Some (Ktime 0 (ucast d)))"
proof -
  obtain m l w where cf: "exec (os_flush_and_invalidate_L1_data_cache E)
      (exec os_invalidate_L1_instruction_cache s) = s\<lparr>cpu := m, klog := l, world := w\<rparr>"
    using caches_frame [of E s] by blast
  let ?s1 = "s\<lparr>cpu := m, klog := l, world := w\<rparr>"
  define s2 where "s2 = exec (set_os E (Some t) OS_CTRL_OS_DISABLE) ?s1"
  have "osc_inv ?s1" "last_enable ?s1 \<noteq> OS_CTRL_OS_DISABLE" using assms(2,3) by simp_all
  note set = set_os_disable [OF assms(1) this, of t, folded s2_def]
  have s2: "os_locked (t_pid (k_task (kern s) t)) s2" "k_task (kern s2) = k_task (kern s)"
    "timer_inactive Invalidate_L1_cache_timer s2" "p_id s2 = p_id s" "prf_ready s2 = prf_ready s"
    "t_zero s2 = t_zero s"
    using set idle by (simp_all add: timer_inactive_def) (simp_all add: s2_def set_os_frame)
  show ?thesis
    using s2 assms(1) unfolding handle_cmd_disable [OF assms(4)] cf s2_def [symmetric]
    by (simp add: Let_def start_timer_run os_locked_def watch_defs word_neq_0_conv)
qed

lemma timer_inactive_fields [simp]:
  "timer_inactive t (s\<lparr>d_nvcsw := n\<rparr>) = timer_inactive t s"
  "timer_inactive t (s\<lparr>d_nivcsw := n\<rparr>) = timer_inactive t s"
  "timer_inactive t (s\<lparr>prf_ready := r\<rparr>) = timer_inactive t s"
  by (simp_all add: timer_inactive_def)

lemma set_os_enable:
  fixes E :: "'w os_env" and s :: "('w, 'x) os_ctrl" and t :: task
  assumes "osc_inv s"
  defines "s' \<equiv> exec (set_os E (Some t) OS_CTRL_OS_ENABLE) s"
  shows "\<not> os_off s'" "p_id s' = p_id s" "prf_ready s' = prf_ready s" "d_nvcsw s' = d_nvcsw s"
    "d_nivcsw s' = d_nivcsw s" "t_L1_inv_start s' = t_L1_inv_start s" "t_L1_inv_end s' = t_L1_inv_end s"
    "timer_inactive Invalidate_L1_cache_timer s' = timer_inactive Invalidate_L1_cache_timer s"
  using assms osc_inv_sync [OF assms(1)]
  by (cases "last_enable s = OS_CTRL_OS_ENABLE"; simp add: s'_def set_os_def cancel_if_active_run Let_def os_off_def osc_inv_def
      OS_CTRL_OS_DISABLE_def OS_CTRL_OS_ENABLE_def timer_inactive_def)+

text \<open>The DISABLE request as a whole, from every state that satisfies the invariant.\<close>

lemma start_effect:
  fixes s :: "('w, 'x) os_ctrl"
  assumes laws: "hrtimer_laws E" and inv: "osc_inv s"
    and last: "last_enable s \<noteq> OS_CTRL_OS_DISABLE"
    and copy: "copy_from_user E user (world s) = (0, user)"
    and user: "user = enc_pid pid @ [OS_CTRL_TASK_CMD_DISABLE_OS] @ enc_u64 us"
    and buf: "PROCFS_MAX_SIZE \<le> length (module_data s)"
    and me: "t_pid (k_task (kern s) (k_current (kern s))) = pid"
  shows "let s' = exec (on_written_handler E user) s;
             d = (if us * 1000 > 999999999 then 999999999 else us * 1000);
             me = k_task (kern s) (k_current (kern s)) in
    result (on_written_handler E user) s = 13 \<and> os_locked pid s' \<and> \<not> prf_ready s' \<and> p_id s' = pid \<and>
    d_nvcsw s' = t_nvcsw me \<and> d_nivcsw s' = t_nivcsw me \<and>
    t_L1_inv_start s' = t_zero s \<and> t_L1_inv_end s' = t_zero s \<and>
    (if d = 0 then timer_inactive Invalidate_L1_cache_timer s'
     else armed Invalidate_L1_cache_timer Invalidate_L1_cache_interrupt_handler s' \<and>
       ht_expires (timers s' Invalidate_L1_cache_timer) = Some (Ktime 0 (ucast d)))"
proof -
  have len: "length user = 13" by (simp add: user enc_pid_def enc_u64_def)
  have fields: "dec_pid (take 4 user) = pid" "user ! 4 = OS_CTRL_TASK_CMD_DISABLE_OS"
    "dec_u64 (take 8 (drop 5 user)) = us"
    using pidc.length_enc [of pid] u64c.length_enc [of us]
    by (simp_all add: user dec_pid_enc_pid dec_u64_enc_u64 nth_append)
  have found: "result (find_task E (dec_pid (take 4 user))) s = Some (k_current (kern s))"
    using me fields by (simp add: find_current)
  have len': "length user = OS_CTRL_STOP_CMD_LENGTH \<or> length user = OS_CTRL_START_CMD_LENGTH"
    "length user \<le> length (module_data s)"
    using len buf by (simp_all add: protocol_defs PROCFS_MAX_SIZE_def)
  note run = written_parsed [OF copy len' found]
  define s1 where "s1 = exec (cancel_if_active E Invalidate_L1_cache_timer) (request_state user s)"
  have inv1: "osc_inv s1"
    unfolding s1_def by (rule cancel_other_inv) (simp add: request_state_def inv)
  have s1: "cmd s1 = OS_CTRL_TASK_CMD_DISABLE_OS" "kern s1 = kern s" "t_zero s1 = t_zero s"
    "last_enable s1 \<noteq> OS_CTRL_OS_DISABLE" "p_id s1 = pid" "\<not> prf_ready s1"
    "timer_inactive Invalidate_L1_cache_timer s1"
    using laws fields last
    by (simp_all add: s1_def request_state_def cancel_if_active_run timer_inactive_def)
  define d where "d = (if us * 1000 > 999999999 then 999999999 else us * 1000)"
  have d: "request_delay user = d"
    using fields len by (simp add: request_delay_def protocol_defs Let_def d_def)
  show ?thesis
    using handle_disable [OF laws inv1 s1(4,1,7), of "k_current (kern s)" d]
    by (simp only: run s1_def [symmetric] d d_def [symmetric] Let_def s1 me len) (cases "d = 0"; simp)
qed

text \<open>C5. START works: a start request of the running process is answered with its length and
  leaves the scheduler locked to that process, the interrupts off, both watchdog timers
  pending with their handlers and delays, the profile marked as not ready, the current
  context switch counts as the base of the profile, and the cache invalidation timer pending
  after the requested delay (in us, at most 999999999 ns) exactly if that is not 0. It needs
  the previous START to have been followed by a STOP (\<open>last_enable\<close>).\<close>

theorem start_locks:
  fixes s :: "('w, 'x) os_ctrl"
  assumes laws: "hrtimer_laws E" and reach: "os_reach E s"
    and last: "last_enable s \<noteq> OS_CTRL_OS_DISABLE"
    and copy: "copy_from_user E user (world s) = (0, user)"
    and user: "user = enc_pid pid @ [OS_CTRL_TASK_CMD_DISABLE_OS] @ enc_u64 us"
    and buf: "PROCFS_MAX_SIZE \<le> length (module_data s)"
    and me: "t_pid (k_task (kern s) (k_current (kern s))) = pid"
  shows "let s' = exec (on_written_handler E user) s;
             d = (if us * 1000 > 999999999 then 999999999 else us * 1000);
             me = k_task (kern s) (k_current (kern s)) in
    result (on_written_handler E user) s = 13 \<and> os_locked pid s' \<and> \<not> prf_ready s' \<and> p_id s' = pid \<and>
    d_nvcsw s' = t_nvcsw me \<and> d_nivcsw s' = t_nivcsw me \<and>
    t_L1_inv_start s' = t_zero s \<and> t_L1_inv_end s' = t_zero s \<and>
    (if d = 0 then timer_inactive Invalidate_L1_cache_timer s'
     else armed Invalidate_L1_cache_timer Invalidate_L1_cache_interrupt_handler s' \<and>
       ht_expires (timers s' Invalidate_L1_cache_timer) = Some (Ktime 0 (ucast d)))"
  by (rule start_effect [OF laws os_reach_inv [OF reach laws] last copy user buf me])

text \<open>A START that comes while \<open>last_enable\<close> still says that the system is off (the previous
  profile ended by a timeout, or there was no STOP) is answered like a good one, but nothing
  is locked: scheduler, interrupts and watchdog timers stay as they are.\<close>

theorem start_after_timeout_ignored:
  fixes s :: "('w, 'x) os_ctrl"
  assumes last: "last_enable s = OS_CTRL_OS_DISABLE" and on: "\<not> os_off s"
    and copy: "copy_from_user E user (world s) = (0, user)"
    and user: "user = enc_pid pid @ [OS_CTRL_TASK_CMD_DISABLE_OS] @ enc_u64 us"
    and buf: "PROCFS_MAX_SIZE \<le> length (module_data s)"
    and me: "t_pid (k_task (kern s) (k_current (kern s))) = pid"
  shows "let s' = exec (on_written_handler E user) s in
    result (on_written_handler E user) s = 13 \<and> \<not> os_off s' \<and> kern s' = kern s \<and>
    (\<forall>t. t \<noteq> Invalidate_L1_cache_timer \<longrightarrow> timers s' t = timers s t)"
proof -
  have len: "length user = 13" by (simp add: user enc_pid_def enc_u64_def)
  have fields: "dec_pid (take 4 user) = pid" "user ! 4 = OS_CTRL_TASK_CMD_DISABLE_OS"
    using pidc.length_enc [of pid] by (simp_all add: user dec_pid_enc_pid nth_append)
  have found: "result (find_task E (dec_pid (take 4 user))) s = Some (k_current (kern s))"
    using me fields by (simp add: find_current)
  have len': "length user = OS_CTRL_STOP_CMD_LENGTH \<or> length user = OS_CTRL_START_CMD_LENGTH"
    "length user \<le> length (module_data s)"
    using len buf by (simp_all add: protocol_defs PROCFS_MAX_SIZE_def)
  define s1 where "s1 = exec (cancel_if_active E Invalidate_L1_cache_timer) (request_state user s)"
  have s1: "cmd s1 = OS_CTRL_TASK_CMD_DISABLE_OS" "kern s1 = kern s"
    "last_enable s1 = OS_CTRL_OS_DISABLE" "irq_enabled s1 = irq_enabled s"
    "t \<noteq> Invalidate_L1_cache_timer \<Longrightarrow> timers s1 t = timers s t" for t
    using fields last by (simp_all add: s1_def request_state_def cancel_if_active_run)
  obtain m l w where cf: "exec (os_flush_and_invalidate_L1_data_cache E)
      (exec os_invalidate_L1_instruction_cache s1) = s1\<lparr>cpu := m, klog := l, world := w\<rparr>"
    using caches_frame [of E s1] by blast
  show ?thesis
    using s1 on unfolding written_parsed [OF copy len' found] s1_def [symmetric]
      handle_cmd_disable [OF s1(1)] cf
    by (simp add: Let_def set_os_def start_timer_run os_off_def len)
qed

lemma start_cmd_frame:
  assumes "cmd s = OS_CTRL_TASK_CMD_DISABLE_OS"
  shows "last_cmd (exec (handle_cmd E t d) s) = last_cmd s"
    and "module_data (exec (handle_cmd E t d) s) = module_data s"
    and "k_task (kern (exec (handle_cmd E t d) s)) = k_task (kern s)"
    and "k_current (kern (exec (handle_cmd E t d) s)) = k_current (kern s)"
proof -
  obtain m l w where cf: "exec (os_flush_and_invalidate_L1_data_cache E)
      (exec os_invalidate_L1_instruction_cache s) = s\<lparr>cpu := m, klog := l, world := w\<rparr>"
    using caches_frame [of E s] by blast
  show "last_cmd (exec (handle_cmd E t d) s) = last_cmd s"
    "module_data (exec (handle_cmd E t d) s) = module_data s"
    "k_task (kern (exec (handle_cmd E t d) s)) = k_task (kern s)"
    "k_current (kern (exec (handle_cmd E t d) s)) = k_current (kern s)"
    unfolding handle_cmd_disable [OF assms] cf
    by (simp_all add: Let_def set_os_frame start_timer_run)
qed

text \<open>The ENABLE branch as a whole, from every state that satisfies the invariant.\<close>

lemma stop_effect:
  fixes s :: "('w, 'x) os_ctrl"
  assumes laws: "hrtimer_laws E" and inv: "osc_inv s"
    and copy: "copy_from_user E user (world s) = (0, user)"
    and user: "user = enc_pid pid @ [OS_CTRL_TASK_CMD_ENABLE_OS]"
    and buf: "PROCFS_MAX_SIZE \<le> length (module_data s)"
    and me: "t_pid (k_task (kern s) (k_current (kern s))) = pid"
  defines "s' \<equiv> exec (on_written_handler E user) s"
  shows "result (on_written_handler E user) s = 5" and "\<not> os_off s'" and "prf_ready s'"
    and "p_id s' = pid" and "cmd s' = OS_CTRL_TASK_CMD_ENABLE_OS" and "last_cmd s' = last_cmd s"
    and "d_nvcsw s' = switches_since (d_nvcsw s) (t_nvcsw (k_task (kern s) (k_current (kern s))))"
    and "d_nivcsw s' = switches_since (d_nivcsw s) (t_nivcsw (k_task (kern s) (k_current (kern s))))"
    and "t_L1_inv_start s' = t_L1_inv_start s" and "t_L1_inv_end s' = t_L1_inv_end s"
    and "timer_inactive Invalidate_L1_cache_timer s'"
proof -
  have len: "length user = 5" by (simp add: user enc_pid_def)
  have fields: "dec_pid (take 4 user) = pid" "user ! 4 = OS_CTRL_TASK_CMD_ENABLE_OS"
    using pidc.length_enc [of pid] by (simp_all add: user dec_pid_enc_pid nth_append)
  have found: "result (find_task E (dec_pid (take 4 user))) s = Some (k_current (kern s))"
    using me fields by (simp add: find_current)
  have len': "length user = OS_CTRL_STOP_CMD_LENGTH \<or> length user = OS_CTRL_START_CMD_LENGTH"
    "length user \<le> length (module_data s)"
    using len buf by (simp_all add: protocol_defs PROCFS_MAX_SIZE_def)
  define s1 where "s1 = exec (cancel_if_active E Invalidate_L1_cache_timer) (request_state user s)"
  have inv1: "osc_inv s1"
    unfolding s1_def by (rule cancel_other_inv) (simp add: request_state_def inv)
  have s1: "cmd s1 = OS_CTRL_TASK_CMD_ENABLE_OS" "kern s1 = kern s" "p_id s1 = pid"
    "d_nvcsw s1 = d_nvcsw s" "d_nivcsw s1 = d_nivcsw s" "t_L1_inv_start s1 = t_L1_inv_start s"
    "t_L1_inv_end s1 = t_L1_inv_end s" "timer_inactive Invalidate_L1_cache_timer s1"
    "last_cmd s1 = last_cmd s"
    using laws fields
    by (simp_all add: s1_def request_state_def cancel_if_active_run timer_inactive_def)
  have eq: "s' = exec (handle_cmd E (k_current (kern s)) (request_delay user)) s1"
    unfolding s'_def s1_def by (rule written_parsed [OF copy len' found])
  show "result (on_written_handler E user) s = 5" "\<not> os_off s'" "prf_ready s'"
    "p_id s' = pid" "cmd s' = OS_CTRL_TASK_CMD_ENABLE_OS" "last_cmd s' = last_cmd s"
    "d_nvcsw s' = switches_since (d_nvcsw s) (t_nvcsw (k_task (kern s) (k_current (kern s))))"
    "d_nivcsw s' = switches_since (d_nivcsw s) (t_nivcsw (k_task (kern s) (k_current (kern s))))"
    "t_L1_inv_start s' = t_L1_inv_start s" "t_L1_inv_end s' = t_L1_inv_end s"
    "timer_inactive Invalidate_L1_cache_timer s'"
    using s1 inv1 written_parsed(2) [OF copy len' found] unfolding eq handle_cmd_enable [OF s1(1)]
    by (simp_all add: set_os_enable set_os_frame len)
qed

text \<open>What may happen between a START and the STOP that follows it: timers of the module expire and the
  rest of the system runs.\<close>

inductive meanwhile :: "'w os_env \<Rightarrow> ('w, 'x) os_ctrl \<Rightarrow> ('w, 'x) os_ctrl \<Rightarrow> bool" for E where
  Nothing: "meanwhile E s s"
| Expiry: "meanwhile E s t \<Longrightarrow> \<not> timer_inactive x t \<Longrightarrow> meanwhile E s (exec (expire E x) t)"
| System: "meanwhile E s t \<Longrightarrow> k_pid_force_run k = k_pid_force_run (kern t) \<Longrightarrow>
    k_last_p_id k = k_last_p_id (kern t) \<Longrightarrow> meanwhile E s (t\<lparr>kern := k, cpu := m, world := w\<rparr>)"

lemma expire_counts:
  fixes s :: "('w, 'x) os_ctrl"
  defines "counts \<equiv> \<lambda>s :: ('w, 'x) os_ctrl. (d_nvcsw s, d_nivcsw s)"
  shows "counts (exec (expire E x) s) = counts s"
proof -
  have i: "keeps counts (in_kern m)" "keeps counts IRQ_ENABLE" "keeps counts (call_timer t g)"
    "keeps counts (find_task E p)" for m :: "('x kst, 'a) state" and t g p
    by (simp_all add: keeps_def counts_def)
  have "keeps counts (run_handler E f)" for f
  proof (cases f)
    case Invalidate_L1_cache_interrupt_handler
    have "counts (exec (invalidate_L1_cache_interrupt_handler E) s) = counts s" for s
    proof -
      obtain m l w a b where "exec (invalidate_L1_cache_interrupt_handler E) s =
          s\<lparr>cpu := m, klog := l, world := w, t_L1_inv_start := a, t_L1_inv_end := b\<rparr>"
        using invalidate_frame [of E s] by blast
      then show ?thesis by (simp add: counts_def)
    qed
    with Invalidate_L1_cache_interrupt_handler show ?thesis by (simp add: keeps_def run_handler_def)
  next
    case Kill_application_interrupt_handler
    then show ?thesis
      by (auto simp: run_handler_def kill_application_interrupt_handler_def counts_def intro!: keeps_intros i [unfolded counts_def])
  next
    case Sched_reset_interrupt_handler
    then show ?thesis
      by (auto simp: run_handler_def sched_reset_interrupt_handler_def counts_def intro!: keeps_intros i [unfolded counts_def])
  qed
  then have "counts (exec (run_handler E f) s) = counts s" for f by (rule keepsD)
  then show ?thesis by (simp add: expire_def upd_timer_def counts_def split: option.split)
qed

lemma meanwhile_counts:
  assumes "meanwhile E s t"
  shows "d_nvcsw t = d_nvcsw s \<and> d_nivcsw t = d_nivcsw s"
  using assms by induction (simp_all add: expire_counts [unfolded prod.inject])

text \<open>A request START of the running process \<open>pid\<close> that locks (\<open>start_locks\<close>).\<close>

definition start_bytes :: "s32 \<Rightarrow> u64 \<Rightarrow> u8 list" where
  "start_bytes pid us = enc_pid pid @ [OS_CTRL_TASK_CMD_DISABLE_OS] @ enc_u64 us"

definition can_start :: "'w os_env \<Rightarrow> s32 \<Rightarrow> u64 \<Rightarrow> ('w, 'x) os_ctrl \<Rightarrow> bool" where
  "can_start E pid us s \<longleftrightarrow> os_reach E s \<and> last_enable s \<noteq> OS_CTRL_OS_DISABLE \<and>
     copy_from_user E (start_bytes pid us) (world s) = (0, start_bytes pid us) \<and>
     PROCFS_MAX_SIZE \<le> length (module_data s) \<and> t_pid (k_task (kern s) (k_current (kern s))) = pid"


subsection \<open>Requests that fit\<close>

lemma keeps_module_data [keeps_intros]:
  "keeps module_data (in_kern m)" "keeps module_data IRQ_ENABLE" "keeps module_data IRQ_DISABLE"
  "keeps module_data (call_timer t g)" "keeps module_data (upd_timer t h)" "keeps module_data (find_task E p)"
  "keeps module_data reset_cntrs" "keeps module_data (cancel_if_active E t)" "keeps module_data (start_timer E t d f)"
  by (simp_all add: keeps_def cancel_if_active_run start_timer_run Let_def)

lemma keeps_module_data_caches [keeps_intros]:
  "keeps module_data os_invalidate_L1_instruction_cache"
  "keeps module_data (os_flush_and_invalidate_L1_data_cache E)"
proof (rule_tac [!] keepsI)
  fix s :: "('a, 'b) os_ctrl"
  obtain m l where "exec os_invalidate_L1_instruction_cache s = s\<lparr>cpu := m, klog := l\<rparr>"
    using icache_frame [of s] by blast
  then show "module_data (exec os_invalidate_L1_instruction_cache s) = module_data s" by simp
next
  fix s :: "('c, 'd) os_ctrl"
  obtain m l w where "exec (os_flush_and_invalidate_L1_data_cache E) s = s\<lparr>cpu := m, klog := l, world := w\<rparr>"
    using flush_frame [of E s] by blast
  then show "module_data (exec (os_flush_and_invalidate_L1_data_cache E) s) = module_data s" by simp
qed

lemma keeps_module_data_os [keeps_intros]:
  "keeps module_data (set_os E p e)" "keeps module_data (parse_request n)"
  unfolding set_os_def parse_request_def
  by ((intro keeps_intros; simp?)+)

lemma keeps_module_data_requests [keeps_intros]:
  "keeps module_data (handle_cmd E t d)" "keeps module_data (on_read_handler E buf off)"
  unfolding handle_cmd_def on_read_handler_def Let_def
  by ((intro keeps_intros; simp?)+)

lemma keeps_module_data_expire: "keeps module_data (expire E t)"
proof -
  have "keeps module_data (run_handler E h)" for h
    unfolding run_handler_def invalidate_L1_cache_interrupt_handler_def kill_application_interrupt_handler_def
      sched_reset_interrupt_handler_def
    by (cases h; simp only: hrtimer_handler.case; (intro keeps_intros; simp?)+)
  then show ?thesis unfolding expire_def by ((intro keeps_intros; simp?)+)
qed

text \<open>The states the module can reach if every request fits the input buffer of 13 bytes, with the
  bytes the linker put behind the buffer, as they were when the module was loaded.\<close>

inductive os_fits :: "'w os_env \<Rightarrow> u8 list \<Rightarrow> ('w, 'x) os_ctrl \<Rightarrow> bool" for E behind where
  Fits_loaded: "unloaded s \<Longrightarrow> drop PROCFS_MAX_SIZE (module_data s) = behind \<Longrightarrow>
    os_fits E behind (exec (init_module E) s)"
| Fits_written: "os_fits E behind s \<Longrightarrow> length user \<le> PROCFS_MAX_SIZE \<Longrightarrow>
    length (snd (copy_from_user E user (world s))) \<le> length user \<Longrightarrow>
    os_fits E behind (exec (on_written_handler E user) s)"
| Fits_read: "os_fits E behind s \<Longrightarrow> os_fits E behind (exec (on_read_handler E buf off) s)"
| Fits_expired: "os_fits E behind s \<Longrightarrow> \<not> timer_inactive t s \<Longrightarrow> os_fits E behind (exec (expire E t) s)"
| Fits_others: "os_fits E behind s \<Longrightarrow> k_pid_force_run k = k_pid_force_run (kern s) \<Longrightarrow>
    k_last_p_id k = k_last_p_id (kern s) \<Longrightarrow> os_fits E behind (s\<lparr>kern := k, cpu := m, world := w\<rparr>)"

lemma os_fits_reach: "os_fits E behind s \<Longrightarrow> os_reach E s"
  by (induction rule: os_fits.induct) (blast intro: os_reach.intros os_step.intros)+

lemma os_fits_behind:
  fixes s :: "('w, 'x) os_ctrl"
  shows "os_fits E behind s \<Longrightarrow> drop PROCFS_MAX_SIZE (module_data s) = behind"
proof (induction rule: os_fits.induct)
  case (Fits_loaded s)
  have "module_data (exec (init_module E) s) = module_data s"
    unfolding init_module_def by (rule keepsD) ((intro keeps_intros; simp?)+)
  then show ?case using Fits_loaded by simp
next
  case (Fits_written s user)
  let ?s1 = "s\<lparr>prf_ready := False, module_data := poke 0 (snd (copy_from_user E user (world s))) (module_data s)\<rparr>"
  define rest where "rest = (\<lambda>left :: nat. do {
     (err, delay_ns) \<leftarrow> (if left = 0 then parse_request (length user) else ret (True, 0));
     if err then ret (- ENOMEM)
     else do {
       pid \<leftarrow> gets p_id;
       pTask \<leftarrow> find_task E pid;
       (case pTask of
          None \<Rightarrow> do {
            printk ''%s ERROR: [PID %u] Unable to find task in scheduler'';
            IRQ_ENABLE;
            reset_cntrs;
            ret (- ENOMEM) }
        | Some t \<Rightarrow> do {
            cancel_if_active E Invalidate_L1_cache_timer;
            handle_cmd E t delay_ns;
            ret (sint (of_nat (length user) :: u32)) }) } } :: ('w, 'x, int) os_op)"
  have "keeps module_data (rest n)" for n
    unfolding rest_def by ((intro keeps_intros; simp?)+)
  moreover have "exec (on_written_handler E user) s = exec (rest (fst (copy_from_user E user (world s)))) ?s1"
    by (simp add: on_written_handler_def rest_def Let_def case_prod_beta)
  ultimately have "module_data (exec (on_written_handler E user) s) =
      poke 0 (snd (copy_from_user E user (world s))) (module_data s)"
    by (simp add: keepsD)
  then show ?case using Fits_written by (simp add: poke_def)
qed (simp_all add: keepsD [OF keeps_module_data_requests(2)] keepsD [OF keeps_module_data_expire])


text \<open>The second limit is one of the program: if the reset timer, 0.9 ms after it was started, expires
  before \<open>set_os\<close> gets to \<open>set_pid_force_run\<close>, the scheduler is locked and the timer that should
  unlock it is not pending.\<close>

theorem reset_before_lock_unwatched:
  fixes s :: "('w, 'x) os_ctrl" and pid :: s32 and E :: "'w os_env"
  assumes "force_sync (kern s)" and "pid \<noteq> 0"
  defines "s1 \<equiv> exec (do {
      start_timer E Kill_application_timer (Ktime KILL_APPLICATION_DELAY_S 0) Kill_application_interrupt_handler;
      start_timer E Sched_reset_timer (Ktime 0 SCHED_RESET_DELAY_NS) Sched_reset_interrupt_handler }) s"
  defines "s2 \<equiv> exec (expire E Sched_reset_timer) s1"
  defines "s3 \<equiv> exec (do { IRQ_DISABLE; in_kern (set_pid_force_run pid) }) s2"
  assumes "hrtimer_laws E"
  shows "os_off s3 \<and> timer_inactive Sched_reset_timer s3 \<and> \<not> watched s3"
proof -
  have f: "ht_function (timers s1 Sched_reset_timer) = Some Sched_reset_interrupt_handler"
    "force_sync (kern s1)"
    using assms(1,6) by (simp_all add: s1_def start_timer_run Let_def)
  then have "timer_inactive Sched_reset_timer s2" "force_sync (kern s2)"
    using f by (simp_all add: s2_def expire_def run_handler_def sched_reset_interrupt_handler_def timer_inactive_def)
  then show ?thesis using assms(2) by (simp add: s3_def watch_defs)
qed

text \<open>C8. Each watchdog does its job: when one of the two timers that guard a state in which the
  system is off expires, the system is on again.\<close>

theorem watchdog_switches_on:
  assumes "hrtimer_laws E" and "os_reach E s" and "os_off s"
    and "t = Kill_application_timer \<or> t = Sched_reset_timer"
  shows "\<not> os_off (exec (expire E t) s) \<and> os_reach E (exec (expire E t) s)"
proof -
  have inv: "osc_inv s" using assms(1,2) by (simp add: os_reach_inv)
  with assms(3,4) have t: "\<not> timer_inactive t s" "ht_function (timers s t) =
      Some (if t = Kill_application_timer then Kill_application_interrupt_handler
            else Sched_reset_interrupt_handler)"
    by (auto simp: osc_inv_def watched_def armed_def)
  have "os_reach E (exec (expire E t) s)" by (rule Step [OF assms(2) Expired [OF t(1)]])
  moreover have "\<not> os_off (exec (expire E t) s)"
    using t(2) kill_on [OF inv, of E] sched_reset_on [OF inv]
    by (simp add: expire_def handlers_norestart run_handler_def os_off_def)
  ultimately show ?thesis by simp
qed

text \<open>Unloading the module from any reachable state leaves the scheduler unlocked, the
  interrupts on and no timer pending, so that no handler can run after the code is gone.\<close>

theorem cleanup_leaves_nothing:
  assumes "hrtimer_laws E" and "os_reach E s"
  shows "\<not> os_off (exec (cleanup_module E) s) \<and> (\<forall>t. timer_inactive t (exec (cleanup_module E) s))"
proof
  show "\<not> os_off (exec (cleanup_module E) s)"
    using cleanup_on [OF os_reach_inv [OF assms(2,1)]] by simp
  show "\<forall>t. timer_inactive t (exec (cleanup_module E) s)"
    by (intro allI, case_tac t; simp add: cleanup_module_def timer_inactive_def assms(1))
qed

subsection \<open>Reading the profile\<close>

definition profile_bytes :: "('w, 'x) os_ctrl \<Rightarrow> u8 list" where
  "profile_bytes s = enc_u64 (scast (ELAPSED (t_L1_inv_start s) (t_L1_inv_end s))) @
     [ucast (d_nvcsw s AND 0xFF), ucast (d_nivcsw s AND 0xFF)]"

definition no_profile :: "u8 list" where
  "no_profile = enc_u64 0 @ [0, 0]"

lemma length_profile [simp]: "length (profile_bytes s) = 10" "length no_profile = 10"
  by (simp_all add: profile_bytes_def no_profile_def enc_u64_def)

definition read_prologue :: "'w os_env \<Rightarrow> ('w, 'x, unit) os_op" where
  "read_prologue E = do {
     in_kern (set_pid_force_run 0);
     IRQ_ENABLE;
     cancel_if_active E Sched_reset_timer;
     cancel_if_active E Kill_application_timer;
     cancel_if_active E Invalidate_L1_cache_timer }"

lemma read_prologue_fields:
  "prf_ready (exec (read_prologue E) s) = prf_ready s" "cmd (exec (read_prologue E) s) = cmd s"
  "last_cmd (exec (read_prologue E) s) = last_cmd s"
  "profile_bytes (exec (read_prologue E) s) = profile_bytes s"
  "hrtimer_laws E \<Longrightarrow> timer_inactive t (exec (read_prologue E) s)"
  by (simp_all add: read_prologue_def cancel_if_active_run profile_bytes_def)
    (cases t; simp add: timer_inactive_def)

definition delivers :: "('w, 'x) os_ctrl \<Rightarrow> int \<Rightarrow> bool" where
  "delivers s off \<longleftrightarrow> off \<le> 0 \<and> prf_ready s \<and> cmd s \<noteq> last_cmd s"

lemma read_exec:
  "exec (on_read_handler E buf off) s =
    (let t = (if delivers s off then exec reset_cntrs (exec (read_prologue E) s)
              else exec (read_prologue E) s)
     in t\<lparr>last_cmd := cmd t\<rparr>)"
  using read_prologue_fields(1-3) [of E s]
  by (simp add: on_read_handler_def read_prologue_def delivers_def Let_def)

lemma read_result:
  "result (on_read_handler E buf off) s =
    (poke 0 (if delivers s off then profile_bytes s else no_profile) buf, if off > 0 then 0 else 10)"
  using read_prologue_fields(1-4) [of E s]
  by (simp add: on_read_handler_def read_prologue_def delivers_def no_profile_def profile_bytes_def)

lemma take_poke: "length bs = n \<Longrightarrow> take n (poke 0 bs buf) = bs"
  by (simp add: poke_def)

lemma low_byte: "unat (ucast (x AND 0xFF :: u32) :: u8) = unat x mod 256"
proof -
  have "x AND 0xFF = x AND mask 8" by (simp add: mask_numeral)
  then have "x AND 0xFF = take_bit 8 x" by (simp add: take_bit_eq_mask)
  then show ?thesis by (simp add: unsigned_ucast_eq unsigned_take_bit_eq take_bit_nat_def)
qed

lemma profile_fields:
  "sint (dec_u64 (take 8 (poke 0 (profile_bytes s) buf))) = sint (ELAPSED (t_L1_inv_start s) (t_L1_inv_end s))"
  "unat (poke 0 (profile_bytes s) buf ! 8) = unat (d_nvcsw s) mod 256"
  "unat (poke 0 (profile_bytes s) buf ! 9) = unat (d_nivcsw s) mod 256"
proof -
  have 8: "length (enc_u64 x) = 8" for x by (simp add: enc_u64_def)
  have "- 2147483648 \<le> sint w \<and> sint w < 2147483648" for w :: s32
    using sint_ge [of w] sint_lt [of w] by simp
  then have wide: "- 9223372036854775808 \<le> sint w \<and> sint w < 9223372036854775808" for w :: s32
    by (smt (verit))
  show "sint (dec_u64 (take 8 (poke 0 (profile_bytes s) buf))) =
      sint (ELAPSED (t_L1_inv_start s) (t_L1_inv_end s))"
    by (simp add: poke_def profile_bytes_def 8 dec_u64_enc_u64 signed_scast_eq signed_take_bit_int_eq_self_iff wide)
  show "unat (poke 0 (profile_bytes s) buf ! 8) = unat (d_nvcsw s) mod 256"
    "unat (poke 0 (profile_bytes s) buf ! 9) = unat (d_nivcsw s) mod 256"
    by (simp_all add: poke_def profile_bytes_def nth_append 8 low_byte)
qed

text \<open>C39. READ after STOP: ten bytes with the time between the two stamps of the cache
  invalidation (sign-extended) and the low bytes of the two switch counts; the system is on,
  and no timer of the module is pending any more.\<close>

theorem read_delivers_profile:
  assumes laws: "hrtimer_laws E" and reach: "os_reach E s" and "delivers s off"
    and short: "\<bar>ns_of (t_L1_inv_end s) - ns_of (t_L1_inv_start s)\<bar> < 2 ^ 31"
  shows "let (out, n) = result (on_read_handler E buf off) s; s' = exec (on_read_handler E buf off) s in
    n = 10 \<and> sint (dec_u64 (take 8 out)) = ns_of (t_L1_inv_end s) - ns_of (t_L1_inv_start s) \<and>
    unat (out ! 8) = unat (d_nvcsw s) mod 256 \<and> unat (out ! 9) = unat (d_nivcsw s) mod 256 \<and>
    \<not> os_off s' \<and> (\<forall>t. timer_inactive t s')"
proof -
  have "osc_inv s" using reach laws by (rule os_reach_inv)
  moreover have "timer_inactive t (exec (on_read_handler E buf off) s)" for t
    using read_prologue_fields(5) [OF laws, of t s] by (simp add: read_exec Let_def timer_inactive_def)
  moreover have "off \<le> 0" using assms(3) by (simp add: delivers_def)
  ultimately show ?thesis
    using assms(3) by (simp add: read_result profile_fields ELAPSED_exact [OF short] read_on)
qed

text \<open>A profile is delivered at most once: a second read, at whatever offset and whatever the
  first one returned, answers zeros. In particular a first read at an offset above 0 loses
  the profile.\<close>

theorem second_read_empty:
  "take 10 (fst (result (on_read_handler E buf off) (exec (on_read_handler E buf' off') s))) =
   replicate 10 0"
proof -
  have "\<not> delivers (exec (on_read_handler E buf' off') s) off"
    by (simp add: read_exec delivers_def Let_def)
  moreover have "no_profile = replicate 10 0" by code_simp
  ultimately show ?thesis by (simp add: read_result take_poke)
qed

text \<open>Requests are not bounded by the buffer: a write of more than 13 bytes is refused as
  garbage, but only after it has overwritten the module's data behind the buffer.\<close>

theorem long_write_overflows:
  assumes "copy_from_user E user (world s) = (0, user)"
    and "PROCFS_MAX_SIZE < length user" and "length user \<le> length (module_data s)"
  shows "result (on_written_handler E user) s = - ENOMEM \<and>
    drop PROCFS_MAX_SIZE (module_data (exec (on_written_handler E user) s)) =
      drop PROCFS_MAX_SIZE user @ drop (length user) (module_data s)"
  using assms
  by (simp add: on_written_handler_def parse_request_def protocol_defs PROCFS_MAX_SIZE_def Let_def poke_def)

text \<open>A request for a process the kernel does not know is refused with \<open>-ENOMEM\<close>; the
  interrupts are on afterwards and the counters reset, but the scheduler's lock and the
  watchdogs are left as they were.\<close>

theorem unknown_pid_refused:
  assumes "copy_from_user E user (world s) = (0, user)"
    and "length user = OS_CTRL_STOP_CMD_LENGTH \<or> length user = OS_CTRL_START_CMD_LENGTH"
    and "length user \<le> length (module_data s)"
    and "result (find_task E (dec_pid (take 4 user))) s = None"
  shows "let s' = exec (on_written_handler E user) s in
    result (on_written_handler E user) s = - ENOMEM \<and> irq_enabled s' \<and> \<not> prf_ready s' \<and>
    cmd s' = OS_CTRL_TASK_CMD_NONE \<and> d_nvcsw s' = 0 \<and> d_nivcsw s' = 0 \<and>
    kern s' = kern s \<and> timers s' = timers s"
proof -
  have fs: "result (find_task E p) (request_state user s) = result (find_task E p) s" for p
    by (simp add: find_task_def request_state_def split: option.split)
  have fields: "p_id (request_state user s) = dec_pid (take 4 user)"
    "kern (request_state user s) = kern s" "timers (request_state user s) = timers s"
    "\<not> prf_ready (request_state user s)"
    by (simp_all add: request_state_def)
  show ?thesis
    using assms(1,4)
    by (simp add: on_written_handler_def Let_def parse_request_run [OF assms(2,3)] fs fields)
qed

subsection \<open>A concrete machine\<close>

text \<open>Timers that behave, a clock that advances by 1 ms per call (the world is the number of calls),
  user memory that can always be read, and the process table of \<open>blank_kst\<close>, in which task \<open>p\<close>
  has process id \<open>p\<close>. Task 1 is running.\<close>

definition demo_env :: "nat os_env" where
  "demo_env = \<lparr>kmalloc = (\<lambda>_ w. (0x10000, w)), kfree = (\<lambda>_ w. w),
     create_proc_entry = (\<lambda>n m w. (Some \<lparr>pde_name = n, pde_mode = m, pde_uid = 0, pde_gid = 0,
       pde_size = 0, read_proc = None, write_proc = None\<rparr>, w)),
     remove_proc_entry = (\<lambda>_ w. w), reg_ref = 9, reg_end = 10, reg_reused = False,
     hrtimer_init = (\<lambda>h. h\<lparr>ht_state := 0, ht_expires := None\<rparr>),
     hrtimer_start = (\<lambda>h d w. (h\<lparr>ht_state := 1, ht_expires := Some d\<rparr>, w)),
     hrtimer_cancel = (\<lambda>h w. (h\<lparr>ht_state := 0\<rparr>, w)),
     find_vpid = (\<lambda>p w. if unat p < 100 then Some (unat p) else None), pid_task = (\<lambda>a w. Some a),
     copy_from_user = (\<lambda>u w. (0, u)),
     getrawmonotonic = (\<lambda>w. (\<lparr>tv_sec = 0, tv_nsec = of_nat w * 1000000\<rparr>, Suc w)),
     send_sig_info = (\<lambda>_ _ _ w. (0, w)),
     set_normalized_timespec = (\<lambda>_ _. \<lparr>tv_sec = 0, tv_nsec = 0\<rparr>)\<rparr>"

definition demo_start :: "(nat, unit) os_ctrl" where
  "demo_start = \<lparr>cpu = \<lparr>gpr = (\<lambda>_. 0), spr = (\<lambda>_. 0), msr = 0, cr0_lt = False, mem = (\<lambda>_. 0),
       ppc_log = []\<rparr>,
     klog = [], world = 0, p_id = 0, cmd = OS_CTRL_TASK_CMD_NONE, os_ctrl_proc_file = None,
     timers = (\<lambda>_. \<lparr>ht_state = 0, ht_function = None, ht_expires = None\<rparr>),
     timer_int_delay = (\<lambda>_. Ktime 0 0), module_data = replicate 16 0,
     kill_app_signal = \<lparr>si_signo = 0, si_code = 0, si_int = 0\<rparr>,
     t_zero = \<lparr>tv_sec = 0, tv_nsec = 0\<rparr>, t_L1_inv_start = \<lparr>tv_sec = 0, tv_nsec = 0\<rparr>,
     t_L1_inv_end = \<lparr>tv_sec = 0, tv_nsec = 0\<rparr>, d_nvcsw = 0, d_nivcsw = 0, prf_ready = False,
     irq_enabled = True, last_enable = 0xFF, last_cmd = OS_CTRL_TASK_CMD_NONE,
     kern = blank_kst ()\<rparr>"

lemma demo_laws: "hrtimer_laws demo_env"
  by (simp add: hrtimer_laws_def demo_env_def HRTIMER_STATE_INACTIVE_def)

lemma demo_copy: "copy_from_user demo_env u w = (0, u)"
  by (simp add: demo_env_def)

lemma demo_current: "t_pid (k_task (kern demo_start) (k_current (kern demo_start))) = 1"
  by (simp add: demo_start_def blank_kst_def)

lemma demo_data: "length (module_data demo_start) = 16"
  by (simp add: demo_start_def)

lemma demo_unloaded: "unloaded demo_start"
  by (simp add: unloaded_def demo_start_def blank_kst_def force_sync_def timer_inactive_def
      HRTIMER_STATE_INACTIVE_def PROCFS_MAX_SIZE_def)

lemma demo_inv: "osc_inv demo_start"
  by (simp add: osc_inv_def demo_start_def blank_kst_def force_sync_def os_off_def)

text \<open>The module loaded, and the scheduler locked by a START of task 1.\<close>

definition demo_loaded :: "(nat, unit) os_ctrl" where
  "demo_loaded = exec (init_module demo_env) demo_start"

definition demo_locked :: "(nat, unit) os_ctrl" where
  "demo_locked = exec (on_written_handler demo_env
     (enc_pid 1 @ [OS_CTRL_TASK_CMD_DISABLE_OS] @ enc_u64 5)) demo_loaded"

lemma demo_loaded_reach: "os_reach demo_env demo_loaded"
  unfolding demo_loaded_def by (rule Loaded [OF demo_unloaded])

lemma demo_locked_reach: "os_reach demo_env demo_locked"
  unfolding demo_locked_def by (rule Step [OF demo_loaded_reach Written])

lemma demo_loaded_fields:
  "kern demo_loaded = kern demo_start" "length (module_data demo_loaded) = 16"
  "last_enable demo_loaded = 0xFF" "t_zero demo_loaded = \<lparr>tv_sec = 0, tv_nsec = 0\<rparr>"
  "last_cmd demo_loaded = OS_CTRL_TASK_CMD_NONE"
  "t_L1_inv_start demo_loaded = \<lparr>tv_sec = 0, tv_nsec = 0\<rparr>"
  "t_L1_inv_end demo_loaded = \<lparr>tv_sec = 0, tv_nsec = 0\<rparr>"
  by (simp_all add: demo_loaded_def init_module_def demo_env_def demo_start_def blank_kst_def
      set_pid_force_run_exec)

lemma demo_loaded_usable:
  "PROCFS_MAX_SIZE \<le> length (module_data demo_loaded)"
  "t_pid (k_task (kern demo_loaded) (k_current (kern demo_loaded))) = 1"
  by (simp_all add: demo_loaded_fields demo_current PROCFS_MAX_SIZE_def)

lemma demo_locked_off: "os_off demo_locked"
proof -
  have l: "last_enable demo_loaded \<noteq> OS_CTRL_OS_DISABLE"
    by (simp add: demo_loaded_fields OS_CTRL_OS_DISABLE_def)
  show ?thesis
    using start_effect [OF demo_laws os_reach_inv [OF demo_loaded_reach demo_laws] l demo_copy refl
        demo_loaded_usable, of 5]
    by (simp add: Let_def demo_locked_def os_locked_def os_off_def)
qed

theorem start_locks_witness:
  "os_locked 1 demo_locked \<and> p_id demo_locked = 1"
proof -
  have l: "last_enable demo_loaded \<noteq> OS_CTRL_OS_DISABLE"
    by (simp add: demo_loaded_fields OS_CTRL_OS_DISABLE_def)
  have b: "PROCFS_MAX_SIZE \<le> length (module_data demo_loaded)"
    by (simp add: demo_loaded_fields PROCFS_MAX_SIZE_def)
  have m: "t_pid (k_task (kern demo_loaded) (k_current (kern demo_loaded))) = 1"
    by (simp add: demo_loaded_fields demo_current)
  show ?thesis
    using start_locks [OF demo_laws demo_loaded_reach l demo_copy refl b m,
        of 5]
    by (simp add: Let_def demo_locked_def)
qed

theorem start_after_timeout_ignored_witness:
  "\<not> os_off (exec (on_written_handler demo_env
     (enc_pid 1 @ [OS_CTRL_TASK_CMD_DISABLE_OS] @ enc_u64 5)) (demo_start\<lparr>last_enable := 0\<rparr>))"
proof -
  let ?s = "demo_start\<lparr>last_enable := 0\<rparr>"
  have l: "last_enable ?s = OS_CTRL_OS_DISABLE" by (simp add: OS_CTRL_OS_DISABLE_def)
  have o: "\<not> os_off ?s" by (simp add: os_off_def demo_start_def blank_kst_def)
  have b: "PROCFS_MAX_SIZE \<le> length (module_data ?s)" by (simp add: demo_data PROCFS_MAX_SIZE_def)
  have m: "t_pid (k_task (kern ?s) (k_current (kern ?s))) = 1" by (simp add: demo_current)
  show ?thesis
    using start_after_timeout_ignored [OF l o demo_copy refl b m, of 5] by (simp add: Let_def)
qed

definition demo_stopped :: "(nat, unit) os_ctrl" where
  "demo_stopped = exec (on_written_handler demo_env (enc_pid 1 @ [OS_CTRL_TASK_CMD_ENABLE_OS])) demo_loaded"

lemma demo_can_start: "can_start demo_env 1 5 demo_loaded"
  by (simp add: can_start_def demo_loaded_reach demo_copy demo_loaded_usable)
    (simp add: demo_loaded_fields OS_CTRL_OS_DISABLE_def)

text \<open>A START and, after two voluntary switches of the process, its STOP.\<close>

definition demo_running :: "(nat, unit) os_ctrl" where
  "demo_running = demo_locked\<lparr>kern := exec (upd_task 1 (\<lambda>t. t\<lparr>t_nvcsw := t_nvcsw t + 2\<rparr>)) (kern demo_locked),
     cpu := cpu demo_locked, world := world demo_locked\<rparr>"

lemma demo_running_reach: "os_reach demo_env demo_running"
  unfolding demo_running_def by (rule Step [OF demo_locked_reach Others]) simp_all

lemma demo_running_meanwhile: "meanwhile demo_env demo_locked demo_running"
  unfolding demo_running_def by (rule System [OF Nothing]) simp_all

lemma demo_locked_kept:
  "length (module_data demo_locked) = 16" "k_task (kern demo_locked) = k_task (kern demo_start)"
  "k_current (kern demo_locked) = 1"
proof -
  let ?u = "enc_pid 1 @ [OS_CTRL_TASK_CMD_DISABLE_OS] @ enc_u64 5"
  have len: "length ?u = 13" by (simp add: enc_pid_def enc_u64_def)
  have fields: "dec_pid (take 4 ?u) = 1" "?u ! 4 = OS_CTRL_TASK_CMD_DISABLE_OS"
    by (simp_all add: dec_pid_enc_pid nth_append pidc.length_enc)
  have found: "result (find_task demo_env (dec_pid (take 4 ?u))) demo_loaded = Some (k_current (kern demo_loaded))"
    using demo_loaded_usable(2) unfolding fields by (rule find_current)
  have len': "length ?u = OS_CTRL_STOP_CMD_LENGTH \<or> length ?u = OS_CTRL_START_CMD_LENGTH"
    "length ?u \<le> length (module_data demo_loaded)"
    unfolding len by (simp_all add: protocol_defs demo_loaded_fields)
  define s1 where "s1 = exec (cancel_if_active demo_env Invalidate_L1_cache_timer) (request_state ?u demo_loaded)"
  have s1: "cmd s1 = OS_CTRL_TASK_CMD_DISABLE_OS" "kern s1 = kern demo_loaded" "length (module_data s1) = 16"
    using fields len' by (simp_all add: s1_def request_state_def cancel_if_active_run length_poke demo_loaded_fields)
  have e: "demo_locked = exec (handle_cmd demo_env (k_current (kern demo_loaded)) (request_delay ?u)) s1"
    unfolding demo_locked_def s1_def by (rule written_parsed(1) [OF demo_copy len' found])
  show "length (module_data demo_locked) = 16" "k_task (kern demo_locked) = k_task (kern demo_start)"
    unfolding e start_cmd_frame [OF s1(1)] s1(2,3) demo_loaded_fields by (rule refl)+
  show "k_current (kern demo_locked) = 1"
    unfolding e start_cmd_frame [OF s1(1)] s1(2) demo_loaded_fields by (simp add: demo_start_def blank_kst_def)
qed


lemma demo_fits: "os_fits demo_env [0, 0, 0] demo_locked"
proof -
  have "os_fits demo_env [0, 0, 0] demo_loaded"
    unfolding demo_loaded_def
    by (rule Fits_loaded [OF demo_unloaded]) (simp add: demo_start_def PROCFS_MAX_SIZE_def numeral_3_eq_3)
  then show ?thesis unfolding demo_locked_def
    by (rule Fits_written) (simp_all add: demo_copy PROCFS_MAX_SIZE_def enc_pid_def enc_u64_def)
qed


theorem reset_before_lock_unwatched_witness:
  "\<exists>s :: (nat, unit) os_ctrl. os_off s \<and> timer_inactive Sched_reset_timer s"
proof -
  have "force_sync (kern demo_start)" "(1 :: s32) \<noteq> 0"
    by (simp_all add: force_sync_def demo_start_def blank_kst_def)
  from reset_before_lock_unwatched [OF this demo_laws] show ?thesis by blast
qed

theorem watchdog_switches_on_witness:
  "\<not> os_off (exec (expire demo_env Sched_reset_timer) demo_locked)"
  using watchdog_switches_on [OF demo_laws demo_locked_reach demo_locked_off, of Sched_reset_timer]
  by simp

theorem cleanup_leaves_nothing_witness:
  "timer_inactive Sched_reset_timer (exec (cleanup_module demo_env) demo_locked)"
  using cleanup_leaves_nothing [OF demo_laws demo_locked_reach] by simp

theorem read_delivers_profile_witness:
  "snd (result (on_read_handler demo_env (replicate 10 0) 0) demo_stopped) = 10"
proof -
  have reach: "os_reach demo_env demo_stopped"
    unfolding demo_stopped_def by (rule Step [OF demo_loaded_reach Written])
  note st = stop_effect [OF demo_laws os_reach_inv [OF demo_loaded_reach demo_laws] demo_copy refl
      demo_loaded_usable, folded demo_stopped_def]
  have d: "delivers demo_stopped 0"
    by (simp add: delivers_def st demo_loaded_fields protocol_defs)
  have short: "\<bar>ns_of (t_L1_inv_end demo_stopped) - ns_of (t_L1_inv_start demo_stopped)\<bar> < 2 ^ 31"
    by (simp add: st demo_loaded_fields)
  show ?thesis
    using read_delivers_profile [OF demo_laws reach d short, of "replicate 10 0"]
    by (simp add: Let_def split: prod.splits)
qed

theorem long_write_overflows_witness:
  "drop PROCFS_MAX_SIZE (module_data (exec (on_written_handler demo_env (replicate 14 7)) demo_start)) =
   [7, 0, 0]"
  using long_write_overflows [where E = demo_env and user = "replicate 14 7" and s = demo_start]
  by (simp add: demo_copy demo_data PROCFS_MAX_SIZE_def) (simp add: demo_start_def numeral_eq_Suc)

theorem unknown_pid_refused_witness:
  "result (on_written_handler demo_env (enc_pid 200 @ [1])) demo_start = - ENOMEM"
proof -
  have n: "result (find_task demo_env (dec_pid (take 4 (enc_pid 200 @ [1])))) demo_start = None"
    by (simp add: pidc.length_enc dec_pid_enc_pid find_task_def)
      (simp add: demo_env_def demo_start_def blank_kst_def)
  show ?thesis
    using unknown_pid_refused [OF demo_copy _ _ n]
    by (simp add: protocol_defs demo_data Let_def enc_pid_def)
qed

end
