(* ===== verification/Profiling.thy ===== *)
theory Profiling
  imports Libprf Os_ctrl_correct
begin

text \<open>
  The library on top of the module: the read and write handlers of \<open>/proc/os_ctrl\<close> keep the
  contract \<open>profiler_device\<close> that \<open>libprf.c\<close> relies on, so that a profile taken with
  \<open>START_PROFILING\<close> and \<open>STOP_PROFILING\<close> is described end to end.
\<close>

text \<open>The states in which process \<open>pid\<close> can take a profile.\<close>

definition usable :: "'w os_env \<Rightarrow> s32 \<Rightarrow> ('w, 'x) os_ctrl \<Rightarrow> bool" where
  "usable E pid s \<longleftrightarrow> hrtimer_laws E \<and> osc_inv s \<and> (\<forall>u w. copy_from_user E u w = (0, u)) \<and>
     PROCFS_MAX_SIZE \<le> length (module_data s) \<and>
     t_pid (k_task (kern s) (k_current (kern s))) = pid \<and> last_cmd s \<noteq> OS_CTRL_TASK_CMD_ENABLE_OS"

text \<open>The profile that a stop request would produce in a state.\<close>

definition os_profile :: "('w, 'x) os_ctrl \<Rightarrow> profile" where
  "os_profile s = (let me = k_task (kern s) (k_current (kern s)) in
     (scast (ELAPSED (t_L1_inv_start s) (t_L1_inv_end s)),
      ucast (switches_since (d_nvcsw s) (t_nvcsw me) AND 0xFF),
      ucast (switches_since (d_nivcsw s) (t_nivcsw me) AND 0xFF)))"

lemma usable_stop:
  assumes "usable E pid s"
  shows "result (on_written_handler E (stop_request pid)) s = 5"
    and "result (on_read_handler E page 0) (exec (on_written_handler E (stop_request pid)) s) =
      (poke 0 (profile_encoding (os_profile s)) page, 10)"
proof -
  have u: "hrtimer_laws E" "osc_inv s" "copy_from_user E (stop_request pid) (world s) = (0, stop_request pid)"
    "PROCFS_MAX_SIZE \<le> length (module_data s)" "t_pid (k_task (kern s) (k_current (kern s))) = pid"
    "last_cmd s \<noteq> OS_CTRL_TASK_CMD_ENABLE_OS"
    using assms by (simp_all add: usable_def)
  note stop = stop_effect [OF u(1,2,3) _ u(4,5), unfolded stop_request_def [symmetric], OF refl]
  show "result (on_written_handler E (stop_request pid)) s = 5" by (rule stop(1))
  let ?t = "exec (on_written_handler E (stop_request pid)) s"
  have "delivers ?t 0" using stop u(6) by (simp add: delivers_def)
  moreover have "profile_bytes ?t = profile_encoding (os_profile s)"
    by (simp add: profile_bytes_def profile_encoding_def os_profile_def Let_def stop)
  ultimately show "result (on_read_handler E page 0) ?t =
      (poke 0 (profile_encoding (os_profile s)) page, 10)"
    by (simp add: read_result)
qed

lemma usable_start:
  assumes "usable E pid s"
  shows "result (on_written_handler E (start_request pid us)) s = 13"
    and "usable E pid (exec (on_written_handler E (start_request pid us)) s)"
proof -
  let ?u = "start_request pid us"
  have u: "hrtimer_laws E" "osc_inv s" "copy_from_user E ?u (world s) = (0, ?u)"
    "PROCFS_MAX_SIZE \<le> length (module_data s)" "t_pid (k_task (kern s) (k_current (kern s))) = pid"
    "last_cmd s \<noteq> OS_CTRL_TASK_CMD_ENABLE_OS"
    using assms by (simp_all add: usable_def)
  have len: "length ?u = 13" by (simp add: start_request_def)
  have fields: "dec_pid (take 4 ?u) = pid" "?u ! 4 = OS_CTRL_TASK_CMD_DISABLE_OS"
    by (simp_all add: start_request_def dec_pid_enc_pid nth_append)
  have found: "result (find_task E (dec_pid (take 4 ?u))) s = Some (k_current (kern s))"
    using u(5) fields by (simp add: find_current)
  have len': "length ?u = OS_CTRL_STOP_CMD_LENGTH \<or> length ?u = OS_CTRL_START_CMD_LENGTH"
    "length ?u \<le> length (module_data s)"
    using len u(4) by (simp_all add: protocol_defs PROCFS_MAX_SIZE_def)
  note run = written_parsed [OF u(3) len' found]
  show "result (on_written_handler E ?u) s = 13" by (simp add: run len)
  define s1 where "s1 = exec (cancel_if_active E Invalidate_L1_cache_timer) (request_state ?u s)"
  have s1: "cmd s1 = OS_CTRL_TASK_CMD_DISABLE_OS" "kern s1 = kern s" "last_cmd s1 = last_cmd s"
    "length (module_data s1) = length (module_data s)"
    using fields len' by (simp_all add: s1_def request_state_def cancel_if_active_run length_poke)
  have "osc_inv (exec (on_written_handler E ?u) s)" by (rule written_inv [OF u(1,2)])
  then show "usable E pid (exec (on_written_handler E ?u) s)"
    using assms start_cmd_frame [OF s1(1)] s1 unfolding run(1) s1_def [symmetric] usable_def by simp
qed

interpretation os_file: profiler_device "on_written_handler E" "on_read_handler E" pid "usable E pid" os_profile
  for E pid
  by unfold_locales (simp_all add: usable_start usable_stop)

subsection \<open>A profile from end to end\<close>

text \<open>Between the two calls timers of the module expire and the rest of the system runs
  (\<open>meanwhile\<close>). What a request reads back of the module is not changed by that.\<close>

definition request_fields :: "('w, 'x) os_ctrl \<Rightarrow> u8 list \<times> u8" where
  "request_fields s = (module_data s, last_cmd s)"

lemma request_fields_upd [simp]:
  "request_fields (s\<lparr>klog := l\<rparr>) = request_fields s" "request_fields (s\<lparr>world := w\<rparr>) = request_fields s"
  "request_fields (s\<lparr>timers := h\<rparr>) = request_fields s" "request_fields (s\<lparr>kern := k\<rparr>) = request_fields s"
  "request_fields (s\<lparr>irq_enabled := b\<rparr>) = request_fields s" "request_fields (s\<lparr>cpu := m\<rparr>) = request_fields s"
  "request_fields (s\<lparr>t_L1_inv_start := t1\<rparr>) = request_fields s"
  "request_fields (s\<lparr>t_L1_inv_end := t1\<rparr>) = request_fields s"
  by (simp_all add: request_fields_def)

lemma keeps_request_fields [keeps_intros]:
  "keeps request_fields (in_kern m)" "keeps request_fields IRQ_ENABLE"
  "keeps request_fields (call_timer t g)" "keeps request_fields (find_task E p)"
  by (simp_all add: keeps_def)

lemma expire_request_fields:
  fixes s :: "('w, 'x) os_ctrl"
  shows "request_fields (exec (expire E x) s) = request_fields s"
proof -
  have "keeps (request_fields :: ('w, 'x) os_ctrl \<Rightarrow> _) (run_handler E f)" for f
  proof (cases f)
    case Invalidate_L1_cache_interrupt_handler
    have "request_fields (exec (invalidate_L1_cache_interrupt_handler E) s) = request_fields s"
      for s :: "('w, 'x) os_ctrl"
    proof -
      obtain m l w a b where "exec (invalidate_L1_cache_interrupt_handler E) s =
          s\<lparr>cpu := m, klog := l, world := w, t_L1_inv_start := a, t_L1_inv_end := b\<rparr>"
        using invalidate_frame [of E s] by blast
      then show ?thesis by simp
    qed
    with Invalidate_L1_cache_interrupt_handler show ?thesis by (simp add: keeps_def run_handler_def)
  next
    case Kill_application_interrupt_handler
    then show ?thesis
      by (auto simp: run_handler_def kill_application_interrupt_handler_def intro!: keeps_intros)
  next
    case Sched_reset_interrupt_handler
    then show ?thesis
      by (auto simp: run_handler_def sched_reset_interrupt_handler_def intro!: keeps_intros)
  qed
  then have "request_fields (exec (run_handler E f) s) = request_fields s" for f by (rule keepsD)
  then show ?thesis by (simp add: expire_def upd_timer_def split: option.split)
qed

lemma meanwhile_usable:
  assumes "meanwhile E s t" and "usable E pid s"
    and "t_pid (k_task (kern t) (k_current (kern t))) = pid"
  shows "usable E pid t"
proof -
  have "osc_inv s" using assms(2) by (simp add: usable_def)
  with assms(1) have "osc_inv t \<and> request_fields t = request_fields s"
    by induction (simp_all add: expire_inv expire_request_fields osc_inv_system)
  with assms(2,3) show ?thesis by (simp add: usable_def request_fields_def)
qed

text \<open>C9. The library and the module together. Process \<open>pid\<close> calls \<open>START_PROFILING\<close>; timers
  expire and the system runs on; it calls \<open>STOP_PROFILING\<close>. If no call of the C library fails,
  the start is reported as a success, and the stop answers the verdict on the time between
  the two clock readings and on the profile the module has then: its cache invalidation time
  and the low bytes of the context switch counts.\<close>

theorem start_stop_measures:
  fixes s :: "('w, 'x) os_ctrl libprf"
  defines "F E \<equiv> \<lparr>dev_write = on_written_handler E, dev_read = on_read_handler E\<rparr>"
  assumes "libc_works pid L" and "usable E pid (device s)"
    and "meanwhile E (device (exec (START_PROFILING L (F E) us) s)) d"
    and "t_pid (k_task (kern d) (k_current (kern d))) = pid"
    and "clock_gettime L (device (exec (START_PROFILING L (F E) us) s)) = Some t0"
    and "clock_gettime L d = Some t1"
  shows "result (START_PROFILING L (F E) us) s = LIBPRF_SUCCESS \<and>
    result (STOP_PROFILING L (F E)) ((exec (START_PROFILING L (F E) us) s)\<lparr>device := d\<rparr>) =
      Some (verdict (scast (ELAPSED t0 t1)) (os_profile d))"
proof -
  note st = os_file.start_sends [OF assms(2,3), of us, folded F_def]
  have "usable E pid (device (exec (START_PROFILING L (F E) us) s))"
    using assms(3) by (simp add: st usable_start)
  from meanwhile_usable [OF assms(4) this assms(5)] have d: "usable E pid d" .
  let ?s2 = "(exec (START_PROFILING L (F E) us) s)\<lparr>device := d\<rparr>"
  have "Libprf.t_start ?s2 = t0" using assms(6) by (simp add: st)
  then show ?thesis
    using os_file.stop_measures [OF assms(2), of E ?s2 t1, folded F_def] st(1) d assms(7) by simp
qed

lemma uint_elapsed:
  "uint (scast (w :: s32) :: u64) = (if sint w < 0 then 2 ^ 64 + sint w else sint w)"
proof -
  have r: "- 2147483648 \<le> sint w" "sint w < 2147483648"
    using sint_ge [of w] sint_lt [of w] by simp_all
  have u: "uint (scast w :: u64) = sint w mod 18446744073709551616"
    by (simp only: scast_eq unsigned_of_int of_int_eq_id id_apply take_bit_eq_mod) simp
  show ?thesis
  proof (cases "sint w < 0")
    case True
    have "sint w mod 18446744073709551616 = (18446744073709551616 + sint w) mod 18446744073709551616"
      by simp
    also have "\<dots> = 18446744073709551616 + sint w" using r True by (intro mod_pos_pos_trivial) auto
    finally show ?thesis using True u by simp
  next
    case False
    then have "sint w mod 18446744073709551616 = sint w" using r by (intro mod_pos_pos_trivial) auto
    with False u show ?thesis by simp
  qed
qed

text \<open>The verdict is the net time when the measured time fits in the 32-bit \<open>long\<close> of the
  target: elapsed less invalidation time, a success exactly if that is positive and the
  switch counts are zero.\<close>

theorem verdict_short_run:
  assumes "ns_of t0 \<le> ns_of t1" and "ns_of t1 - ns_of t0 < 2 ^ 31"
  shows "let el = ns_of t1 - ns_of t0; (status, m) = verdict (scast (ELAPSED t0 t1)) (dt, nv, niv) in
    uint m = max 0 (el - uint dt) \<and>
    (status = LIBPRF_SUCCESS \<longleftrightarrow> uint dt < el \<and> nv = 0 \<and> niv = 0) \<and>
    (status = LIBPRF_SUCCESS \<or> status = LIBPRF_ERR_KM_BAD_VALUE)"
proof -
  have "sint (ELAPSED t0 t1) = ns_of t1 - ns_of t0" using assms by (intro ELAPSED_exact) simp
  then have "uint (scast (ELAPSED t0 t1) :: u64) = ns_of t1 - ns_of t0"
    using assms by (simp add: uint_elapsed)
  then show ?thesis
    by (auto simp: verdict_def Let_def word_less_def uint_sub_if' word_eq_iff_unsigned
        libprf_status_defs)
qed

text \<open>A run between 2.147 s and 4.295 s, less than half of the time-out of 10 s, is reported
  as a success with a measured time of more than 580 years: the elapsed time overflows
  \<open>long\<close> and is extended with its sign.\<close>

theorem verdict_long_run:
  assumes "2 ^ 31 \<le> ns_of t1 - ns_of t0" and "ns_of t1 - ns_of t0 < 2 ^ 32"
    and "uint dt < 2 ^ 31"
  shows "fst (verdict (scast (ELAPSED t0 t1)) (dt, 0, 0)) = LIBPRF_SUCCESS \<and>
    uint (snd (verdict (scast (ELAPSED t0 t1)) (dt, 0, 0))) =
      2 ^ 64 - 2 ^ 32 + (ns_of t1 - ns_of t0) - uint dt"
proof -
  have "sint (ELAPSED t0 t1) = ns_of t1 - ns_of t0 - 2 ^ 32"
    using assms(1,2) by (simp add: sint_ELAPSED signed_take_bit_eq_take_bit_shift take_bit_eq_mod
        mod_pos_geq mod_pos_pos_trivial)
  then have "uint (scast (ELAPSED t0 t1) :: u64) = 2 ^ 64 - 2 ^ 32 + (ns_of t1 - ns_of t0)"
    using assms(1,2) by (simp add: uint_elapsed)
  with assms show ?thesis
    by (auto simp: verdict_def word_less_def uint_sub_if' libprf_status_defs)
qed

subsection \<open>Concrete profiles\<close>

lemma demo_usable: "usable demo_env 1 demo_loaded"
  using os_reach_inv [OF demo_loaded_reach demo_laws] demo_loaded_usable
  by (simp add: usable_def demo_laws demo_copy demo_loaded_fields protocol_defs)

theorem start_stop_measures_witness:
  "result (START_PROFILING (demo_libc \<lparr>tv_sec = 0, tv_nsec = 100\<rparr>)
      \<lparr>dev_write = on_written_handler demo_env, dev_read = on_read_handler demo_env\<rparr> 5)
     (demo_client demo_loaded) = LIBPRF_SUCCESS"
proof -
  let ?t = "\<lparr>tv_sec = 0, tv_nsec = 100\<rparr>" and ?s = "demo_client demo_loaded"
  let ?F = "\<lparr>dev_write = on_written_handler demo_env, dev_read = on_read_handler demo_env\<rparr>"
  have u: "usable demo_env 1 (device ?s)" by (simp add: demo_client_def demo_usable)
  have d: "device (exec (START_PROFILING (demo_libc ?t) ?F 5) ?s) =
      exec (on_written_handler demo_env (start_request 1 5)) demo_loaded"
    using os_file.start_sends(2) [OF demo_libc_works u, of ?t 5] by (simp add: demo_client_def)
  have c: "t_pid (k_task (kern (device (exec (START_PROFILING (demo_libc ?t) ?F 5) ?s)))
      (k_current (kern (device (exec (START_PROFILING (demo_libc ?t) ?F 5) ?s))))) = 1"
    using usable_start(2) [OF demo_usable, of 5] unfolding d usable_def by simp
  show ?thesis
    using start_stop_measures [OF demo_libc_works u Nothing c, of ?t] by (simp add: demo_libc_def)
qed

theorem verdict_short_run_witness:
  "verdict (scast (ELAPSED \<lparr>tv_sec = 1, tv_nsec = 999999000\<rparr> \<lparr>tv_sec = 2, tv_nsec = 500\<rparr>)) (300, 0, 0) =
     (LIBPRF_SUCCESS, 1200)"
proof -
  let ?a = "\<lparr>tv_sec = 1, tv_nsec = 999999000\<rparr>" and ?b = "\<lparr>tv_sec = 2, tv_nsec = 500\<rparr>"
  obtain st m where v: "verdict (scast (ELAPSED ?a ?b)) (300, 0, 0) = (st, m)" by fastforce
  have ns: "ns_of ?a = 1999999000" "ns_of ?b = 2000000500" by (simp_all add: ns_of_def)
  have "uint m = 1200 \<and> st = LIBPRF_SUCCESS"
    using verdict_short_run [of ?a ?b 300 0 0] by (simp add: ns v Let_def)
  then have "m = 1200" "st = LIBPRF_SUCCESS" by (simp_all add: word_uint_eqI)
  with v show ?thesis by simp
qed

theorem verdict_long_run_witness:
  "2 ^ 63 < uint (snd (verdict (scast (ELAPSED \<lparr>tv_sec = 1, tv_nsec = 0\<rparr> \<lparr>tv_sec = 4, tv_nsec = 0\<rparr>))
     (300, 0, 0)))"
proof -
  let ?a = "\<lparr>tv_sec = 1, tv_nsec = 0\<rparr>" and ?b = "\<lparr>tv_sec = 4, tv_nsec = 0\<rparr>"
  have ns: "ns_of ?a = 1000000000" "ns_of ?b = 4000000000" by (simp_all add: ns_of_def)
  have h: "2 ^ 31 \<le> ns_of ?b - ns_of ?a" "ns_of ?b - ns_of ?a < 2 ^ 32" "uint (300 :: u64) < 2 ^ 31"
    by (simp_all add: ns)
  show ?thesis unfolding conjunct2 [OF verdict_long_run [OF h]] by (simp add: ns)
qed

end
