(* ===== verification/Sched_wakeup.thy ===== *)
theory Sched_wakeup
  imports Sched_core
begin

text \<open>
  \<open>sched_mod.c\<close>: tasks on and off a runqueue (\<open>enqueue_task\<close> to \<open>deactivate_task\<close>), moving
  them between CPUs (\<open>set_task_cpu\<close>, \<open>migrate_task\<close>, \<open>pull_task\<close>), asking a CPU to
  reschedule, \<open>try_to_wake_up\<close>, and the life of a new task (\<open>sched_fork\<close>,
  \<open>wake_up_new_task\<close>).
\<close>

subsection \<open>Task states and flags\<close>

definition TASK_RUNNING :: u32 where "TASK_RUNNING = 0"
definition TASK_INTERRUPTIBLE :: u32 where "TASK_INTERRUPTIBLE = 1"
definition TASK_UNINTERRUPTIBLE :: u32 where "TASK_UNINTERRUPTIBLE = 2"
definition TASK_DEAD :: u32 where "TASK_DEAD = 64"
definition TASK_WAKING :: u32 where "TASK_WAKING = 256"
definition PF_FREEZING :: u32 where "PF_FREEZING = 0x00004000"
definition PF_THREAD_BOUND :: u32 where "PF_THREAD_BOUND = 0x04000000"
definition WF_SYNC :: u32 where "WF_SYNC = 1"
definition WF_FORK :: u32 where "WF_FORK = 2"
definition SD_BALANCE_EXEC :: u32 where "SD_BALANCE_EXEC = 4"
definition SD_BALANCE_FORK :: u32 where "SD_BALANCE_FORK = 8"
definition SD_BALANCE_WAKE :: u32 where "SD_BALANCE_WAKE = 16"

lemmas task_state_defs = TASK_RUNNING_def TASK_INTERRUPTIBLE_def TASK_UNINTERRUPTIBLE_def
  TASK_DEAD_def TASK_WAKING_def

definition task_contributes_to_load :: "task_struct \<Rightarrow> bool" where
  "task_contributes_to_load t \<longleftrightarrow>
     t_state t AND TASK_UNINTERRUPTIBLE \<noteq> 0 \<and> t_flags t AND PF_FREEZING = 0"

subsection \<open>On and off a runqueue\<close>

definition inc_nr_running :: "cpu \<Rightarrow> ('x kst, unit) state" where
  "inc_nr_running rq = upd_rq rq (\<lambda>r. r\<lparr>rq_nr_running := rq_nr_running r + 1\<rparr>)"

definition dec_nr_running :: "cpu \<Rightarrow> ('x kst, unit) state" where
  "dec_nr_running rq = upd_rq rq (\<lambda>r. r\<lparr>rq_nr_running := rq_nr_running r - 1\<rparr>)"

definition enqueue_task :: "'x kops \<Rightarrow> cpu \<Rightarrow> task \<Rightarrow> bool \<Rightarrow> ('x kst, unit) state" where
  "enqueue_task K rq p wakeup = do {
     when_m wakeup (upd_se p (\<lambda>e. e\<lparr>se_start_runtime := se_sum_exec_runtime e\<rparr>));
     c \<leftarrow> task_get p t_sched_class;
     op_enqueue_task (classes K) c rq p wakeup;
     upd_se p (\<lambda>e. e\<lparr>se_on_rq := True\<rparr>) }"

definition dequeue_task :: "'x kops \<Rightarrow> cpu \<Rightarrow> task \<Rightarrow> bool \<Rightarrow> ('x kst, unit) state" where
  "dequeue_task K rq p sleep = do {
     when_m sleep (do {
       last \<leftarrow> task_get p (\<lambda>t. se_last_wakeup (t_se t));
       if last \<noteq> 0 then do {
         upd_se p (\<lambda>e. e\<lparr>se_avg_overlap :=
           update_avg (se_avg_overlap e) (se_sum_exec_runtime e - se_last_wakeup e)\<rparr>);
         upd_se p (\<lambda>e. e\<lparr>se_last_wakeup := 0\<rparr>) }
       else do {
         g \<leftarrow> gets (\<lambda>s. sysctl_sched_wakeup_granularity (k_sysctl s));
         upd_se p (\<lambda>e. e\<lparr>se_avg_wakeup := update_avg (se_avg_wakeup e) (ucast g)\<rparr>) } });
     c \<leftarrow> task_get p t_sched_class;
     op_dequeue_task (classes K) c rq p sleep;
     upd_se p (\<lambda>e. e\<lparr>se_on_rq := False\<rparr>) }"

definition activate_task :: "'x kops \<Rightarrow> cpu \<Rightarrow> task \<Rightarrow> bool \<Rightarrow> ('x kst, unit) state" where
  "activate_task K rq p wakeup = do {
     c \<leftarrow> task_get p task_contributes_to_load;
     when_m c (upd_rq rq (\<lambda>r. r\<lparr>rq_nr_uninterruptible := rq_nr_uninterruptible r - 1\<rparr>));
     enqueue_task K rq p wakeup;
     inc_nr_running rq }"

definition deactivate_task :: "'x kops \<Rightarrow> cpu \<Rightarrow> task \<Rightarrow> bool \<Rightarrow> ('x kst, unit) state" where
  "deactivate_task K rq p sleep = do {
     c \<leftarrow> task_get p task_contributes_to_load;
     when_m c (upd_rq rq (\<lambda>r. r\<lparr>rq_nr_uninterruptible := rq_nr_uninterruptible r + 1\<rparr>));
     dequeue_task K rq p sleep;
     dec_nr_running rq }"

definition check_preempt_curr :: "'x kops \<Rightarrow> cpu \<Rightarrow> task \<Rightarrow> u32 \<Rightarrow> ('x kst, unit) state" where
  "check_preempt_curr K rq p flags = do {
     c \<leftarrow> gets (\<lambda>s. t_sched_class (k_task s (rq_curr (k_rq s rq))));
     op_check_preempt_curr (classes K) c rq p flags }"

definition check_class_changed ::
    "'x kops \<Rightarrow> cpu \<Rightarrow> task \<Rightarrow> sched_class \<Rightarrow> int \<Rightarrow> bool \<Rightarrow> ('x kst, unit) state" where
  "check_class_changed K rq p prev_class oldprio running = do {
     c \<leftarrow> task_get p t_sched_class;
     if prev_class \<noteq> c then do {
       (case op_switched_from (classes K) prev_class of
          Some f \<Rightarrow> f rq p running
        | None \<Rightarrow> skip);
       c' \<leftarrow> task_get p t_sched_class;
       op_switched_to (classes K) c' rq p running }
     else op_prio_changed (classes K) c rq p oldprio running }"

subsection \<open>Asking for a reschedule\<close>

definition resched_task :: "task \<Rightarrow> ('x kst, unit) state" where
  "resched_task p = do {
     need \<leftarrow> task_get p t_need_resched;
     if need then skip else do {
       upd_task p (\<lambda>t. t\<lparr>t_need_resched := True\<rparr>);
       cpu \<leftarrow> task_get p t_cpu;
       this \<leftarrow> gets k_this_cpu;
       if cpu = this then skip else do {
         polling \<leftarrow> task_get p t_polling;
         when_m (\<not> polling) (log_event (Send_reschedule cpu)) } } }"

definition resched_cpu :: "'x kops \<Rightarrow> cpu \<Rightarrow> ('x kst, unit) state" where
  "resched_cpu K cpu = do {
     got \<leftarrow> gets (\<lambda>s. spin_trylock_ok (services K) (Rq_lock cpu) (k_ext s));
     if \<not> got then skip else do {
       flags \<leftarrow> spin_lock_irqsave (Rq_lock cpu);
       curr \<leftarrow> rq_get cpu rq_curr;
       resched_task curr;
       spin_unlock_irqrestore (Rq_lock cpu) flags } }"

definition wake_up_idle_cpu :: "cpu \<Rightarrow> ('x kst, unit) state" where
  "wake_up_idle_cpu cpu = do {
     this \<leftarrow> gets k_this_cpu;
     if cpu = this then skip else do {
       curr \<leftarrow> rq_get cpu rq_curr;
       idle \<leftarrow> rq_get cpu rq_idle;
       if curr \<noteq> idle then skip else do {
         upd_task idle (\<lambda>t. t\<lparr>t_need_resched := True\<rparr>);
         polling \<leftarrow> task_get idle t_polling;
         when_m (\<not> polling) (log_event (Send_reschedule cpu)) } } }"

definition kick_process :: "task \<Rightarrow> ('x kst, unit) state" where
  "kick_process p = do {
     log_event Preempt_disable;
     cpu \<leftarrow> task_get p t_cpu;
     this \<leftarrow> gets k_this_cpu;
     running \<leftarrow> task_curr p;
     when_m (cpu \<noteq> this \<and> running) (log_event (Send_reschedule cpu));
     log_event Preempt_enable }"

subsection \<open>Moving between CPUs\<close>

definition task_hot :: "'x kops \<Rightarrow> task \<Rightarrow> u64 \<Rightarrow> ('x kst, bool) state" where
  "task_hot K p now = do {
     buddy \<leftarrow> sched_feat K CACHE_HOT_BUDDY;
     busy \<leftarrow> gets (\<lambda>s. rq_nr_running (k_rq s (k_this_cpu s)) \<noteq> 0);
     cfs \<leftarrow> gets (\<lambda>s. rq_cfs (k_rq s (t_cpu (k_task s p))));
     if buddy \<and> busy \<and> (cfs_next cfs = Some p \<or> cfs_last cfs = Some p) then ret True
     else do {
       c \<leftarrow> task_get p t_sched_class;
       cost \<leftarrow> gets (\<lambda>s. sysctl_sched_migration_cost (k_sysctl s));
       start \<leftarrow> task_get p (\<lambda>t. se_exec_start (t_se t));
       ret (if c \<noteq> Fair_sched_class then False
            else if cost = - 1 then True
            else if cost = 0 then False
            else sint (now - start) < sint (ucast cost :: s64)) } }"

definition set_task_cpu_raw :: "task \<Rightarrow> cpu \<Rightarrow> ('x kst, unit) state" where
  "set_task_cpu_raw p cpu = upd_task p (\<lambda>t. t\<lparr>t_cpu := cpu\<rparr>)"

definition set_task_cpu :: "task \<Rightarrow> cpu \<Rightarrow> ('x kst, unit) state" where
  "set_task_cpu p new_cpu = do {
     old_cpu \<leftarrow> task_get p t_cpu;
     when_m (old_cpu \<noteq> new_cpu) (do {
       upd_se p (\<lambda>e. e\<lparr>se_nr_migrations := se_nr_migrations e + 1\<rparr>);
       upd_rq new_cpu (\<lambda>r. r\<lparr>rq_nr_migrations_in := rq_nr_migrations_in r + 1\<rparr>) });
     old_min \<leftarrow> rq_get old_cpu (\<lambda>r. cfs_min_vruntime (rq_cfs r));
     new_min \<leftarrow> rq_get new_cpu (\<lambda>r. cfs_min_vruntime (rq_cfs r));
     upd_se p (\<lambda>e. e\<lparr>se_vruntime := se_vruntime e - (old_min - new_min)\<rparr>);
     set_task_cpu_raw p new_cpu }"

definition init_completion :: "nat \<Rightarrow> ('x kst, unit) state" where
  "init_completion x =
     modify (\<lambda>s. s\<lparr>k_done := (k_done s)(x := 0), k_wait := (k_wait s)(x := [])\<rparr>)"

definition upd_req :: "nat \<Rightarrow> (migration_req \<Rightarrow> migration_req) \<Rightarrow> ('x kst, unit) state" where
  "upd_req q f = modify (\<lambda>s. s\<lparr>k_req := (k_req s)(q := f (k_req s q))\<rparr>)"

definition migrate_task :: "task \<Rightarrow> cpu \<Rightarrow> nat \<Rightarrow> ('x kst, bool) state" where
  "migrate_task p dest_cpu req = do {
     rq \<leftarrow> task_get p t_cpu;
     on_rq \<leftarrow> task_get p (\<lambda>t. se_on_rq (t_se t));
     running \<leftarrow> task_running rq p;
     if \<not> on_rq \<and> \<not> running then do { set_task_cpu p dest_cpu; ret False }
     else do {
       init_completion req;
       upd_req req (\<lambda>r. r\<lparr>mr_task := Some p\<rparr>);
       upd_req req (\<lambda>r. r\<lparr>mr_dest_cpu := dest_cpu\<rparr>);
       upd_rq rq (\<lambda>r. r\<lparr>rq_migration_queue := req # rq_migration_queue r\<rparr>);
       ret True } }"

definition pull_task :: "'x kops \<Rightarrow> cpu \<Rightarrow> task \<Rightarrow> cpu \<Rightarrow> cpu \<Rightarrow> ('x kst, unit) state" where
  "pull_task K src_rq p this_rq this_cpu = do {
     deactivate_task K src_rq p False;
     set_task_cpu p this_cpu;
     activate_task K this_rq p False;
     check_preempt_curr K this_rq p 0 }"

subsection \<open>Waking a task\<close>

text \<open>The three exits of \<open>try_to_wake_up\<close>: \<open>out\<close>, \<open>out_running\<close> and \<open>out_activate\<close>.\<close>

definition ttwu_out :: "cpu \<Rightarrow> bool \<Rightarrow> bool \<Rightarrow> ('x kst, bool) state" where
  "ttwu_out rq flags success = do {
     task_rq_unlock rq flags;
     log_event Preempt_enable;
     ret success }"

definition ttwu_out_running ::
    "'x kops \<Rightarrow> cpu \<Rightarrow> bool \<Rightarrow> task \<Rightarrow> u32 \<Rightarrow> bool \<Rightarrow> ('x kst, bool) state" where
  "ttwu_out_running K rq flags p wake_flags success = do {
     check_preempt_curr K rq p wake_flags;
     upd_task p (\<lambda>t. t\<lparr>t_state := TASK_RUNNING\<rparr>);
     c \<leftarrow> task_get p t_sched_class;
     (case op_task_wake_up (classes K) c of Some f \<Rightarrow> f rq p | None \<Rightarrow> skip);
     ttwu_out rq flags success }"

definition ttwu_out_activate ::
    "'x kops \<Rightarrow> cpu \<Rightarrow> bool \<Rightarrow> task \<Rightarrow> u32 \<Rightarrow> ('x kst, bool) state" where
  "ttwu_out_activate K rq flags p wake_flags = do {
     activate_task K rq p True;
     irq \<leftarrow> gets (\<lambda>s. in_interrupt (services K) (k_ext s));
     when_m (\<not> irq) (do {
       me \<leftarrow> gets k_current;
       se \<leftarrow> task_get me t_se;
       let sample = se_sum_exec_runtime se -
         (if se_last_wakeup se \<noteq> 0 then se_last_wakeup se else se_start_runtime se);
       upd_se me (\<lambda>e. e\<lparr>se_avg_wakeup := update_avg (se_avg_wakeup e) sample\<rparr>);
       upd_se me (\<lambda>e. e\<lparr>se_last_wakeup := se_sum_exec_runtime e\<rparr>) });
     ttwu_out_running K rq flags p wake_flags True }"

text \<open>The part for a task that is neither queued nor running: it is marked \<open>TASK_WAKING\<close>, the
  runqueue is unlocked while the class chooses a CPU, and the task is activated there.\<close>

definition ttwu_select ::
    "'x kops \<Rightarrow> cpu \<Rightarrow> bool \<Rightarrow> cpu \<Rightarrow> task \<Rightarrow> u32 \<Rightarrow> ('x kst, bool) state" where
  "ttwu_select K rq flags orig_cpu p wake_flags = do {
     c \<leftarrow> task_get p task_contributes_to_load;
     when_m c (upd_rq rq (\<lambda>r. r\<lparr>rq_nr_uninterruptible := rq_nr_uninterruptible r - 1\<rparr>));
     upd_task p (\<lambda>t. t\<lparr>t_state := TASK_WAKING\<rparr>);
     task_rq_unlock rq flags;
     cls \<leftarrow> task_get p t_sched_class;
     cpu \<leftarrow> op_select_task_rq (classes K) cls p SD_BALANCE_WAKE wake_flags;
     when_m (cpu \<noteq> orig_cpu) (set_task_cpu p cpu);
     (rq', flags') \<leftarrow> task_rq_lock p;
     when_m (rq' \<noteq> rq) (update_rq_clock K rq');
     waking \<leftarrow> task_get p (\<lambda>t. t_state t = TASK_WAKING);
     when_m (\<not> waking) (log_event Warn);
     ttwu_out_activate K rq' flags' p wake_flags }"

definition try_to_wake_up :: "'x kops \<Rightarrow> task \<Rightarrow> u32 \<Rightarrow> u32 \<Rightarrow> ('x kst, bool) state" where
  "try_to_wake_up K p st wake_flags0 = do {
     sync \<leftarrow> sched_feat K SYNC_WAKEUPS;
     let wake_flags = (if sync then wake_flags0 else wake_flags0 AND NOT WF_SYNC);
     log_event Preempt_disable;
     (rq, flags) \<leftarrow> task_rq_lock p;
     update_rq_clock K rq;
     pstate \<leftarrow> task_get p t_state;
     if pstate AND st = 0 then ttwu_out rq flags False
     else do {
       on_rq \<leftarrow> task_get p (\<lambda>t. se_on_rq (t_se t));
       if on_rq then ttwu_out_running K rq flags p wake_flags False
       else do {
         orig_cpu \<leftarrow> task_get p t_cpu;
         running \<leftarrow> task_running rq p;
         if running then ttwu_out_activate K rq flags p wake_flags
         else ttwu_select K rq flags orig_cpu p wake_flags } } }"

definition TASK_NORMAL :: u32 where "TASK_NORMAL = TASK_INTERRUPTIBLE OR TASK_UNINTERRUPTIBLE"
definition TASK_ALL :: u32 where "TASK_ALL = TASK_NORMAL OR 4 OR 8"

definition wake_up_process :: "'x kops \<Rightarrow> task \<Rightarrow> ('x kst, bool) state" where
  "wake_up_process K p = try_to_wake_up K p TASK_ALL 0"

text \<open>A runqueue's migration thread is woken without a look whether there is one.\<close>

definition wake_thread :: "'x kops \<Rightarrow> task option \<Rightarrow> ('x kst, unit) state" where
  "wake_thread K thread = (case thread of
     Some p \<Rightarrow> do { _ \<leftarrow> wake_up_process K p; skip }
   | None \<Rightarrow> log_event Sched_bug)"

definition wake_up_state :: "'x kops \<Rightarrow> task \<Rightarrow> u32 \<Rightarrow> ('x kst, bool) state" where
  "wake_up_state K p st = try_to_wake_up K p st 0"


text \<open>
  Waiting for a task to leave its CPU. Each turn may let the other CPUs run; the loops end
  when they do (fuel bounds the number of turns).
\<close>

definition wait_task_context_switch :: "nat \<Rightarrow> 'x kops \<Rightarrow> task \<Rightarrow> ('x kst, unit option) state" where
  "wait_task_context_switch fuel K p = do {
     nvcsw \<leftarrow> task_get p t_nvcsw;
     nivcsw \<leftarrow> task_get p t_nivcsw;
     loop_m fuel (\<lambda>_. do {
       (rq, flags) \<leftarrow> task_rq_lock p;
       running \<leftarrow> task_running rq p;
       task_rq_unlock rq flags;
       if \<not> running then ret (Inr ())
       else do {
         v \<leftarrow> task_get p t_nvcsw;
         i \<leftarrow> task_get p t_nivcsw;
         if 1 < v - nvcsw then ret (Inr ())
         else if 1 < i - nivcsw then ret (Inr ())
         else do { cpu_relax (others K); ret (Inl ()) } } }) () }"

definition LONG_MIN :: u32 where "LONG_MIN = 0x80000000"

text \<open>The busy wait at the top of \<open>wait_task_inactive\<close>: \<open>Some True\<close> if the task changed
  state meanwhile (the caller returns 0), \<open>Some False\<close> once it is off the CPU.\<close>

definition wait_while_running ::
    "nat \<Rightarrow> 'x kops \<Rightarrow> task \<Rightarrow> cpu \<Rightarrow> u32 \<Rightarrow> ('x kst, bool option) state" where
  "wait_while_running fuel K p rq match_state = loop_m fuel (\<lambda>_. do {
     running \<leftarrow> task_running rq p;
     if \<not> running then ret (Inr False)
     else do {
       st \<leftarrow> task_get p t_state;
       if match_state \<noteq> 0 \<and> st \<noteq> match_state then ret (Inr True)
       else do { cpu_relax (others K); ret (Inl ()) } } }) ()"

definition wait_task_inactive :: "nat \<Rightarrow> 'x kops \<Rightarrow> task \<Rightarrow> u32 \<Rightarrow> ('x kst, u32 option) state" where
  "wait_task_inactive fuel K p match_state = do {
     r \<leftarrow> loop_m fuel (\<lambda>_. do {
       rq0 \<leftarrow> task_get p t_cpu;
       w \<leftarrow> wait_while_running fuel K p rq0 match_state;
       (case w of
          None \<Rightarrow> ret (Inr None)
        | Some True \<Rightarrow> ret (Inr (Some 0))
        | Some False \<Rightarrow> do {
            (rq, flags) \<leftarrow> task_rq_lock p;
            running \<leftarrow> task_running rq p;
            on_rq \<leftarrow> task_get p (\<lambda>t. se_on_rq (t_se t));
            st \<leftarrow> task_get p t_state;
            nv \<leftarrow> task_get p t_nvcsw;
            let ncsw = (if match_state = 0 \<or> st = match_state then nv OR LONG_MIN else 0);
            task_rq_unlock rq flags;
            if ncsw = 0 then ret (Inr (Some ncsw))
            else if running then do { cpu_relax (others K); ret (Inl ()) }
            else if on_rq then do { _ \<leftarrow> schedule_timeout (others K) 1; ret (Inl ()) }
            else ret (Inr (Some ncsw)) }) }) ();
     ret (case r of Some x \<Rightarrow> x | None \<Rightarrow> None) }"

definition kthread_bind :: "nat \<Rightarrow> 'x kops \<Rightarrow> task \<Rightarrow> cpu \<Rightarrow> ('x kst, unit option) state" where
  "kthread_bind fuel K p cpu = do {
     w \<leftarrow> wait_task_inactive fuel K p TASK_UNINTERRUPTIBLE;
     (case w of
        None \<Rightarrow> ret None
      | Some n \<Rightarrow>
          if n = 0 then do { log_event Warn; ret (Some ()) }
          else do {
            flags \<leftarrow> spin_lock_irqsave (Rq_lock cpu);
            set_task_cpu p cpu;
            upd_task p (\<lambda>t. t\<lparr>t_cpus_allowed := {cpu}\<rparr>);
            upd_task p (\<lambda>t. t\<lparr>t_nr_cpus_allowed := 1\<rparr>);
            upd_task p (\<lambda>t. t\<lparr>t_flags := t_flags t OR PF_THREAD_BOUND\<rparr>);
            spin_unlock_irqrestore (Rq_lock cpu) flags;
            ret (Some ()) }) }"

subsection \<open>New tasks\<close>

definition sched_fork_init :: "task \<Rightarrow> ('x kst, unit) state" where
  "sched_fork_init p = do {
     g \<leftarrow> gets (\<lambda>s. sysctl_sched_wakeup_granularity (k_sysctl s));
     upd_se p (\<lambda>e. e\<lparr>se_exec_start := 0, se_sum_exec_runtime := 0, se_prev_sum_exec_runtime := 0,
       se_nr_migrations := 0, se_last_wakeup := 0, se_avg_overlap := 0, se_start_runtime := 0,
       se_avg_wakeup := ucast g, se_avg_running := 0\<rparr>);
     upd_se p (\<lambda>e. e\<lparr>se_on_rq := False\<rparr>);
     upd_task p (\<lambda>t. t\<lparr>t_state := TASK_RUNNING\<rparr>) }"

text \<open>The reversion to default attributes that \<open>sched_reset_on_fork\<close> asks for.\<close>

definition reset_on_fork :: "task \<Rightarrow> ('x kst, unit) state" where
  "reset_on_fork p = do {
     reset \<leftarrow> task_get p t_sched_reset_on_fork;
     when_m reset (do {
       rt \<leftarrow> task_get p (\<lambda>t. t_policy t = SCHED_FIFO \<or> t_policy t = SCHED_RR);
       when_m rt (do {
         upd_task p (\<lambda>t. t\<lparr>t_policy := SCHED_NORMAL\<rparr>);
         upd_task p (\<lambda>t. t\<lparr>t_normal_prio := t_static_prio t\<rparr>) });
       neg \<leftarrow> task_get p (\<lambda>t. PRIO_TO_NICE (t_static_prio t) < 0);
       when_m neg (do {
         upd_task p (\<lambda>t. t\<lparr>t_static_prio := NICE_TO_PRIO 0\<rparr>);
         upd_task p (\<lambda>t. t\<lparr>t_normal_prio := t_static_prio t\<rparr>);
         set_load_weight p });
       upd_task p (\<lambda>t. t\<lparr>t_sched_reset_on_fork := False\<rparr>) }) }"

definition sched_fork :: "'x kops \<Rightarrow> task \<Rightarrow> ('x kst, unit) state" where
  "sched_fork K p = do {
     log_event Preempt_disable;
     sched_fork_init p;
     reset_on_fork p;
     np \<leftarrow> gets (\<lambda>s. t_normal_prio (k_task s (k_current s)));
     upd_task p (\<lambda>t. t\<lparr>t_prio := np\<rparr>);
     rt \<leftarrow> task_get p (\<lambda>t. rt_prio (t_prio t));
     when_m (\<not> rt) (upd_task p (\<lambda>t. t\<lparr>t_sched_class := Fair_sched_class\<rparr>));
     cls \<leftarrow> task_get p t_sched_class;
     cpu \<leftarrow> op_select_task_rq (classes K) cls p SD_BALANCE_FORK 0;
     set_task_cpu p cpu;
     log_event Preempt_enable }"

definition wake_up_new_task :: "'x kops \<Rightarrow> task \<Rightarrow> ('x kst, unit) state" where
  "wake_up_new_task K p = do {
     (rq, flags) \<leftarrow> task_rq_lock p;
     running \<leftarrow> task_get p (\<lambda>t. t_state t = TASK_RUNNING);
     if \<not> running then log_event Sched_bug
     else do {
       update_rq_clock K rq;
       cls \<leftarrow> task_get p t_sched_class;
       cur_on_rq \<leftarrow> gets (\<lambda>s. se_on_rq (t_se (k_task s (k_current s))));
       (case op_task_new (classes K) cls of
          None \<Rightarrow> activate_task K rq p False
        | Some f \<Rightarrow> if \<not> cur_on_rq then activate_task K rq p False
            else do { f rq p; inc_nr_running rq });
       check_preempt_curr K rq p WF_FORK;
       cls' \<leftarrow> task_get p t_sched_class;
       (case op_task_wake_up (classes K) cls' of Some f \<Rightarrow> f rq p | None \<Rightarrow> skip);
       task_rq_unlock rq flags } }"

subsection \<open>What the scheduling classes leave alone\<close>

text \<open>A scheduling class queues, dequeues and compares tasks. Of what is observed below it writes one
  thing: the fair class sets and clears the on-queue flag (\<open>se.on_rq\<close>) of the task it is
  given, which \<open>enqueue_task\<close> and \<open>dequeue_task\<close> then write once more. The contract of a class
  is therefore stated up to that flag.\<close>

definition wake_obs :: "'x kst \<Rightarrow> task \<Rightarrow> u32 \<times> bool \<times> sched_class" where
  "wake_obs s p = (let t = k_task s p in (t_state t, se_on_rq (t_se t), t_sched_class t))"

definition count_obs :: "'x kst \<Rightarrow> (task \<Rightarrow> u32 \<times> u32 \<times> cpu) \<times> (cpu \<Rightarrow> u32 \<times> u32)" where
  "count_obs s = ((\<lambda>p. let t = k_task s p in (t_state t, t_flags t, t_cpu t)),
     (\<lambda>c. let r = k_rq s c in (rq_nr_running r, rq_nr_uninterruptible r)))"

definition set_on_rq :: "task \<Rightarrow> bool \<Rightarrow> 'x kst \<Rightarrow> 'x kst" where
  "set_on_rq p v = exec (upd_se p (\<lambda>e. e\<lparr>se_on_rq := v\<rparr>))"

text \<open>Enqueueing and dequeueing a task change of an observation at most what the on-queue flag of this
  task contributes to it; the choice of a CPU and the check for preemption change nothing of it.\<close>

definition queue_ops_keep :: "('x kst \<Rightarrow> 'v) \<Rightarrow> 'x kops \<Rightarrow> bool" where
  "queue_ops_keep obs K \<longleftrightarrow> (\<forall>c rq p b f.
     (\<forall>v. keeps (\<lambda>s. obs (set_on_rq p v s)) (op_enqueue_task (classes K) c rq p b)) \<and>
     (\<forall>v. keeps (\<lambda>s. obs (set_on_rq p v s)) (op_dequeue_task (classes K) c rq p b)) \<and>
     keeps obs (op_check_preempt_curr (classes K) c rq p f) \<and>
     (\<forall>g. keeps obs (op_select_task_rq (classes K) c p f g)))"

text \<open>A wake-up also calls the operation \<open>task_wake_up\<close> of the class. The real-time class pushes
  other tasks to other CPUs in it: it moves tasks and changes counts of runqueues, but a task it moves is
  queued again before it returns.\<close>

definition wake_ops_keep :: "('x kst \<Rightarrow> 'v) \<Rightarrow> 'x kops \<Rightarrow> bool" where
  "wake_ops_keep obs K \<longleftrightarrow> queue_ops_keep obs K \<and>
     (\<forall>c rq p m. op_task_wake_up (classes K) c = Some m \<longrightarrow> keeps obs (m rq p))"

lemma queue_ops_keepD:
  assumes "queue_ops_keep obs K"
  shows "obs (set_on_rq p v (exec (op_enqueue_task (classes K) c rq p b) s)) = obs (set_on_rq p v s)"
    and "obs (set_on_rq p v (exec (op_dequeue_task (classes K) c rq p b) s)) = obs (set_on_rq p v s)"
    and "obs (exec (op_check_preempt_curr (classes K) c rq p f) s) = obs s"
    and "obs (exec (op_select_task_rq (classes K) c p f g) s) = obs s"
  using assms unfolding queue_ops_keep_def keeps_def by blast+

lemma queue_ops_keep_blind:
  assumes "queue_ops_keep obs K" and "\<And>p v s. obs (set_on_rq p v s) = obs s"
  shows "keeps obs (op_enqueue_task (classes K) c rq p b)" "keeps obs (op_dequeue_task (classes K) c rq p b)"
    "keeps obs (op_check_preempt_curr (classes K) c rq p f)" "keeps obs (op_select_task_rq (classes K) c p f g)"
  using queue_ops_keepD [OF assms(1)] by (simp_all add: keeps_def assms(2))

lemma wake_ops_keepD:
  assumes "wake_ops_keep obs K"
  shows "queue_ops_keep obs K"
    and "op_task_wake_up (classes K) c = Some m \<Longrightarrow> obs (exec (m rq p) s) = obs s"
  using assms unfolding wake_ops_keep_def keeps_def by blast+

text \<open>Whatever the class wrote into the flag, \<open>enqueue_task\<close> and \<open>dequeue_task\<close> leave it set
  and clear.\<close>

lemma enqueue_task_obs:
  assumes "queue_ops_keep obs K"
  shows "obs (exec (enqueue_task K rq p w) s) =
    obs (set_on_rq p True (exec (when_m w (upd_se p (\<lambda>e. e\<lparr>se_start_runtime := se_sum_exec_runtime e\<rparr>))) s))"
proof -
  define s1 where "s1 = exec (when_m w (upd_se p (\<lambda>e. e\<lparr>se_start_runtime := se_sum_exec_runtime e\<rparr>))) s"
  have "exec (enqueue_task K rq p w) s =
      set_on_rq p True (exec (op_enqueue_task (classes K) (t_sched_class (k_task s1 p)) rq p w) s1)"
    unfolding enqueue_task_def set_on_rq_def s1_def by (simp only: exec_bind kst_access)
  then show ?thesis by (simp add: queue_ops_keepD [OF assms] s1_def)
qed

definition sleep_stats :: "task \<Rightarrow> ('x kst, unit) state" where
  "sleep_stats p = do {
     last \<leftarrow> task_get p (\<lambda>t. se_last_wakeup (t_se t));
     if last \<noteq> 0 then do {
       upd_se p (\<lambda>e. e\<lparr>se_avg_overlap :=
         update_avg (se_avg_overlap e) (se_sum_exec_runtime e - se_last_wakeup e)\<rparr>);
       upd_se p (\<lambda>e. e\<lparr>se_last_wakeup := 0\<rparr>) }
     else do {
       g \<leftarrow> gets (\<lambda>s. sysctl_sched_wakeup_granularity (k_sysctl s));
       upd_se p (\<lambda>e. e\<lparr>se_avg_wakeup := update_avg (se_avg_wakeup e) (ucast g)\<rparr>) } }"

lemma dequeue_task_obs:
  assumes "queue_ops_keep obs K"
  shows "obs (exec (dequeue_task K rq p w) s) = obs (set_on_rq p False (exec (when_m w (sleep_stats p)) s))"
proof -
  define s1 where "s1 = exec (when_m w (sleep_stats p)) s"
  have "exec (dequeue_task K rq p w) s =
      set_on_rq p False (exec (op_dequeue_task (classes K) (t_sched_class (k_task s1 p)) rq p w) s1)"
    unfolding dequeue_task_def set_on_rq_def s1_def sleep_stats_def by (simp only: exec_bind kst_access)
  then show ?thesis by (simp add: queue_ops_keepD [OF assms] s1_def)
qed

subsection \<open>Wake-ups, seen through \<open>wake_obs\<close>\<close>

lemma wake_obs_upd [simp]:
  "wake_obs (s\<lparr>k_rq := r\<rparr>) = wake_obs s" "wake_obs (s\<lparr>k_log := l\<rparr>) = wake_obs s"
  "wake_obs (s\<lparr>k_irqs_off := b\<rparr>) = wake_obs s" "wake_obs (s\<lparr>k_ext := x\<rparr>) = wake_obs s"
  "wake_obs (s\<lparr>k_task := (k_task s)(p := t)\<rparr>) =
     (wake_obs s)(p := (t_state t, se_on_rq (t_se t), t_sched_class t))"
  by (simp_all add: wake_obs_def Let_def fun_eq_iff)

lemma wake_obs_same: "wake_obs s p = (t_state (k_task s p), se_on_rq (t_se (k_task s p)), t_sched_class (k_task s p))"
  by (simp add: wake_obs_def Let_def)

lemma wake_update_rq_clock [simp]: "wake_obs (exec (update_rq_clock K c) s) = wake_obs s"
  by (simp add: update_rq_clock_def)

lemma wake_fields:
  "t_state (k_task s p) = fst (wake_obs s p)" "se_on_rq (t_se (k_task s p)) = fst (snd (wake_obs s p))"
  "t_sched_class (k_task s p) = snd (snd (wake_obs s p))"
  by (simp_all add: wake_obs_def Let_def)

lemma wake_on_rq [simp]:
  "wake_obs (set_on_rq p v s) = (wake_obs s)(p := (fst (wake_obs s p), v, snd (snd (wake_obs s p))))"
  by (simp add: set_on_rq_def wake_fields)

lemma wake_enqueue:
  assumes "queue_ops_keep wake_obs K"
  shows "wake_obs (exec (enqueue_task K rq p w) s) =
     (wake_obs s)(p := (fst (wake_obs s p), True, snd (snd (wake_obs s p))))"
  by (simp add: enqueue_task_obs [OF assms] wake_fields fun_eq_iff)

lemma wake_activate:
  assumes "queue_ops_keep wake_obs K"
  shows "wake_obs (exec (activate_task K rq p w) s) =
     (wake_obs s)(p := (fst (wake_obs s p), True, snd (snd (wake_obs s p))))"
  by (simp add: activate_task_def inc_nr_running_def wake_enqueue [OF assms])

lemma wake_out_running:
  assumes "wake_ops_keep wake_obs K"
  shows "wake_obs (exec (ttwu_out_running K rq fl p f b) s) =
     (wake_obs s)(p := (TASK_RUNNING, snd (wake_obs s p)))"
    and "result (ttwu_out_running K rq fl p f b) s = b"
  by (simp_all add: ttwu_out_running_def ttwu_out_def check_preempt_curr_def wake_fields
      queue_ops_keepD [OF wake_ops_keepD(1) [OF assms]] wake_ops_keepD(2) [OF assms] split: option.split)

lemma wake_out_activate:
  assumes "wake_ops_keep wake_obs K"
  shows "wake_obs (exec (ttwu_out_activate K rq fl p f) s) =
     (wake_obs s)(p := (TASK_RUNNING, True, snd (snd (wake_obs s p))))"
    and "result (ttwu_out_activate K rq fl p f) s = True"
  by (simp_all add: ttwu_out_activate_def wake_out_running [OF assms] wake_activate [OF wake_ops_keepD(1) [OF assms]]
      wake_fields Let_def fun_eq_iff)

lemma wake_set_task_cpu [simp]: "wake_obs (exec (set_task_cpu p c) s) = wake_obs s"
  by (simp add: set_task_cpu_def set_task_cpu_raw_def wake_fields)

lemma wake_state_upd [simp]:
  "wake_obs (exec (upd_task p (\<lambda>t. t\<lparr>t_state := st\<rparr>)) s) = (wake_obs s)(p := (st, snd (wake_obs s p)))"
  by (simp add: wake_fields)

lemma wake_locks [simp]:
  "wake_obs (exec (task_rq_lock p) s) = wake_obs s" "wake_obs (exec (task_rq_unlock c f) s) = wake_obs s"
  by simp_all

lemma wake_select:
  assumes ops: "wake_ops_keep wake_obs K"
  shows "wake_obs (exec (ttwu_select K rq fl oc p f) s) =
     (wake_obs s)(p := (TASK_RUNNING, True, snd (snd (wake_obs s p))))"
    and "result (ttwu_select K rq fl oc p f) s = True"
proof -
  let ?c = "task_contributes_to_load (k_task s p)"
  define s1 where "s1 = exec (when_m ?c (upd_rq rq (\<lambda>r. r\<lparr>rq_nr_uninterruptible := rq_nr_uninterruptible r - 1\<rparr>))) s"
  define s2 where "s2 = exec (upd_task p (\<lambda>t. t\<lparr>t_state := TASK_WAKING\<rparr>)) s1"
  define s3 where "s3 = exec (task_rq_unlock rq fl) s2"
  define op where "op = op_select_task_rq (classes K) (t_sched_class (k_task s3 p)) p SD_BALANCE_WAKE f"
  define s4 where "s4 = exec op s3"
  define s5 where "s5 = exec (when_m (result op s3 \<noteq> oc) (set_task_cpu p (result op s3))) s4"
  have "wake_obs s1 = wake_obs s" by (simp add: s1_def)
  moreover have "wake_obs s2 = (wake_obs s1)(p := (TASK_WAKING, snd (wake_obs s1 p)))"
    unfolding s2_def by (rule wake_state_upd)
  moreover have "wake_obs s3 = wake_obs s2" unfolding s3_def by (rule wake_locks)
  moreover have "wake_obs s4 = wake_obs s3" by (simp add: s4_def op_def queue_ops_keepD [OF wake_ops_keepD(1) [OF ops]])
  moreover have "wake_obs s5 = wake_obs s4" by (simp add: s5_def)
  ultimately have s5: "wake_obs s5 = (wake_obs s)(p := (TASK_WAKING, snd (wake_obs s p)))" by simp
  have run: "exec (ttwu_select K rq fl oc p f) s =
      exec (do { (rq', flags') \<leftarrow> task_rq_lock p; when_m (rq' \<noteq> rq) (update_rq_clock K rq');
        waking \<leftarrow> task_get p (\<lambda>t. t_state t = TASK_WAKING); when_m (\<not> waking) (log_event Warn);
        ttwu_out_activate K rq' flags' p f }) s5"
    "result (ttwu_select K rq fl oc p f) s =
      result (do { (rq', flags') \<leftarrow> task_rq_lock p; when_m (rq' \<noteq> rq) (update_rq_clock K rq');
        waking \<leftarrow> task_get p (\<lambda>t. t_state t = TASK_WAKING); when_m (\<not> waking) (log_event Warn);
        ttwu_out_activate K rq' flags' p f }) s5"
    unfolding ttwu_select_def s5_def s4_def op_def s3_def s2_def s1_def
    by (simp_all only: exec_bind result_bind kst_access)
  show "wake_obs (exec (ttwu_select K rq fl oc p f) s) =
     (wake_obs s)(p := (TASK_RUNNING, True, snd (snd (wake_obs s p))))"
    unfolding run
    by (simp add: wake_out_activate [OF ops] s5 fun_eq_iff)
  show "result (ttwu_select K rq fl oc p f) s = True"
    unfolding run by (simp add: wake_out_activate [OF ops])
qed

text \<open>The three ways through \<open>try_to_wake_up\<close>.\<close>

lemma try_to_wake_up_obs:
  assumes ops: "wake_ops_keep wake_obs K"
  shows "wake_obs (exec (try_to_wake_up K p st f) s) =
     (if fst (wake_obs s p) AND st = 0 then wake_obs s
      else (wake_obs s)(p := (TASK_RUNNING, True, snd (snd (wake_obs s p)))))"
    and "result (try_to_wake_up K p st f) s \<longleftrightarrow>
      fst (wake_obs s p) AND st \<noteq> 0 \<and> \<not> fst (snd (wake_obs s p))"
  by (auto simp: try_to_wake_up_def Let_def wake_out_activate [OF ops] wake_out_running [OF ops]
      wake_select [OF ops] wake_fields ttwu_out_def sched_feat_def task_running_def task_current_def
      fun_eq_iff prod_eq_iff)

text \<open>C11. \<open>try_to_wake_up\<close>: a task whose state is not in the mask is left alone and the answer is no;
  any other task ends up runnable and queued, and the answer says whether this call queued
  it. The state and queue flag of every other task stay as they were. Hence a second wake-up
  of the same task answers no. (Of a class it is assumed that it leaves state, flag and class of
  the tasks as they are, up to the flag of the task it is told to queue.)\<close>

theorem wake_up_effect:
  assumes "wake_ops_keep wake_obs K"
  defines "t \<equiv> \<lambda>s p. k_task s p"
  shows "let s' = exec (try_to_wake_up K p st f) s; r = result (try_to_wake_up K p st f) s in
    (if t_state (t s p) AND st = 0
     then \<not> r \<and> t_state (t s' p) = t_state (t s p) \<and> se_on_rq (t_se (t s' p)) = se_on_rq (t_se (t s p))
     else t_state (t s' p) = TASK_RUNNING \<and> se_on_rq (t_se (t s' p)) \<and>
       (r \<longleftrightarrow> \<not> se_on_rq (t_se (t s p)))) \<and>
    (\<forall>q. q \<noteq> p \<longrightarrow> t_state (t s' q) = t_state (t s q) \<and>
       se_on_rq (t_se (t s' q)) = se_on_rq (t_se (t s q))) \<and>
    \<not> result (try_to_wake_up K p st f) s'"
  using try_to_wake_up_obs [OF assms(1), of p st f]
  by (simp add: t_def Let_def wake_fields TASK_RUNNING_def)

subsection \<open>Counting tasks\<close>

definition nr_obs :: "'x kst \<Rightarrow> cpu \<Rightarrow> u32 \<times> u32" where
  "nr_obs s c = (rq_nr_running (k_rq s c), rq_nr_uninterruptible (k_rq s c))"

definition place_obs :: "'x kst \<Rightarrow> task \<Rightarrow> u32 \<times> u32 \<times> cpu" where
  "place_obs s p = (t_state (k_task s p), t_flags (k_task s p), t_cpu (k_task s p))"

lemma count_obs_split: "count_obs s = (place_obs s, nr_obs s)"
  by (simp add: count_obs_def nr_obs_def place_obs_def fun_eq_iff Let_def)

lemma count_keepD:
  assumes "queue_ops_keep count_obs K"
  shows "nr_obs (exec (op_enqueue_task (classes K) c rq p b) s) = nr_obs s"
    "place_obs (exec (op_enqueue_task (classes K) c rq p b) s) = place_obs s"
    "nr_obs (exec (op_dequeue_task (classes K) c rq p b) s) = nr_obs s"
    "place_obs (exec (op_dequeue_task (classes K) c rq p b) s) = place_obs s"
    "nr_obs (exec (op_check_preempt_curr (classes K) c rq p g) s) = nr_obs s"
    "place_obs (exec (op_check_preempt_curr (classes K) c rq p g) s) = place_obs s"
proof -
  have "count_obs (set_on_rq p v s) = count_obs s" for p v and s :: "'a kst"
    by (simp add: count_obs_def set_on_rq_def fun_eq_iff Let_def)
  note k = queue_ops_keep_blind [OF assms this, unfolded keeps_def count_obs_split prod.inject]
  show "nr_obs (exec (op_enqueue_task (classes K) c rq p b) s) = nr_obs s"
    "place_obs (exec (op_enqueue_task (classes K) c rq p b) s) = place_obs s"
    "nr_obs (exec (op_dequeue_task (classes K) c rq p b) s) = nr_obs s"
    "place_obs (exec (op_dequeue_task (classes K) c rq p b) s) = place_obs s"
    "nr_obs (exec (op_check_preempt_curr (classes K) c rq p g) s) = nr_obs s"
    "place_obs (exec (op_check_preempt_curr (classes K) c rq p g) s) = place_obs s"
    using k by blast+
qed

lemma count_fields:
  "rq_nr_running (k_rq s c) = fst (nr_obs s c)" "rq_nr_uninterruptible (k_rq s c) = snd (nr_obs s c)"
  "t_state (k_task s p) = fst (place_obs s p)" "t_flags (k_task s p) = fst (snd (place_obs s p))"
  "t_cpu (k_task s p) = snd (snd (place_obs s p))"
  by (simp_all add: nr_obs_def place_obs_def)

lemma obs_se [simp]:
  "nr_obs (exec (upd_se p g) s) = nr_obs s" "place_obs (exec (upd_se p g) s) = place_obs s"
  by (simp_all add: nr_obs_def place_obs_def fun_eq_iff)

lemma obs_dequeue:
  assumes "queue_ops_keep count_obs K"
  shows "nr_obs (exec (dequeue_task K rq p b) s) = nr_obs s"
    and "place_obs (exec (dequeue_task K rq p b) s) = place_obs s"
    and "nr_obs (exec (enqueue_task K rq p b) s) = nr_obs s"
    and "place_obs (exec (enqueue_task K rq p b) s) = place_obs s"
  unfolding dequeue_task_def enqueue_task_def
  by (simp_all add: count_keepD [OF assms] del: kst_access(2))

definition contributes :: "'x kst \<Rightarrow> task \<Rightarrow> u32" where
  "contributes s p = (if task_contributes_to_load (k_task s p) then 1 else 0)"

lemma contributes_place: "place_obs t = place_obs s \<Longrightarrow> contributes t p = contributes s p"
  by (simp add: contributes_def task_contributes_to_load_def count_fields)

lemma obs_rq [simp]:
  "nr_obs (exec (upd_rq c h) s) =
     (nr_obs s)(c := (rq_nr_running (h (k_rq s c)), rq_nr_uninterruptible (h (k_rq s c))))"
  "place_obs (exec (upd_rq c h) s) = place_obs s"
  by (simp_all add: nr_obs_def place_obs_def fun_eq_iff)

lemma obs_activate:
  assumes "queue_ops_keep count_obs K"
  shows "nr_obs (exec (activate_task K rq p b) s) = (nr_obs s)(rq :=
      (fst (nr_obs s rq) + 1, snd (nr_obs s rq) - contributes s p))"
    and "place_obs (exec (activate_task K rq p b) s) = place_obs s"
    and "nr_obs (exec (deactivate_task K rq p b) s) = (nr_obs s)(rq :=
      (fst (nr_obs s rq) - 1, snd (nr_obs s rq) + contributes s p))"
    and "place_obs (exec (deactivate_task K rq p b) s) = place_obs s"
  unfolding activate_task_def deactivate_task_def inc_nr_running_def dec_nr_running_def contributes_def
  by (simp_all add: obs_dequeue [OF assms] count_fields fun_eq_iff del: kst_access(3))

lemma obs_set_task_cpu:
  "nr_obs (exec (set_task_cpu p c) s) = nr_obs s"
  "place_obs (exec (set_task_cpu p c) s) = (place_obs s)(p := (fst (place_obs s p), fst (snd (place_obs s p)), c))"
  by (simp_all add: set_task_cpu_def set_task_cpu_raw_def nr_obs_def place_obs_def fun_eq_iff)

text \<open>C12. Moving a queued task to another CPU conserves the counts: one runnable task less there and
  one more here, the sum of the uninterruptible counts unchanged (each alone may go below
  zero, modulo 2^32), every other runqueue untouched, and the task now belongs to this CPU. (Of a
  class it is assumed that queueing, dequeueing and the check for preemption leave the counts of
  the runqueues and the tasks' states, flags and CPUs alone.)\<close>

theorem pull_task_conserves:
  assumes "queue_ops_keep count_obs K" and "src \<noteq> this"
  shows "let s' = exec (pull_task K src p this this) s;
      run = \<lambda>s c. rq_nr_running (k_rq s c); un = \<lambda>s c. rq_nr_uninterruptible (k_rq s c) in
    run s' src = run s src - 1 \<and> run s' this = run s this + 1 \<and>
    un s' src + un s' this = un s src + un s this \<and>
    (\<forall>c. c \<noteq> src \<longrightarrow> c \<noteq> this \<longrightarrow> run s' c = run s c \<and> un s' c = un s c) \<and>
    t_cpu (k_task s' p) = this \<and> (\<forall>q. q \<noteq> p \<longrightarrow> t_cpu (k_task s' q) = t_cpu (k_task s q))"
proof -
  define s1 where "s1 = exec (deactivate_task K src p False) s"
  define s2 where "s2 = exec (set_task_cpu p this) s1"
  define s3 where "s3 = exec (activate_task K this p False) s2"
  define s4 where "s4 = exec (check_preempt_curr K this p 0) s3"
  note act = obs_activate [OF assms(1)]
  have c: "contributes s2 p = contributes s p"
    by (simp add: contributes_def task_contributes_to_load_def count_fields s2_def s1_def
        obs_set_task_cpu act)
  have nr: "nr_obs s4 = (nr_obs s)(src := (fst (nr_obs s src) - 1, snd (nr_obs s src) + contributes s p),
      this := (fst (nr_obs s this) + 1, snd (nr_obs s this) - contributes s p))"
    using assms(2) c by (simp add: s4_def check_preempt_curr_def count_keepD [OF assms(1)] s3_def act
        s2_def obs_set_task_cpu s1_def fun_eq_iff)
  have pl: "place_obs s4 = (place_obs s)(p := (fst (place_obs s p), fst (snd (place_obs s p)), this))"
    by (simp add: s4_def check_preempt_curr_def count_keepD [OF assms(1)] s3_def act
        s2_def obs_set_task_cpu s1_def)
  have "exec (pull_task K src p this this) s = s4"
    by (simp add: pull_task_def s4_def s3_def s2_def s1_def)
  then show ?thesis using assms(2) by (simp add: Let_def count_fields nr pl)
qed

text \<open>A task keeps its place in the virtual time of its queue when it changes CPU: the distance
  of its virtual runtime from the minimum of the runqueue it belongs to is the same before and
  after, and a migration is counted, at both ends, exactly if the CPU is a new one.\<close>

theorem set_task_cpu_keeps_lag:
  "let s' = exec (set_task_cpu p c) s; old = t_cpu (k_task s p); d = (if old = c then 0 else 1);
     vmin = \<lambda>s c. cfs_min_vruntime (rq_cfs (k_rq s c)); se = \<lambda>s. t_se (k_task s p) in
   se_vruntime (se s') - vmin s' c = se_vruntime (se s) - vmin s old \<and> t_cpu (k_task s' p) = c \<and>
   se_nr_migrations (se s') = se_nr_migrations (se s) + d \<and>
   rq_nr_migrations_in (k_rq s' c) = rq_nr_migrations_in (k_rq s c) + d"
  by (simp add: set_task_cpu_def set_task_cpu_raw_def Let_def)

subsection \<open>New tasks\<close>

lemma table_at_nice0: "table_at prio_to_weight 20 = Some 1024" "table_at prio_to_wmult 20 = Some 4194304"
  by (simp_all add: table_at_def prio_to_weight_def prio_to_wmult_def)

lemma load_weight_nice0:
  assumes "\<not> task_has_rt_policy t" and "t_policy t \<noteq> SCHED_IDLE" and "t_static_prio t = 120"
  shows "load_weight_of t = Some nice0_load"
  using assms by (simp add: load_weight_of_def prio_consts table_at_nice0 nice0_load_def)

text \<open>A child of a task that asked for a reset of its scheduling attributes gets none that
  need a privilege: no real-time policy and a nice level of at least 0, and the request is not
  inherited. Its load weight is only set anew when the nice level changed: a real-time parent
  with a nice level of 0 or more leaves its weight, twice that of nice -20, to the child.\<close>

theorem reset_on_fork_drops_privileges:
  assumes "prio_wf (k_task s p)" and "t_sched_reset_on_fork (k_task s p)"
  shows "let t = k_task s p; t' = k_task (exec (reset_on_fork p) s) p in
    \<not> task_has_rt_policy t' \<and> 0 \<le> PRIO_TO_NICE (t_static_prio t') \<and> \<not> t_sched_reset_on_fork t' \<and>
    (task_has_rt_policy t \<or> PRIO_TO_NICE (t_static_prio t) < 0 \<longrightarrow> t_normal_prio t' = t_static_prio t') \<and>
    (if PRIO_TO_NICE (t_static_prio t) < 0
     then load_weight_of t' = Some (se_load (t_se t'))
     else se_load (t_se t') = se_load (t_se t))"
proof -
  let ?t = "k_task s p"
  have rt: "task_has_rt_policy ?t = (t_policy ?t = SCHED_FIFO \<or> t_policy ?t = SCHED_RR)"
    by (simp add: task_has_rt_policy_def rt_policy_def)
  have wt: "load_weight_of t = Some (if t_policy t = 5
      then \<lparr>lw_weight = WEIGHT_IDLEPRIO, lw_inv = WMULT_IDLEPRIO\<rparr> else nice0_load)"
    if "t_static_prio t = 120" "t_policy t \<noteq> 1" "t_policy t \<noteq> 2" for t
    using that by (simp add: load_weight_of_def task_has_rt_policy_def rt_policy_def policy_consts
        prio_consts table_at_nice0 nice0_load_def)
  show ?thesis
    using assms(2)
    by (auto simp: reset_on_fork_def Let_def rt set_load_weight_def PRIO_TO_NICE_def NICE_TO_PRIO_def
        wt task_has_rt_policy_def rt_policy_def policy_consts prio_consts
        split: option.split)
qed

text \<open>The reset does not reach the priority the child runs at: \<open>sched_fork\<close> takes it from the
  parent. The child of a real-time task that asked for a reset has a normal policy but starts
  at its parent's real-time priority, in its parent's class.\<close>

theorem sched_fork_keeps_rt_prio:
  fixes K :: "'x kops"
  assumes "queue_ops_keep (\<lambda>s q. (t_prio (k_task s q), t_policy (k_task s q), t_sched_class (k_task s q))) K"
    and "rt_prio (t_normal_prio (k_task s (k_current s)))" and "p \<noteq> k_current s"
    and "t_sched_reset_on_fork (k_task s p)"
  shows "let t = k_task s p; t' = k_task (exec (sched_fork K p) s) p in
    \<not> task_has_rt_policy t' \<and> t_prio t' = t_normal_prio (k_task s (k_current s)) \<and>
    t_sched_class t' = t_sched_class t"
proof -
  let ?obs = "\<lambda>s q. (t_prio (k_task s q), t_policy (k_task s q), t_sched_class (k_task s q))"
  define s1 where "s1 = exec (do { log_event Preempt_disable; sched_fork_init p; reset_on_fork p }) s"
  have s1: "\<not> task_has_rt_policy (k_task s1 p)" "t_sched_class (k_task s1 p) = t_sched_class (k_task s p)"
    "t_normal_prio (k_task s1 (k_current s1)) = t_normal_prio (k_task s (k_current s))"
    using assms(3,4)
    by (auto simp: s1_def sched_fork_init_def reset_on_fork_def set_load_weight_def
        task_has_rt_policy_def rt_policy_def policy_consts split: option.split)
  define s2 where "s2 = exec (upd_task p (\<lambda>t. t\<lparr>t_prio := t_normal_prio (k_task s (k_current s))\<rparr>)) s1"
  define op where "op = op_select_task_rq (classes K) (t_sched_class (k_task s2 p)) p SD_BALANCE_FORK 0"
  have "?obs (exec op s2) p = ?obs s2 p"
    using queue_ops_keepD(4) [OF assms(1)] unfolding op_def by (rule fun_cong)
  moreover have "?obs (exec (set_task_cpu p c) u) p = ?obs u p" for c and u :: "'x kst"
    by (simp add: set_task_cpu_def set_task_cpu_raw_def)
  moreover have "exec (sched_fork K p) s =
      exec (log_event Preempt_enable) (exec (set_task_cpu p (result op s2)) (exec op s2))"
    using assms(2) s1(3) by (simp add: sched_fork_def s2_def s1_def op_def)
  ultimately have "?obs (exec (sched_fork K p) s) p = ?obs s2 p" by simp
  then show ?thesis using s1 by (simp add: Let_def s2_def task_has_rt_policy_def)
qed

text \<open>Concrete runs, with classes that keep no queue at all; the fair one writes the on-queue flag
  of the task it is given.\<close>

definition idle_classes :: "'x class_ops" where
  "idle_classes = \<lparr>next_class = (\<lambda>c. case c of Rt_sched_class \<Rightarrow> Some Fair_sched_class
       | Fair_sched_class \<Rightarrow> Some Idle_sched_class | Idle_sched_class \<Rightarrow> None),
     op_enqueue_task = (\<lambda>c _ p _. when_m (c = Fair_sched_class) (upd_se p (\<lambda>e. e\<lparr>se_on_rq := True\<rparr>))),
     op_dequeue_task = (\<lambda>c _ p _. when_m (c = Fair_sched_class) (upd_se p (\<lambda>e. e\<lparr>se_on_rq := False\<rparr>))),
     op_check_preempt_curr = (\<lambda>_ _ _ _. skip),
     op_pick_next_task = (\<lambda>c rq. if c = Idle_sched_class then gets (\<lambda>s. Some (rq_idle (k_rq s rq)))
       else if c = Fair_sched_class then gets (\<lambda>s. if rq_nr_running (k_rq s rq) = 0 then None
         else Some (if rq_curr (k_rq s rq) = 1 then 2 else 1)) else ret None),
     op_put_prev_task = (\<lambda>_ _ _. skip), op_select_task_rq = (\<lambda>_ _ _ _. ret 1),
     op_set_curr_task = (\<lambda>_ _. skip), op_task_tick = (\<lambda>_ _ _ _. skip), op_yield_task = (\<lambda>_ _. skip),
     op_switched_from = (\<lambda>_. None), op_switched_to = (\<lambda>_ _ _ _. skip),
     op_prio_changed = (\<lambda>_ _ _ _ _. skip), op_pre_schedule = (\<lambda>_. None),
     op_post_schedule = (\<lambda>_. None), op_task_wake_up = (\<lambda>_. None), op_task_new = (\<lambda>_. None),
     op_get_rr_interval = (\<lambda>_ _. ret 25),
     op_rq_online = (\<lambda>_. None), op_rq_offline = (\<lambda>_. None),
     op_set_cpus_allowed = (\<lambda>_. None), op_load_balance = (\<lambda>_ _ _ _ m _ _ b. ret (0, b)),
     op_move_one_task = (\<lambda>_ _ _ _ _ _. ret False)\<rparr>"

definition quiet_services :: "'x services" where
  "quiet_services = \<lparr>feature_bit = (\<lambda>x. case x of HRTICK \<Rightarrow> 0 | LB_BIAS \<Rightarrow> 1 | SYNC_WAKEUPS \<Rightarrow> 2
       | CACHE_HOT_BUDDY \<Rightarrow> 3 | OWNER_SPIN \<Rightarrow> 4 | ARCH_POWER \<Rightarrow> 5),
     sched_clock_cpu = (\<lambda>_ x. (0, x)), release_kernel_lock = (\<lambda>_ x. x),
     reacquire_kernel_lock = (\<lambda>_ x. (0, x)), signal_pending_state = (\<lambda>_ _ _. False),
     hrtick_active = (\<lambda>_ _. False), hrtick_cancel = (\<lambda>_ x. x),
     hrtick_hres = (\<lambda>_ _. False), hrtick_base_time = (\<lambda>_ _. 0), hrtick_set_expires = (\<lambda>_ _ x. x),
     hrtick_restart = (\<lambda>_ x. x), hrtick_ipi = (\<lambda>_ x. x), sched_clock_tick = (\<lambda>x. x),
     group_sum_exec = (\<lambda>_ _. 0), account_group = (\<lambda>_ _ _ x. x), in_interrupt = (\<lambda>_. False),
     capable_sys_nice = (\<lambda>_ _. False), msecs_to_jiffies = (\<lambda>n. n div 4),
     security_setscheduler = (\<lambda>_ _. 0), security_getscheduler = (\<lambda>_ _. 0),
     security_setnice = (\<lambda>_ _ _. 0), lock_sighand_ok = (\<lambda>_ _. True),
     rt_mutex_getprio = (\<lambda>_ prio _. prio),
     find_task_by_vpid = (\<lambda>pid _. if unat pid < 100 then Some (unat pid) else None),
     cpuset_cpus_allowed = (\<lambda>_ _. {0, 1}), mutex_owner = (\<lambda>_ _. None),
     cpuset_cpus_allowed_locked = (\<lambda>_ _. {0, 1}), cpumask_of_node = (\<lambda>_ _. {0, 1}),
     alloc_cpumask_var = (\<lambda>x. (True, x)), jiffies_to_timespec = (\<lambda>j. (ucast (j div 250), ucast (j mod 250 * 4000000))),
     sched_clock = (\<lambda>x. (0, x)), kthread_should_stop = (\<lambda>_ _. False), all_threads = (\<lambda>_. [1, 2]),
     mutex_trylock = (\<lambda>x. (True, x)), arch_update_cpu_topology = (\<lambda>_. False),
     alloc_root_domain = (\<lambda>used x. (if \<not> used 7 then Some 7 else if \<not> used 8 then Some 8 else None, x)), cpupri_init = (\<lambda>_ x. (True, x)), kmalloc_ok = (\<lambda>x. (True, x)),
     alloc_task_group = (\<lambda>x. (Some 5, x)), proc_dointvec = (\<lambda>_ _ v x. ((0, v), x)),
     init_sched_rt_class = (\<lambda>x. x),
     sd_cpu_init = \<lparr>sd_parent = None, sd_child = None, sd_groups = 0, sd_span = {}, sd_flags = 0x102F,
       sd_min_interval = 1, sd_max_interval = 4, sd_busy_factor = 64, sd_imbalance_pct = 125,
       sd_cache_nice_tries = 1, sd_busy_idx = 2, sd_idle_idx = 1, sd_newidle_idx = 0,
       sd_smt_gain = 0, sd_last_balance = 0, sd_balance_interval = 1, sd_nr_balance_failed = 0, sd_level = 0\<rparr>,
     spin_trylock_ok = (\<lambda>_ _. True)\<rparr>"

definition demo_kops :: "'x kops" where
  "demo_kops = \<lparr>classes = idle_classes,
     others = \<lparr>cpu_relax = skip, call_schedule = skip, schedule_timeout = (\<lambda>_. ret 0),
       wake_func = (\<lambda>_ _ _ _. ret True), rt_mutex_adjust_pi = (\<lambda>_. skip),
       kthread_create = (\<lambda>_. ret (Some 5)), kthread_stop = (\<lambda>_. skip),
       disable_runtime = (\<lambda>_. skip), enable_runtime = (\<lambda>_. skip)\<rparr>, services = quiet_services\<rparr>"

lemma set_on_rq_again [simp]: "set_on_rq p v (set_on_rq p w s) = set_on_rq p v s"
  by (simp add: set_on_rq_def)

lemma demo_queue_ops: "queue_ops_keep obs demo_kops"
  by (auto simp: queue_ops_keep_def keeps_def demo_kops_def idle_classes_def simp flip: set_on_rq_def)

lemma demo_wake_ops: "wake_ops_keep obs demo_kops"
  using demo_queue_ops by (simp add: wake_ops_keep_def demo_kops_def idle_classes_def)

definition demo_sleeper :: "unit kst" where
  "demo_sleeper = exec (upd_task 2 (\<lambda>t. t\<lparr>t_state := TASK_INTERRUPTIBLE, t_se := (t_se t)\<lparr>se_on_rq := False\<rparr>\<rparr>))
     (blank_kst ())"

theorem wake_up_effect_witness:
  "result (try_to_wake_up demo_kops 2 TASK_NORMAL 0) demo_sleeper \<and>
   t_state (k_task (exec (try_to_wake_up demo_kops 2 TASK_NORMAL 0) demo_sleeper) 2) = TASK_RUNNING"
  using wake_up_effect [OF demo_wake_ops, of 2 TASK_NORMAL 0 demo_sleeper]
  by (simp add: Let_def demo_sleeper_def task_state_defs TASK_NORMAL_def)

theorem pull_task_conserves_witness:
  "rq_nr_running (k_rq (exec (pull_task demo_kops 0 2 1 1) (blank_kst ())) 1) = 2"
  using pull_task_conserves [OF demo_queue_ops, of 0 1 2 "blank_kst ()"]
  by (simp add: Let_def blank_kst_def blank_rq_def)

definition demo_rt_parent :: "unit kst" where
  "demo_rt_parent = exec (upd_task 1 (\<lambda>t. t\<lparr>t_policy := SCHED_FIFO, t_rt_priority := 10,
     t_prio := 89, t_normal_prio := 89, t_sched_class := Rt_sched_class, t_sched_reset_on_fork := True\<rparr>))
     (blank_kst ())"

definition demo_rt_child :: "unit kst" where
  "demo_rt_child = exec (upd_task 2 (\<lambda>_. k_task demo_rt_parent 1)) demo_rt_parent"

theorem reset_on_fork_drops_privileges_witness:
  "\<not> task_has_rt_policy (k_task (exec (reset_on_fork 2) demo_rt_child) 2)"
proof -
  have "prio_wf (k_task demo_rt_child 2)" "t_sched_reset_on_fork (k_task demo_rt_child 2)"
    by (simp_all add: demo_rt_child_def demo_rt_parent_def prio_wf_def prio_consts blank_kst_def blank_task_def
        task_has_rt_policy_def rt_policy_def)
  from reset_on_fork_drops_privileges [OF this] show ?thesis by (simp add: Let_def)
qed

theorem sched_fork_keeps_rt_prio_witness:
  "t_prio (k_task (exec (sched_fork demo_kops 2) demo_rt_child) 2) = 89"
proof -
  have c: "k_current demo_rt_child = 1" and n: "t_normal_prio (k_task demo_rt_child 1) = 89"
    and r: "t_sched_reset_on_fork (k_task demo_rt_child 2)"
    by (simp_all add: demo_rt_child_def demo_rt_parent_def blank_kst_def)
  show ?thesis
    using sched_fork_keeps_rt_prio [OF demo_queue_ops, of demo_rt_child 2] c n r
    by (simp add: Let_def rt_prio_def prio_consts)
qed

end
