(* ===== verification/Sched_load.thy ===== *)
theory Sched_load
  imports Sched_wakeup
begin

text \<open>
  \<open>sched_mod.c\<close>: what the scheduler measures. The decaying averages of a runqueue's load, the
  load a balancing decision attributes to a CPU, the system-wide counts, the load average
  of the last 1, 5 and 15 minutes, and the share of time that real-time tasks take.
\<close>

subsection \<open>Jiffies\<close>

definition time_after :: "u32 \<Rightarrow> u32 \<Rightarrow> bool" where
  "time_after a b \<longleftrightarrow> sint (b - a) < 0"

definition time_before :: "u32 \<Rightarrow> u32 \<Rightarrow> bool" where
  "time_before a b \<longleftrightarrow> time_after b a"

definition time_after_eq :: "u32 \<Rightarrow> u32 \<Rightarrow> bool" where
  "time_after_eq a b \<longleftrightarrow> 0 \<le> sint (a - b)"

subsection \<open>The load of a CPU\<close>

definition SCHED_LOAD_SHIFT :: nat where "SCHED_LOAD_SHIFT = 10"
definition SCHED_LOAD_SCALE :: u32 where "SCHED_LOAD_SCALE = push_bit SCHED_LOAD_SHIFT 1"
definition CPU_LOAD_IDX_MAX :: nat where "CPU_LOAD_IDX_MAX = 5"

definition possible_cpus :: "cpu list" where
  "possible_cpus = [0..<NR_CPUS]"

definition weighted_cpuload :: "cpu \<Rightarrow> ('x kst, u32) state" where
  "weighted_cpuload cpu = rq_get cpu (\<lambda>r. lw_weight (rq_load r))"

definition source_load :: "'x kops \<Rightarrow> cpu \<Rightarrow> nat \<Rightarrow> ('x kst, u32) state" where
  "source_load K cpu type = do {
     total \<leftarrow> weighted_cpuload cpu;
     bias \<leftarrow> sched_feat K LB_BIAS;
     if type = 0 \<or> \<not> bias then ret total
     else do {
       l \<leftarrow> rq_get cpu (\<lambda>r. rq_cpu_load r ! (type - 1));
       ret (min l total) } }"

definition target_load :: "'x kops \<Rightarrow> cpu \<Rightarrow> nat \<Rightarrow> ('x kst, u32) state" where
  "target_load K cpu type = do {
     total \<leftarrow> weighted_cpuload cpu;
     bias \<leftarrow> sched_feat K LB_BIAS;
     if type = 0 \<or> \<not> bias then ret total
     else do {
       l \<leftarrow> rq_get cpu (\<lambda>r. rq_cpu_load r ! (type - 1));
       ret (max l total) } }"

definition group_of :: "cpu \<Rightarrow> ('x kst, nat option) state" where
  "group_of cpu = gets (\<lambda>s. map_option (\<lambda>d. sd_groups (k_sd s d)) (rq_sd (k_rq s cpu)))"

definition power_of :: "cpu \<Rightarrow> ('x kst, u32) state" where
  "power_of cpu = do {
     g \<leftarrow> group_of cpu;
     (case g of
        None \<Rightarrow> ret SCHED_LOAD_SCALE
      | Some g \<Rightarrow> gets (\<lambda>s. sg_cpu_power (k_sg s g))) }"

definition cpu_avg_load_per_task :: "cpu \<Rightarrow> ('x kst, u32) state" where
  "cpu_avg_load_per_task cpu = do {
     nr \<leftarrow> rq_get cpu rq_nr_running;
     (if nr \<noteq> 0 then upd_rq cpu (\<lambda>r. r\<lparr>rq_avg_load_per_task := lw_weight (rq_load r) div nr\<rparr>)
      else upd_rq cpu (\<lambda>r. r\<lparr>rq_avg_load_per_task := 0\<rparr>));
     rq_get cpu rq_avg_load_per_task }"

subsection \<open>System-wide counts\<close>

definition nr_running :: "('x kst, u32) state" where
  "nr_running = gets (\<lambda>s. sum_list (map (\<lambda>i. rq_nr_running (k_rq s i))
     [i \<leftarrow> possible_cpus. i \<in> k_online s]))"

definition nr_uninterruptible :: "('x kst, u32) state" where
  "nr_uninterruptible = gets (\<lambda>s.
     let sum = sum_list (map (\<lambda>i. rq_nr_uninterruptible (k_rq s i)) possible_cpus) in
     if sint sum < 0 then 0 else sum)"

definition nr_context_switches :: "('x kst, u64) state" where
  "nr_context_switches = gets (\<lambda>s. sum_list (map (\<lambda>i. rq_nr_switches (k_rq s i)) possible_cpus))"

definition nr_iowait :: "('x kst, u32) state" where
  "nr_iowait = gets (\<lambda>s. sum_list (map (\<lambda>i. rq_nr_iowait (k_rq s i)) possible_cpus))"

definition nr_iowait_cpu :: "('x kst, u32) state" where
  "nr_iowait_cpu = gets (\<lambda>s. rq_nr_iowait (k_rq s (k_this_cpu s)))"

definition this_cpu_load :: "('x kst, u32) state" where
  "this_cpu_load = gets (\<lambda>s. rq_cpu_load (k_rq s (k_this_cpu s)) ! 0)"

definition cpu_nr_migrations :: "cpu \<Rightarrow> ('x kst, u64) state" where
  "cpu_nr_migrations cpu = rq_get cpu rq_nr_migrations_in"

subsection \<open>The load average\<close>

definition FSHIFT :: nat where "FSHIFT = 11"
definition FIXED_1 :: u32 where "FIXED_1 = push_bit FSHIFT 1"
definition LOAD_FREQ :: u32 where "LOAD_FREQ = 5 * HZ + 1"
definition EXP_1 :: u32 where "EXP_1 = 1884"
definition EXP_5 :: u32 where "EXP_5 = 2014"
definition EXP_15 :: u32 where "EXP_15 = 2037"

definition get_avenrun :: "u32 \<Rightarrow> nat \<Rightarrow> ('x kst, u32 list) state" where
  "get_avenrun offset shift = gets (\<lambda>s.
     [push_bit shift (k_avenrun s ! 0 + offset), push_bit shift (k_avenrun s ! 1 + offset),
      push_bit shift (k_avenrun s ! 2 + offset)])"

definition calc_load :: "u32 \<Rightarrow> u32 \<Rightarrow> u32 \<Rightarrow> u32" where
  "calc_load load exp active = drop_bit FSHIFT (load * exp + active * (FIXED_1 - exp))"

definition calc_global_load :: "('x kst, unit) state" where
  "calc_global_load = do {
     upd \<leftarrow> gets (\<lambda>s. k_calc_load_update s + 10);
     now \<leftarrow> gets k_jiffies;
     if time_before now upd then skip
     else do {
       tasks \<leftarrow> gets k_calc_load_tasks;
       let active = (if 0 < sint tasks then tasks * FIXED_1 else 0);
       modify (\<lambda>s. s\<lparr>k_avenrun :=
         (k_avenrun s)[0 := calc_load (k_avenrun s ! 0) EXP_1 active]\<rparr>);
       modify (\<lambda>s. s\<lparr>k_avenrun :=
         (k_avenrun s)[1 := calc_load (k_avenrun s ! 1) EXP_5 active]\<rparr>);
       modify (\<lambda>s. s\<lparr>k_avenrun :=
         (k_avenrun s)[2 := calc_load (k_avenrun s ! 2) EXP_15 active]\<rparr>);
       modify (\<lambda>s. s\<lparr>k_calc_load_update := k_calc_load_update s + LOAD_FREQ\<rparr>) } }"

definition calc_load_account_active :: "cpu \<Rightarrow> ('x kst, unit) state" where
  "calc_load_account_active this_rq = do {
     nr_active \<leftarrow> rq_get this_rq (\<lambda>r. rq_nr_running r + rq_nr_uninterruptible r);
     old \<leftarrow> rq_get this_rq rq_calc_load_active;
     when_m (nr_active \<noteq> old) (do {
       upd_rq this_rq (\<lambda>r. r\<lparr>rq_calc_load_active := nr_active\<rparr>);
       modify (\<lambda>s. s\<lparr>k_calc_load_tasks := k_calc_load_tasks s + (nr_active - old)\<rparr>) }) }"

subsection \<open>The decaying averages of a runqueue's load\<close>

text \<open>One turn of the loop: index \<open>i\<close>, where \<open>scale\<close> is \<open>2 ^ i\<close>.\<close>

definition decayed_load :: "u32 \<Rightarrow> u32 \<Rightarrow> nat \<Rightarrow> u32" where
  "decayed_load this_load old_load i =
     (let scale = push_bit i 1;
          new_load = (if this_load > old_load then this_load + (scale - 1) else this_load)
      in drop_bit i (old_load * (scale - 1) + new_load))"

definition update_cpu_load :: "cpu \<Rightarrow> ('x kst, unit) state" where
  "update_cpu_load this_rq = do {
     this_load \<leftarrow> rq_get this_rq (\<lambda>r. lw_weight (rq_load r));
     upd_rq this_rq (\<lambda>r. r\<lparr>rq_nr_load_updates := rq_nr_load_updates r + 1\<rparr>);
     for_each [0..<CPU_LOAD_IDX_MAX] (\<lambda>i. upd_rq this_rq (\<lambda>r. r\<lparr>rq_cpu_load :=
       (rq_cpu_load r)[i := decayed_load this_load (rq_cpu_load r ! i) i]\<rparr>));
     now \<leftarrow> gets k_jiffies;
     upd \<leftarrow> rq_get this_rq rq_calc_load_update;
     when_m (time_after_eq now upd) (do {
       upd_rq this_rq (\<lambda>r. r\<lparr>rq_calc_load_update := rq_calc_load_update r + LOAD_FREQ\<rparr>);
       calc_load_account_active this_rq }) }"

subsection \<open>The time real-time tasks take\<close>

text \<open>\<open>sched_avg_update\<close> halves the average for every period that passed. The loop ends only
  if the period is not 0 (\<open>sched_avg_update_ends\<close>, \<open>sched_avg_update_stuck\<close>).\<close>

definition sched_avg_turn :: "cpu \<Rightarrow> u64 \<Rightarrow> unit \<Rightarrow> ('x kst, unit + unit) state" where
  "sched_avg_turn rq period _ = do {
     late \<leftarrow> rq_get rq (\<lambda>r. sint (rq_clock r - rq_age_stamp r) > sint period);
     if \<not> late then ret (Inr ())
     else do {
       upd_rq rq (\<lambda>r. r\<lparr>rq_age_stamp := rq_age_stamp r + period\<rparr>);
       upd_rq rq (\<lambda>r. r\<lparr>rq_rt_avg := rq_rt_avg r div 2\<rparr>);
       ret (Inl ()) } }"

definition sched_avg_update :: "nat \<Rightarrow> cpu \<Rightarrow> ('x kst, unit option) state" where
  "sched_avg_update fuel rq = do {
     period \<leftarrow> gets (\<lambda>s. sched_avg_period (k_sysctl s));
     loop_m fuel (sched_avg_turn rq period) () }"

definition sched_rt_avg_update :: "nat \<Rightarrow> cpu \<Rightarrow> u64 \<Rightarrow> ('x kst, unit option) state" where
  "sched_rt_avg_update fuel rq rt_delta = do {
     upd_rq rq (\<lambda>r. r\<lparr>rq_rt_avg := rq_rt_avg r + rt_delta\<rparr>);
     sched_avg_update fuel rq }"

subsection \<open>The averages converge\<close>

lemma unat_decayed_load:
  assumes "i < 5" and "unat l < 2 ^ 27" and "unat old < 2 ^ 27"
  shows "unat (decayed_load l old i) =
    (unat old * (2 ^ i - 1) + unat l + (if old < l then 2 ^ i - 1 else 0)) div 2 ^ i"
proof -
  have i: "i = 0 \<or> i = 1 \<or> i = 2 \<or> i = 3 \<or> i = 4" using assms(1) by auto
  show ?thesis
    using assms(2,3) i
    by (auto simp: decayed_load_def Let_def unsigned_drop_bit_eq drop_bit_eq_div unat_word_ariths
        word_less_nat_alt)
qed

text \<open>Each of the five averages of a runqueue's load moves towards the current load without
  passing it, and moves by at least one unit unless it is there already, so that it cannot
  get stuck at 9 when the load is 10 (for loads below 2^27, 750 tasks of the highest weight).\<close>

theorem decayed_load_converges:
  assumes "i < CPU_LOAD_IDX_MAX" and "unat l < 2 ^ 27" and "unat old < 2 ^ 27"
  shows "(old < l \<longrightarrow> old < decayed_load l old i \<and> decayed_load l old i \<le> l) \<and>
    (old > l \<longrightarrow> l \<le> decayed_load l old i \<and> decayed_load l old i < old) \<and>
    (old = l \<longrightarrow> decayed_load l old i = l)"
proof -
  have i: "i < 5" using assms(1) by (simp add: CPU_LOAD_IDX_MAX_def)
  then have i': "i = 0 \<or> i = 1 \<or> i = 2 \<or> i = 3 \<or> i = 4" by auto
  note u = unat_decayed_load [OF i assms(2,3)]
  show ?thesis
    using i' by (auto simp: word_less_nat_alt word_le_nat_alt word_unat_eq_iff u)
qed

theorem decayed_load_converges_witness:
  "decayed_load 10 9 4 = 10 \<and> decayed_load 1024 0 2 = 256"
proof -
  have "(9 :: u32) < decayed_load 10 9 4 \<and> decayed_load 10 9 4 \<le> 10"
    using decayed_load_converges [of 4 10 9] by (simp add: CPU_LOAD_IDX_MAX_def)
  moreover have "decayed_load 10 9 4 = 10" "decayed_load 1024 0 2 = 256"
    by (simp_all add: decayed_load_def Let_def)
  ultimately show ?thesis by simp
qed

subsection \<open>The load count is conserved\<close>

text \<open>The system-wide count of active tasks is the sum of what each runqueue has reported:
  a report adds exactly the difference to what the runqueue reported before, and afterwards the
  reported number is the number of its runnable and uninterruptible tasks; no other runqueue
  is touched.\<close>

theorem calc_load_account_conserves:
  "let s' = exec (calc_load_account_active c) s; rep = \<lambda>s c. rq_calc_load_active (k_rq s c) in
   k_calc_load_tasks s' - rep s' c = k_calc_load_tasks s - rep s c \<and>
   rep s' c = rq_nr_running (k_rq s c) + rq_nr_uninterruptible (k_rq s c) \<and>
   (\<forall>d. d \<noteq> c \<longrightarrow> k_rq s' d = k_rq s d)"
  by (simp add: calc_load_account_active_def Let_def)

subsection \<open>Ageing ends, if there is a period\<close>

lemma sched_avg_update_step:
  "exec (sched_avg_update (Suc n) c) s =
    (let P = sched_avg_period (k_sysctl s); r = k_rq s c in
     if sint P < sint (rq_clock r - rq_age_stamp r)
     then exec (sched_avg_update n c) (s\<lparr>k_rq := (k_rq s)(c :=
       r\<lparr>rq_age_stamp := rq_age_stamp r + P, rq_rt_avg := rq_rt_avg r div 2\<rparr>)\<rparr>) else s)"
  "result (sched_avg_update (Suc n) c) s =
    (let P = sched_avg_period (k_sysctl s); r = k_rq s c in
     if sint P < sint (rq_clock r - rq_age_stamp r)
     then result (sched_avg_update n c) (s\<lparr>k_rq := (k_rq s)(c :=
       r\<lparr>rq_age_stamp := rq_age_stamp r + P, rq_rt_avg := rq_rt_avg r div 2\<rparr>)\<rparr>) else Some ())"
proof -
  let ?P = "sched_avg_period (k_sysctl s)" and ?r = "k_rq s c"
  have e: "exec (sched_avg_turn c ?P ()) s = (if sint ?P < sint (rq_clock ?r - rq_age_stamp ?r)
      then s\<lparr>k_rq := (k_rq s)(c := ?r\<lparr>rq_age_stamp := rq_age_stamp ?r + ?P,
        rq_rt_avg := rq_rt_avg ?r div 2\<rparr>)\<rparr> else s)"
    "result (sched_avg_turn c ?P ()) s =
      (if sint ?P < sint (rq_clock ?r - rq_age_stamp ?r) then Inl () else Inr ())"
    by (simp_all add: sched_avg_turn_def)
  show "exec (sched_avg_update (Suc n) c) s =
    (let P = ?P; r = ?r in
     if sint P < sint (rq_clock r - rq_age_stamp r)
     then exec (sched_avg_update n c) (s\<lparr>k_rq := (k_rq s)(c :=
       r\<lparr>rq_age_stamp := rq_age_stamp r + P, rq_rt_avg := rq_rt_avg r div 2\<rparr>)\<rparr>) else s)"
    "result (sched_avg_update (Suc n) c) s =
    (let P = ?P; r = ?r in
     if sint P < sint (rq_clock r - rq_age_stamp r)
     then result (sched_avg_update n c) (s\<lparr>k_rq := (k_rq s)(c :=
       r\<lparr>rq_age_stamp := rq_age_stamp r + P, rq_rt_avg := rq_rt_avg r div 2\<rparr>)\<rparr>) else Some ())"
    by (simp_all add: sched_avg_update_def Let_def e)
qed

lemma sint_sub_less:
  fixes d p :: u64
  assumes "0 < sint p" and "sint p < sint d"
  shows "sint (d - p) = sint d - sint p"
proof -
  have "sint d < 2 ^ 63" using sint_lt [of d] by simp
  moreover have "d - p = word_of_int (sint d - sint p)" by simp
  ultimately show ?thesis using assms
    by (simp only: signed_of_int) (simp add: signed_take_bit_int_eq_self)
qed

text \<open>With a positive averaging period \<open>sched_avg_update\<close> ends, after as many turns as whole
  periods have passed, and leaves less than two periods between the stamp and the clock.\<close>

theorem sched_avg_update_ends:
  assumes "0 < sint (sched_avg_period (k_sysctl s))"
    and "nat (sint (rq_clock (k_rq s c) - rq_age_stamp (k_rq s c))) div
      nat (sint (sched_avg_period (k_sysctl s))) < n"
  shows "result (sched_avg_update n c) s = Some () \<and>
    (let r = k_rq (exec (sched_avg_update n c) s) c in
     rq_clock r = rq_clock (k_rq s c) \<and>
     sint (rq_clock r - rq_age_stamp r) \<le> sint (sched_avg_period (k_sysctl s)))"
  using assms
proof (induction n arbitrary: s)
  case (Suc n)
  let ?P = "sched_avg_period (k_sysctl s)" and ?r = "k_rq s c"
  let ?d = "rq_clock ?r - rq_age_stamp ?r"
  show ?case
  proof (cases "sint ?P < sint ?d")
    case False
    then show ?thesis by (simp add: sched_avg_update_step Let_def)
  next
    case True
    let ?t = "s\<lparr>k_rq := (k_rq s)(c := ?r\<lparr>rq_age_stamp := rq_age_stamp ?r + ?P, rq_rt_avg := rq_rt_avg ?r div 2\<rparr>)\<rparr>"
    have d: "sint (?d - ?P) = sint ?d - sint ?P" by (rule sint_sub_less [OF Suc.prems(1) True])
    have e: "rq_clock (k_rq ?t c) - rq_age_stamp (k_rq ?t c) = ?d - ?P" by simp
    have "nat (sint (?d - ?P)) div nat (sint ?P) < n"
      using Suc.prems True unfolding d by (simp add: nat_diff_distrib div_nat_eqI le_div_geq)
    then have "result (sched_avg_update n c) ?t = Some () \<and>
        (let r = k_rq (exec (sched_avg_update n c) ?t) c in
         rq_clock r = rq_clock (k_rq ?t c) \<and> sint (rq_clock r - rq_age_stamp r) \<le> sint ?P)"
      using Suc.IH [of ?t] Suc.prems(1) unfolding e by simp
    with True show ?thesis by (auto simp add: sched_avg_update_step Let_def)
  qed
qed simp

text \<open>With \<open>sysctl_sched_time_avg\<close> set to 0, which nothing forbids, the loop never ends once
  the clock is past the stamp.\<close>

theorem sched_avg_update_stuck:
  assumes "sysctl_sched_time_avg (k_sysctl s) = 0"
    and "0 < sint (rq_clock (k_rq s c) - rq_age_stamp (k_rq s c))"
  shows "result (sched_avg_update n c) s = None"
  using assms
proof (induction n arbitrary: s)
  case 0
  then show ?case by (simp add: sched_avg_update_def)
next
  case (Suc n)
  then show ?case by (simp add: sched_avg_update_step Let_def sched_avg_period_def)
qed

text \<open>A runqueue of CPU 0 that was last aged 1.7 s ago, with the default period of 0.5 s.\<close>

definition demo_aged :: "unit kst" where
  "demo_aged = exec (upd_rq 0 (\<lambda>r. r\<lparr>rq_clock := 1700000000, rq_rt_avg := 800\<rparr>)) (blank_kst ())"

lemma demo_aged_period: "sched_avg_period (k_sysctl demo_aged) = 500000000"
  by (simp add: demo_aged_def blank_kst_def sched_avg_period_def NSEC_PER_MSEC_def)

lemma demo_aged_rq: "rq_clock (k_rq demo_aged 0) = 1700000000" "rq_age_stamp (k_rq demo_aged 0) = 0"
  by (simp_all add: demo_aged_def blank_kst_def blank_rq_def)

theorem sched_avg_update_ends_witness: "result (sched_avg_update 4 0) demo_aged = Some ()"
  using sched_avg_update_ends [of demo_aged 0 4] by (simp add: demo_aged_period demo_aged_rq)

theorem sched_avg_update_stuck_witness:
  "\<forall>n. result (sched_avg_update n 0)
     (demo_aged\<lparr>k_sysctl := (k_sysctl demo_aged)\<lparr>sysctl_sched_time_avg := 0\<rparr>\<rparr>) = None"
  by (intro allI, rule sched_avg_update_stuck) (simp_all add: demo_aged_rq)

end
