(* ===== verification/Sched_balance.thy ===== *)
theory Sched_balance
  imports Sched_load
begin

text \<open>
  \<open>sched_mod.c\<close>: load balancing between CPUs. Moving tasks (\<open>can_migrate_task\<close> to
  \<open>move_one_task\<close>), the power and load statistics of scheduling groups
  (\<open>scale_rt_power\<close> to \<open>update_sd_lb_stats\<close>), the decision what to move
  (\<open>find_busiest_group\<close>, \<open>find_busiest_queue\<close>), the balancing passes (\<open>load_balance\<close>,
  \<open>load_balance_newidle\<close>, \<open>idle_balance\<close>, \<open>active_load_balance\<close>), and who runs them in a
  tickless system. Neither CONFIG_SCHED_MC nor CONFIG_SCHED_SMT is set, so the power saving
  variants are the empty ones. A call that must not happen (\<open>BUG_ON\<close>) is logged and ends
  the operation.
\<close>

subsection \<open>Domains and groups\<close>

definition SD_LOAD_BALANCE :: u32 where "SD_LOAD_BALANCE = 0x0001"
definition SD_BALANCE_NEWIDLE :: u32 where "SD_BALANCE_NEWIDLE = 0x0002"
definition SD_SHARE_CPUPOWER :: u32 where "SD_SHARE_CPUPOWER = 0x0080"
definition SD_POWERSAVINGS_BALANCE :: u32 where "SD_POWERSAVINGS_BALANCE = 0x0100"
definition SD_SERIALIZE :: u32 where "SD_SERIALIZE = 0x0400"
definition SD_PREFER_SIBLING :: u32 where "SD_PREFER_SIBLING = 0x1000"
definition POWERSAVINGS_BALANCE_WAKEUP :: int where "POWERSAVINGS_BALANCE_WAKEUP = 2"

text \<open>\<open>for_each_domain\<close>: the chain of parents from a CPU's lowest domain. A machine has at most
  SD_LV_MAX levels; the groups of a domain form a ring with at most one group per CPU.\<close>

definition SD_LV_MAX :: nat where "SD_LV_MAX = 6"

fun parents :: "nat \<Rightarrow> (nat \<Rightarrow> sched_domain) \<Rightarrow> nat option \<Rightarrow> nat list" where
  "parents 0 sds d = []"
| "parents (Suc n) sds None = []"
| "parents (Suc n) sds (Some d) = d # parents n sds (sd_parent (sds d))"

definition for_each_domain :: "cpu \<Rightarrow> ('x kst, nat list) state" where
  "for_each_domain cpu = gets (\<lambda>s. parents SD_LV_MAX (k_sd s) (rq_sd (k_rq s cpu)))"

fun ring :: "nat \<Rightarrow> (nat \<Rightarrow> sched_group) \<Rightarrow> nat \<Rightarrow> nat \<Rightarrow> nat list" where
  "ring 0 sgs first g = [g]"
| "ring (Suc n) sgs first g =
     g # (if sg_next (sgs g) = first then [] else ring n sgs first (sg_next (sgs g)))"

definition groups_of :: "nat \<Rightarrow> ('x kst, nat list) state" where
  "groups_of sd = gets (\<lambda>s. ring NR_CPUS (k_sg s) (sd_groups (k_sd s sd)) (sd_groups (k_sd s sd)))"

definition test_sd_parent :: "nat \<Rightarrow> u32 \<Rightarrow> ('x kst, bool) state" where
  "test_sd_parent sd flag = gets (\<lambda>s. case sd_parent (k_sd s sd) of
     None \<Rightarrow> False | Some p \<Rightarrow> sd_flags (k_sd s p) AND flag \<noteq> 0)"

definition sd_flag :: "nat \<Rightarrow> u32 \<Rightarrow> ('x kst, bool) state" where
  "sd_flag sd flag = gets (\<lambda>s. sd_flags (k_sd s sd) AND flag \<noteq> 0)"

definition cpumask_first :: "cpumask \<Rightarrow> cpu" where
  "cpumask_first m = (case [i \<leftarrow> possible_cpus. i \<in> m] of [] \<Rightarrow> NR_CPUS | i # _ \<Rightarrow> i)"

definition cpumask_weight :: "cpumask \<Rightarrow> nat" where
  "cpumask_weight m = length [i \<leftarrow> possible_cpus. i \<in> m]"

definition DIV_ROUND_CLOSEST :: "u32 \<Rightarrow> u32 \<Rightarrow> u32" where
  "DIV_ROUND_CLOSEST x d = (x + d div 2) div d"

subsection \<open>Moving tasks\<close>

text \<open>The answer is whether the task may move, and the new value of \<open>*all_pinned\<close>.\<close>

definition can_migrate_task ::
    "'x kops \<Rightarrow> task \<Rightarrow> cpu \<Rightarrow> cpu \<Rightarrow> nat \<Rightarrow> bool \<Rightarrow> ('x kst, bool \<times> bool) state" where
  "can_migrate_task K p rq this_cpu sd all_pinned = do {
     allowed \<leftarrow> task_get p (\<lambda>t. this_cpu \<in> t_cpus_allowed t);
     if \<not> allowed then ret (False, all_pinned)
     else do {
       running \<leftarrow> task_running rq p;
       if running then ret (False, False)
       else do {
         now \<leftarrow> rq_get rq rq_clock;
         hot \<leftarrow> task_hot K p now;
         forced \<leftarrow> gets (\<lambda>s. sd_nr_balance_failed (k_sd s sd) > sd_cache_nice_tries (k_sd s sd));
         if \<not> hot \<or> forced then ret (True, False)
         else ret (\<not> hot, False) } } }"

text \<open>\<open>balance_tasks\<close> gets the iterator of a scheduling class, here the tasks it will visit.
  Local variables of the loop: tasks left, turns made, load still to move, pinned flag, best
  priority. \<open>rem_load_move\<close> is a signed \<open>long\<close>, but compared with the unsigned weight.\<close>

fun balance_loop ::
    "'x kops \<Rightarrow> cpu \<Rightarrow> cpu \<Rightarrow> nat \<Rightarrow> task list \<Rightarrow> u32 \<Rightarrow> u32 \<Rightarrow> bool \<Rightarrow> int \<Rightarrow>
     ('x kst, u32 \<times> bool \<times> int) state" where
  "balance_loop K this_cpu busiest sd [] loops rem pinned best = ret (rem, pinned, best)"
| "balance_loop K this_cpu busiest sd (p # ps) loops rem pinned best = do {
     lim \<leftarrow> gets (\<lambda>s. sysctl_sched_nr_migrate (k_sysctl s));
     if loops > lim then ret (rem, pinned, best)
     else do {
       w \<leftarrow> task_get p (\<lambda>t. lw_weight (se_load (t_se t)));
       (can, pinned') \<leftarrow> (if drop_bit 1 w > rem then ret (False, pinned)
          else can_migrate_task K p busiest this_cpu sd pinned);
       if \<not> can then balance_loop K this_cpu busiest sd ps (loops + 1) rem pinned' best
       else do {
         pull_task K busiest p this_cpu this_cpu;
         w' \<leftarrow> task_get p (\<lambda>t. lw_weight (se_load (t_se t)));
         let rem' = rem - w';
         if 0 < sint rem' then do {
           prio \<leftarrow> task_get p t_prio;
           balance_loop K this_cpu busiest sd ps (loops + 1) rem' pinned' (min prio best) }
         else ret (rem', pinned', best) } } }"

definition balance_tasks ::
    "'x kops \<Rightarrow> cpu \<Rightarrow> cpu \<Rightarrow> u32 \<Rightarrow> nat \<Rightarrow> int \<Rightarrow> task list \<Rightarrow> ('x kst, u32 \<times> bool \<times> int) state" where
  "balance_tasks K this_cpu busiest max_load_move sd best iterator =
     (if max_load_move = 0 then ret (0, False, best)
      else do {
        (rem, pinned, best') \<leftarrow> balance_loop K this_cpu busiest sd iterator 0 max_load_move True best;
        ret (max_load_move - rem, pinned, best') })"

text \<open>\<open>move_tasks\<close> asks one class after the other, the highest first.\<close>

definition sched_class_highest :: sched_class where
  "sched_class_highest = Rt_sched_class"

definition for_each_class :: "'x kops \<Rightarrow> sched_class list" where
  "for_each_class K =
     (let c1 = sched_class_highest in c1 # (case next_class (classes K) c1 of
        None \<Rightarrow> []
      | Some c2 \<Rightarrow> c2 # (case next_class (classes K) c2 of None \<Rightarrow> [] | Some c3 \<Rightarrow> [c3])))"

fun move_tasks_loop ::
    "'x kops \<Rightarrow> cpu \<Rightarrow> cpu \<Rightarrow> u32 \<Rightarrow> nat \<Rightarrow> cpu_idle_type \<Rightarrow> sched_class list \<Rightarrow> u32 \<Rightarrow> bool \<Rightarrow> int \<Rightarrow>
     ('x kst, u32 \<times> bool) state" where
  "move_tasks_loop K this_cpu busiest max_load sd idle [] moved_load pinned best = ret (moved_load, pinned)"
| "move_tasks_loop K this_cpu busiest max_load sd idle (c # cs) moved_load pinned best = do {
     (moved, pinned', best') \<leftarrow> op_load_balance (classes K) c this_cpu this_cpu busiest
        (max_load - moved_load) sd idle (pinned, best);
     let moved_load' = moved_load + moved;
     if max_load > moved_load'
     then move_tasks_loop K this_cpu busiest max_load sd idle cs moved_load' pinned' best'
     else ret (moved_load', pinned') }"

definition move_tasks ::
    "'x kops \<Rightarrow> cpu \<Rightarrow> cpu \<Rightarrow> u32 \<Rightarrow> nat \<Rightarrow> cpu_idle_type \<Rightarrow> bool \<Rightarrow> ('x kst, bool \<times> bool) state" where
  "move_tasks K this_cpu busiest max_load_move sd idle all_pinned = do {
     best \<leftarrow> gets (\<lambda>s. t_prio (k_task s (rq_curr (k_rq s this_cpu))));
     (moved_load, pinned) \<leftarrow> move_tasks_loop K this_cpu busiest max_load_move sd idle
        (for_each_class K) 0 all_pinned best;
     ret (0 < moved_load, pinned) }"

fun iter_move_one_task ::
    "'x kops \<Rightarrow> cpu \<Rightarrow> cpu \<Rightarrow> nat \<Rightarrow> bool \<Rightarrow> task list \<Rightarrow> ('x kst, bool) state" where
  "iter_move_one_task K this_cpu busiest sd pinned [] = ret False"
| "iter_move_one_task K this_cpu busiest sd pinned (p # ps) = do {
     (can, pinned') \<leftarrow> can_migrate_task K p busiest this_cpu sd pinned;
     if can then do { pull_task K busiest p this_cpu this_cpu; ret True }
     else iter_move_one_task K this_cpu busiest sd pinned' ps }"

fun move_one_loop ::
    "'x kops \<Rightarrow> cpu \<Rightarrow> cpu \<Rightarrow> nat \<Rightarrow> cpu_idle_type \<Rightarrow> sched_class list \<Rightarrow> ('x kst, bool) state" where
  "move_one_loop K this_cpu busiest sd idle [] = ret False"
| "move_one_loop K this_cpu busiest sd idle (c # cs) = do {
     moved \<leftarrow> op_move_one_task (classes K) c this_cpu this_cpu busiest sd idle;
     if moved then ret True else move_one_loop K this_cpu busiest sd idle cs }"

definition move_one_task ::
    "'x kops \<Rightarrow> cpu \<Rightarrow> cpu \<Rightarrow> nat \<Rightarrow> cpu_idle_type \<Rightarrow> ('x kst, bool) state" where
  "move_one_task K this_cpu busiest sd idle =
     move_one_loop K this_cpu busiest sd idle (for_each_class K)"

subsection \<open>The power of a CPU\<close>

definition default_scale_freq_power :: u32 where
  "default_scale_freq_power = SCHED_LOAD_SCALE"

definition arch_scale_freq_power :: u32 where
  "arch_scale_freq_power = default_scale_freq_power"

definition default_scale_smt_power :: "sched_domain \<Rightarrow> u32" where
  "default_scale_smt_power sd = sd_smt_gain sd div of_nat (cpumask_weight (sd_span sd))"

definition arch_scale_smt_power :: "sched_domain \<Rightarrow> u32" where
  "arch_scale_smt_power sd = default_scale_smt_power sd"

text \<open>The ageing loop inside is bounded by \<open>fuel\<close>; with no answer from it there is none here.\<close>

definition scale_rt_power :: "nat \<Rightarrow> cpu \<Rightarrow> ('x kst, u32 option) state" where
  "scale_rt_power fuel cpu = do {
     r \<leftarrow> sched_avg_update fuel cpu;
     (case r of
        None \<Rightarrow> ret None
      | Some _ \<Rightarrow> gets (\<lambda>s.
          let q = k_rq s cpu;
              tot = sched_avg_period (k_sysctl s) + (rq_clock q - rq_age_stamp q);
              available = tot - rq_rt_avg q;
              tot' = (if sint tot < 1024 then 1024 else tot);
              tot'' = drop_bit SCHED_LOAD_SHIFT tot'
          in Some (ucast (available div ucast (ucast tot'' :: u32))))) }"

definition update_cpu_power :: "nat \<Rightarrow> 'x kops \<Rightarrow> nat \<Rightarrow> cpu \<Rightarrow> ('x kst, unit option) state" where
  "update_cpu_power fuel K sd cpu = do {
     arch \<leftarrow> sched_feat K ARCH_POWER;
     d \<leftarrow> gets (\<lambda>s. k_sd s sd);
     let power1 = drop_bit SCHED_LOAD_SHIFT (SCHED_LOAD_SCALE *
       (if arch then arch_scale_freq_power else default_scale_freq_power));
     let power2 = (if sd_flags d AND SD_SHARE_CPUPOWER \<noteq> 0 \<and> 1 < cpumask_weight (sd_span d)
       then drop_bit SCHED_LOAD_SHIFT (power1 *
         (if arch then arch_scale_smt_power d else default_scale_smt_power d))
       else power1);
     rt \<leftarrow> scale_rt_power fuel cpu;
     (case rt of
        None \<Rightarrow> ret None
      | Some rt \<Rightarrow> do {
          let power3 = drop_bit SCHED_LOAD_SHIFT (power2 * rt);
          upd_sg (sd_groups d) (\<lambda>g. g\<lparr>sg_cpu_power := (if power3 = 0 then 1 else power3)\<rparr>);
          ret (Some ()) }) }"

definition update_group_power :: "nat \<Rightarrow> 'x kops \<Rightarrow> nat \<Rightarrow> cpu \<Rightarrow> ('x kst, unit option) state" where
  "update_group_power fuel K sd cpu = do {
     d \<leftarrow> gets (\<lambda>s. k_sd s sd);
     (case sd_child d of
        None \<Rightarrow> update_cpu_power fuel K sd cpu
      | Some child \<Rightarrow> do {
          gs \<leftarrow> groups_of child;
          power \<leftarrow> gets (\<lambda>s. sum_list (map (\<lambda>g. sg_cpu_power (k_sg s g)) gs));
          upd_sg (sd_groups d) (\<lambda>g. g\<lparr>sg_cpu_power := power\<rparr>);
          ret (Some ()) }) }"

subsection \<open>Statistics\<close>

record sd_lb_stats =
  sds_busiest :: "nat option"
  sds_this :: "nat option"
  sds_total_load :: u32
  sds_total_pwr :: u32
  sds_avg_load :: u32
  sds_this_load :: u32
  sds_this_load_per_task :: u32
  sds_this_nr_running :: u32
  sds_max_load :: u32
  sds_busiest_load_per_task :: u32
  sds_busiest_nr_running :: u32
  sds_group_imb :: bool

record sg_lb_stats =
  sgs_avg_load :: u32
  sgs_group_load :: u32
  sgs_sum_nr_running :: u32
  sgs_sum_weighted_load :: u32
  sgs_group_capacity :: u32
  sgs_group_imb :: bool

definition zero_sds :: sd_lb_stats where
  "zero_sds = \<lparr>sds_busiest = None, sds_this = None, sds_total_load = 0, sds_total_pwr = 0,
     sds_avg_load = 0, sds_this_load = 0, sds_this_load_per_task = 0, sds_this_nr_running = 0,
     sds_max_load = 0, sds_busiest_load_per_task = 0, sds_busiest_nr_running = 0,
     sds_group_imb = False\<rparr>"

definition zero_sgs :: sg_lb_stats where
  "zero_sgs = \<lparr>sgs_avg_load = 0, sgs_group_load = 0, sgs_sum_nr_running = 0,
     sgs_sum_weighted_load = 0, sgs_group_capacity = 0, sgs_group_imb = False\<rparr>"

definition group_first_cpu :: "nat \<Rightarrow> ('x kst, cpu) state" where
  "group_first_cpu g = gets (\<lambda>s. cpumask_first (sg_cpumask (k_sg s g)))"

definition get_sd_load_idx :: "sched_domain \<Rightarrow> cpu_idle_type \<Rightarrow> nat" where
  "get_sd_load_idx sd idle = (case idle of
     CPU_NOT_IDLE \<Rightarrow> sd_busy_idx sd
   | CPU_NEWLY_IDLE \<Rightarrow> sd_newidle_idx sd
   | CPU_IDLE \<Rightarrow> sd_idle_idx sd)"

definition check_power_save_busiest_group :: "sd_lb_stats \<Rightarrow> cpu \<Rightarrow> u32 \<Rightarrow> bool" where
  "check_power_save_busiest_group sds this_cpu imbalance = False"

text \<open>The loop over the CPUs of a group in \<open>update_sg_lb_stats\<close>, with its local variables.\<close>

record sg_tally =
  ty_sd_idle :: bool
  ty_balance_cpu :: cpu
  ty_first_idle :: bool
  ty_max :: u32
  ty_min :: u32
  ty_sum_avg :: u32
  ty_sgs :: sg_lb_stats

definition sg_tally_cpu :: "'x kops \<Rightarrow> bool \<Rightarrow> nat \<Rightarrow> cpu \<Rightarrow> sg_tally \<Rightarrow> ('x kst, sg_tally) state" where
  "sg_tally_cpu K local_group load_idx i ty = do {
     nr \<leftarrow> rq_get i rq_nr_running;
     idle \<leftarrow> idle_cpu i;
     load \<leftarrow> (if local_group then target_load K i load_idx else source_load K i load_idx);
     w \<leftarrow> weighted_cpuload i;
     avg \<leftarrow> cpu_avg_load_per_task i;
     ret (ty\<lparr>
       ty_sd_idle := (ty_sd_idle ty \<and> nr = 0),
       ty_balance_cpu := (if local_group \<and> idle \<and> \<not> ty_first_idle ty then i else ty_balance_cpu ty),
       ty_first_idle := (ty_first_idle ty \<or> local_group \<and> idle),
       ty_max := (if local_group then ty_max ty else max load (ty_max ty)),
       ty_min := (if local_group then ty_min ty else min load (ty_min ty)),
       ty_sum_avg := ty_sum_avg ty + avg,
       ty_sgs := (ty_sgs ty)\<lparr>
         sgs_group_load := sgs_group_load (ty_sgs ty) + load,
         sgs_sum_nr_running := sgs_sum_nr_running (ty_sgs ty) + nr,
         sgs_sum_weighted_load := sgs_sum_weighted_load (ty_sgs ty) + w\<rparr>\<rparr>) }"

fun sg_tally_loop ::
    "'x kops \<Rightarrow> bool \<Rightarrow> nat \<Rightarrow> cpu list \<Rightarrow> sg_tally \<Rightarrow> ('x kst, sg_tally) state" where
  "sg_tally_loop K local_group load_idx [] ty = ret ty"
| "sg_tally_loop K local_group load_idx (i # is) ty = do {
     ty' \<leftarrow> sg_tally_cpu K local_group load_idx i ty;
     sg_tally_loop K local_group load_idx is ty' }"

text \<open>\<open>update_sg_lb_stats\<close> starts from cleared statistics. It answers with them, with \<open>*sd_idle\<close>
  and with \<open>*balance\<close>, where \<open>balance\<close> may be \<open>NULL\<close>. \<open>balance_cpu = -1\<close> is no CPU.
  No answer (\<open>None\<close>) here and below: the code does not return.\<close>

definition update_sg_lb_stats ::
    "nat \<Rightarrow> 'x kops \<Rightarrow> nat \<Rightarrow> nat \<Rightarrow> cpu \<Rightarrow> cpu_idle_type \<Rightarrow> nat \<Rightarrow> bool \<Rightarrow> bool \<Rightarrow> cpumask \<Rightarrow>
     bool option \<Rightarrow> ('x kst, (sg_lb_stats \<times> bool \<times> bool option) option) state" where
  "update_sg_lb_stats fuel K sd grp this_cpu idle load_idx sd_idle local_group cpus balance = do {
     first \<leftarrow> group_first_cpu grp;
     and_then (if local_group \<and> first = this_cpu then update_group_power fuel K sd this_cpu
               else ret (Some ()))
     (\<lambda>_. do {
       cs \<leftarrow> gets (\<lambda>s. [i \<leftarrow> possible_cpus. i \<in> sg_cpumask (k_sg s grp) \<and> i \<in> cpus]);
       ty \<leftarrow> sg_tally_loop K local_group load_idx cs
         \<lparr>ty_sd_idle = sd_idle, ty_balance_cpu = (if local_group then first else NR_CPUS),
          ty_first_idle = False, ty_max = 0, ty_min = - 1, ty_sum_avg = 0, ty_sgs = zero_sgs\<rparr>;
       if idle \<noteq> CPU_NEWLY_IDLE \<and> local_group \<and> ty_balance_cpu ty \<noteq> this_cpu \<and> balance \<noteq> None
       then ret (Some (ty_sgs ty, ty_sd_idle ty, Some False))
       else do {
         power \<leftarrow> gets (\<lambda>s. sg_cpu_power (k_sg s grp));
         let avg = ty_sum_avg ty * SCHED_LOAD_SCALE div power;
         ret (Some ((ty_sgs ty)\<lparr>
           sgs_avg_load := sgs_group_load (ty_sgs ty) * SCHED_LOAD_SCALE div power,
           sgs_group_imb := (ty_max ty - ty_min ty > 2 * avg),
           sgs_group_capacity := DIV_ROUND_CLOSEST power SCHED_LOAD_SCALE\<rparr>,
           ty_sd_idle ty, balance)) } }) }"

text \<open>The body of the loop over the groups in \<open>update_sd_lb_stats\<close> after the group's statistics.\<close>

definition sd_lb_account ::
    "nat \<Rightarrow> u32 \<Rightarrow> bool \<Rightarrow> bool \<Rightarrow> sg_lb_stats \<Rightarrow> sd_lb_stats \<Rightarrow> sd_lb_stats" where
  "sd_lb_account grp pwr prefer_sibling local_group sgs0 sds0 =
     (let sds = sds0\<lparr>sds_total_load := sds_total_load sds0 + sgs_group_load sgs0,
                     sds_total_pwr := sds_total_pwr sds0 + pwr\<rparr>;
          sgs = (if prefer_sibling then sgs0\<lparr>sgs_group_capacity := min (sgs_group_capacity sgs0) 1\<rparr>
                 else sgs0)
      in if local_group then sds\<lparr>sds_this_load := sgs_avg_load sgs, sds_this := Some grp,
             sds_this_nr_running := sgs_sum_nr_running sgs,
             sds_this_load_per_task := sgs_sum_weighted_load sgs\<rparr>
         else if sgs_avg_load sgs > sds_max_load sds \<and>
                 (sgs_sum_nr_running sgs > sgs_group_capacity sgs \<or> sgs_group_imb sgs)
         then sds\<lparr>sds_max_load := sgs_avg_load sgs, sds_busiest := Some grp,
                sds_busiest_nr_running := sgs_sum_nr_running sgs,
                sds_busiest_load_per_task := sgs_sum_weighted_load sgs,
                sds_group_imb := sgs_group_imb sgs\<rparr>
         else sds)"

fun update_sd_lb_loop ::
    "nat \<Rightarrow> 'x kops \<Rightarrow> nat \<Rightarrow> cpu \<Rightarrow> cpu_idle_type \<Rightarrow> nat \<Rightarrow> bool \<Rightarrow> cpumask \<Rightarrow> nat list \<Rightarrow> bool \<Rightarrow>
     bool option \<Rightarrow> sd_lb_stats \<Rightarrow> ('x kst, (sd_lb_stats \<times> bool \<times> bool option) option) state" where
  "update_sd_lb_loop fuel K sd this_cpu idle load_idx pref cpus [] sd_idle balance sds =
     ret (Some (sds, sd_idle, balance))"
| "update_sd_lb_loop fuel K sd this_cpu idle load_idx pref cpus (g # gs) sd_idle balance sds = do {
     local_group \<leftarrow> gets (\<lambda>s. this_cpu \<in> sg_cpumask (k_sg s g));
     and_then (update_sg_lb_stats fuel K sd g this_cpu idle load_idx sd_idle local_group cpus balance)
     (\<lambda>(sgs, sd_idle', balance').
       if local_group \<and> balance' = Some False then ret (Some (sds, sd_idle', balance'))
       else do {
         power \<leftarrow> gets (\<lambda>s. sg_cpu_power (k_sg s g));
         update_sd_lb_loop fuel K sd this_cpu idle load_idx pref cpus gs sd_idle' balance'
           (sd_lb_account g power pref local_group sgs sds) }) }"

definition update_sd_lb_stats ::
    "nat \<Rightarrow> 'x kops \<Rightarrow> nat \<Rightarrow> cpu \<Rightarrow> cpu_idle_type \<Rightarrow> bool \<Rightarrow> cpumask \<Rightarrow> bool option \<Rightarrow>
     ('x kst, (sd_lb_stats \<times> bool \<times> bool option) option) state" where
  "update_sd_lb_stats fuel K sd this_cpu idle sd_idle cpus balance = do {
     d \<leftarrow> gets (\<lambda>s. k_sd s sd);
     prefer_sibling \<leftarrow> (case sd_child d of
        None \<Rightarrow> ret False
      | Some child \<Rightarrow> sd_flag child SD_PREFER_SIBLING);
     gs \<leftarrow> groups_of sd;
     update_sd_lb_loop fuel K sd this_cpu idle (get_sd_load_idx d idle) prefer_sibling cpus gs
       sd_idle balance zero_sds }"

subsection \<open>How much to move, and from where\<close>

text \<open>The arithmetic of \<open>fix_small_imbalance\<close>: \<open>bp\<close> and \<open>tp\<close> are the powers of the busiest
  group and of this one, \<open>lpt\<close> is the local load per task, \<open>imb\<close> the value so far.\<close>

definition small_imbalance :: "sd_lb_stats \<Rightarrow> u32 \<Rightarrow> u32 \<Rightarrow> u32 \<Rightarrow> u32 \<Rightarrow> u32" where
  "small_imbalance sds lpt bp tp imb =
     (let bl = sds_busiest_load_per_task sds; mx = sds_max_load sds; th = sds_this_load sds;
          pwr_now = (bp * min bl mx + tp * min lpt th) div SCHED_LOAD_SCALE;
          tmp = bl * SCHED_LOAD_SCALE div bp;
          move1 = (if mx > tmp then bp * min bl (mx - tmp) else 0);
          tmp' = (if mx * bp < bl * SCHED_LOAD_SCALE then mx * bp div tp
                  else bl * SCHED_LOAD_SCALE div tp);
          pwr_move = (move1 + tp * min lpt (th + tmp')) div SCHED_LOAD_SCALE
      in if pwr_move > pwr_now then bl else imb)"

definition fix_small_imbalance :: "sd_lb_stats \<Rightarrow> cpu \<Rightarrow> u32 \<Rightarrow> ('x kst, u32 option) state" where
  "fix_small_imbalance sds this_cpu imb = do {
     (lpt, imbn) \<leftarrow> (if sds_this_nr_running sds \<noteq> 0
        then ret (let lpt = sds_this_load_per_task sds div sds_this_nr_running sds in
             (lpt, if sds_busiest_load_per_task sds > lpt then 1 else 2))
        else do { lpt \<leftarrow> cpu_avg_load_per_task this_cpu; ret (lpt, 2 :: u32) });
     if sds_max_load sds - sds_this_load sds + sds_busiest_load_per_task sds \<ge>
        sds_busiest_load_per_task sds * imbn
     then ret (Some (sds_busiest_load_per_task sds))
     else (case (sds_busiest sds, sds_this sds) of
        (Some b, Some t) \<Rightarrow> gets (\<lambda>s. Some (small_imbalance sds lpt
           (sg_cpu_power (k_sg s b)) (sg_cpu_power (k_sg s t)) imb))
      | _ \<Rightarrow> ret None) }"

definition calculate_imbalance :: "sd_lb_stats \<Rightarrow> cpu \<Rightarrow> ('x kst, u32 option) state" where
  "calculate_imbalance sds this_cpu =
     (if sds_max_load sds < sds_avg_load sds then fix_small_imbalance sds this_cpu 0
      else (case (sds_busiest sds, sds_this sds) of
         (Some b, Some t) \<Rightarrow> do {
           bp \<leftarrow> gets (\<lambda>s. sg_cpu_power (k_sg s b));
           tp \<leftarrow> gets (\<lambda>s. sg_cpu_power (k_sg s t));
           let max_pull = min (sds_max_load sds - sds_avg_load sds)
                 (sds_max_load sds - sds_busiest_load_per_task sds);
           let imb = min (max_pull * bp) ((sds_avg_load sds - sds_this_load sds) * tp)
                 div SCHED_LOAD_SCALE;
           if imb < sds_busiest_load_per_task sds then fix_small_imbalance sds this_cpu imb
           else ret (Some imb) }
       | _ \<Rightarrow> ret None))"

text \<open>The tests of \<open>find_busiest_group\<close>: \<open>None\<close> is \<open>out_balanced\<close>, \<open>Some\<close> are the statistics
  \<open>calculate_imbalance\<close> gets.\<close>

definition imbalance_case :: "sched_domain \<Rightarrow> sd_lb_stats \<Rightarrow> sd_lb_stats option" where
  "imbalance_case sd sds =
     (if sds_busiest sds = None \<or> sds_busiest_nr_running sds = 0 then None
      else if sds_this_load sds \<ge> sds_max_load sds then None
      else let avg = SCHED_LOAD_SCALE * sds_total_load sds div sds_total_pwr sds in
        if sds_this_load sds \<ge> avg then None
        else if 100 * sds_max_load sds \<le> sd_imbalance_pct sd * sds_this_load sds then None
        else let bl = sds_busiest_load_per_task sds div sds_busiest_nr_running sds;
                 bl' = (if sds_group_imb sds then min bl avg else bl) in
          if sds_max_load sds \<le> bl' then None
          else Some (sds\<lparr>sds_avg_load := avg, sds_busiest_load_per_task := bl'\<rparr>))"

text \<open>The answer: the group if any, \<open>*imbalance\<close>, \<open>*sd_idle\<close> and \<open>*balance\<close>.\<close>

definition find_busiest_group ::
    "nat \<Rightarrow> 'x kops \<Rightarrow> nat \<Rightarrow> cpu \<Rightarrow> cpu_idle_type \<Rightarrow> bool \<Rightarrow> cpumask \<Rightarrow> bool option \<Rightarrow>
     ('x kst, (nat option \<times> u32 \<times> bool \<times> bool option) option) state" where
  "find_busiest_group fuel K sd this_cpu idle sd_idle cpus balance =
     and_then (update_sd_lb_stats fuel K sd this_cpu idle sd_idle cpus balance)
     (\<lambda>(sds, sd_idle', balance').
       if balance' = Some False then ret (Some (None, 0, sd_idle', balance'))
       else do {
         d \<leftarrow> gets (\<lambda>s. k_sd s sd);
         (case imbalance_case d sds of
            None \<Rightarrow> ret (Some (None, 0, sd_idle', balance'))
          | Some sds' \<Rightarrow> and_then (calculate_imbalance sds' this_cpu)
              (\<lambda>imb. ret (Some (sds_busiest sds', imb, sd_idle', balance')))) })"

fun find_busiest_queue_loop ::
    "u32 \<Rightarrow> cpumask \<Rightarrow> cpu list \<Rightarrow> u32 \<Rightarrow> cpu option \<Rightarrow> ('x kst, cpu option) state" where
  "find_busiest_queue_loop imbalance cpus [] max_load busiest = ret busiest"
| "find_busiest_queue_loop imbalance cpus (i # is) max_load busiest = do {
     power \<leftarrow> power_of i;
     let capacity = DIV_ROUND_CLOSEST power SCHED_LOAD_SCALE;
     w \<leftarrow> weighted_cpuload i;
     nr \<leftarrow> rq_get i rq_nr_running;
     let wl = w * SCHED_LOAD_SCALE div power;
     if i \<notin> cpus \<or> capacity \<noteq> 0 \<and> nr = 1 \<and> wl > imbalance \<or> \<not> wl > max_load
     then find_busiest_queue_loop imbalance cpus is max_load busiest
     else find_busiest_queue_loop imbalance cpus is wl (Some i) }"

definition find_busiest_queue :: "nat \<Rightarrow> u32 \<Rightarrow> cpumask \<Rightarrow> ('x kst, cpu option) state" where
  "find_busiest_queue grp imbalance cpus = do {
     cs \<leftarrow> gets (\<lambda>s. [i \<leftarrow> possible_cpus. i \<in> sg_cpumask (k_sg s grp)]);
     find_busiest_queue_loop imbalance cpus cs 0 None }"

subsection \<open>A balancing pass\<close>

definition MAX_PINNED_INTERVAL :: u32 where "MAX_PINNED_INTERVAL = 512"

text \<open>How the part of \<open>load_balance\<close> up to the balancing of one queue ends: balanced
  (\<open>*all_pinned\<close>, \<open>sd_idle\<close>, \<open>*balance\<close>), or a move from a queue was tried (the queue,
  whether something moved, \<open>all_pinned\<close>, \<open>sd_idle\<close>, \<open>*balance\<close>).\<close>

datatype lb_exit =
    Lb_balanced bool bool "bool option"
  | Lb_tried cpu bool bool bool "bool option"

definition lb_move ::
    "'x kops \<Rightarrow> cpu \<Rightarrow> cpu \<Rightarrow> u32 \<Rightarrow> nat \<Rightarrow> cpu_idle_type \<Rightarrow> bool \<Rightarrow> ('x kst, bool \<times> bool) state" where
  "lb_move K this_cpu busiest imbalance sd idle all_pinned = do {
     flags \<leftarrow> local_irq_save;
     double_rq_lock K this_cpu busiest;
     (ld_moved, all_pinned') \<leftarrow> move_tasks K this_cpu busiest imbalance sd idle all_pinned;
     double_rq_unlock this_cpu busiest;
     local_irq_restore flags;
     me \<leftarrow> gets k_this_cpu;
     when_m (ld_moved \<and> this_cpu \<noteq> me) (resched_cpu K this_cpu);
     ret (ld_moved, all_pinned') }"

text \<open>From \<open>redo\<close>: a queue whose tasks are all pinned is left out of the next round. \<open>NR_CPUS\<close>
  rounds are enough (\<open>lb_rounds_bound\<close>).\<close>

fun lb_rounds ::
    "nat \<Rightarrow> nat \<Rightarrow> 'x kops \<Rightarrow> cpu \<Rightarrow> nat \<Rightarrow> cpu_idle_type \<Rightarrow> cpumask \<Rightarrow> bool \<Rightarrow> bool \<Rightarrow> bool option \<Rightarrow>
     ('x kst, lb_exit option) state" where
  "lb_rounds 0 fuel K this_cpu sd idle cpus all_pinned sd_idle balance = ret None"
| "lb_rounds (Suc n) fuel K this_cpu sd idle cpus all_pinned sd_idle balance =
     and_then (find_busiest_group fuel K sd this_cpu idle sd_idle cpus balance)
     (\<lambda>(grp, imbalance, sd_idle', balance').
       if balance' = Some False then ret (Some (Lb_balanced all_pinned sd_idle' balance'))
       else (case grp of
         None \<Rightarrow> ret (Some (Lb_balanced all_pinned sd_idle' balance'))
       | Some g \<Rightarrow> do {
           q \<leftarrow> find_busiest_queue g imbalance cpus;
           (case q of
              None \<Rightarrow> ret (Some (Lb_balanced all_pinned sd_idle' balance'))
            | Some busiest \<Rightarrow>
                if busiest = this_cpu then do { log_event Sched_bug; ret None }
                else do {
                  nr \<leftarrow> rq_get busiest rq_nr_running;
                  if nr \<le> 1 then ret (Some (Lb_tried busiest False all_pinned sd_idle' balance'))
                  else do {
                    (ld_moved, pinned) \<leftarrow> lb_move K this_cpu busiest imbalance sd idle all_pinned;
                    if \<not> pinned then ret (Some (Lb_tried busiest ld_moved pinned sd_idle' balance'))
                    else if cpus - {busiest} \<noteq> {}
                    then lb_rounds n fuel K this_cpu sd idle (cpus - {busiest}) pinned sd_idle' balance'
                    else ret (Some (Lb_balanced pinned sd_idle' balance')) } }) }))"

text \<open>\<open>ld_moved = -1\<close>: an SMT sibling is busy.\<close>

definition lb_sibling_busy :: "nat \<Rightarrow> bool \<Rightarrow> ('x kst, bool) state" where
  "lb_sibling_busy sd sd_idle = do {
     share \<leftarrow> sd_flag sd SD_SHARE_CPUPOWER;
     savings \<leftarrow> test_sd_parent sd SD_POWERSAVINGS_BALANCE;
     ret (\<not> sd_idle \<and> share \<and> \<not> savings) }"

definition lb_out_one_pinned :: "nat \<Rightarrow> bool \<Rightarrow> bool \<Rightarrow> ('x kst, int) state" where
  "lb_out_one_pinned sd all_pinned sd_idle = do {
     upd_sd sd (\<lambda>d. if all_pinned \<and> sd_balance_interval d < MAX_PINNED_INTERVAL \<or>
         sd_balance_interval d < sd_max_interval d
       then d\<lparr>sd_balance_interval := sd_balance_interval d * 2\<rparr> else d);
     b \<leftarrow> lb_sibling_busy sd sd_idle;
     ret (if b then - 1 else 0) }"

definition lb_out_balanced :: "nat \<Rightarrow> bool \<Rightarrow> bool \<Rightarrow> ('x kst, int) state" where
  "lb_out_balanced sd all_pinned sd_idle = do {
     upd_sd sd (\<lambda>d. d\<lparr>sd_nr_balance_failed := 0\<rparr>);
     lb_out_one_pinned sd all_pinned sd_idle }"

text \<open>What follows when nothing moved. \<open>None\<close>: the running task of the busiest CPU may not come
  here (\<open>out_one_pinned\<close>); otherwise whether the migration thread was kicked.\<close>

definition lb_failed :: "'x kops \<Rightarrow> cpu \<Rightarrow> nat \<Rightarrow> cpu \<Rightarrow> ('x kst, bool option) state" where
  "lb_failed K this_cpu sd busiest = do {
     upd_sd sd (\<lambda>d. d\<lparr>sd_nr_balance_failed := sd_nr_balance_failed d + 1\<rparr>);
     d \<leftarrow> gets (\<lambda>s. k_sd s sd);
     if \<not> sd_nr_balance_failed d > sd_cache_nice_tries d + 2 then ret (Some False)
     else do {
       flags \<leftarrow> spin_lock_irqsave (Rq_lock busiest);
       allowed \<leftarrow> gets (\<lambda>s. this_cpu \<in> t_cpus_allowed (k_task s (rq_curr (k_rq s busiest))));
       if \<not> allowed then do { spin_unlock_irqrestore (Rq_lock busiest) flags; ret None }
       else do {
         already \<leftarrow> rq_get busiest rq_active_balance;
         when_m (\<not> already) (upd_rq busiest (\<lambda>r. r\<lparr>rq_active_balance := True, rq_push_cpu := this_cpu\<rparr>));
         spin_unlock_irqrestore (Rq_lock busiest) flags;
         thread \<leftarrow> rq_get busiest rq_migration_thread;
         when_m (\<not> already) (wake_thread K thread);
         upd_sd sd (\<lambda>d. d\<lparr>sd_nr_balance_failed := sd_cache_nice_tries d + 1\<rparr>);
         ret (Some (\<not> already)) } } }"

definition lb_out_unbalanced :: "nat \<Rightarrow> bool \<Rightarrow> bool \<Rightarrow> bool \<Rightarrow> ('x kst, int) state" where
  "lb_out_unbalanced sd active_balance ld_moved sd_idle = do {
     upd_sd sd (\<lambda>d. if \<not> active_balance then d\<lparr>sd_balance_interval := sd_min_interval d\<rparr>
       else if sd_balance_interval d < sd_max_interval d
       then d\<lparr>sd_balance_interval := sd_balance_interval d * 2\<rparr> else d);
     b \<leftarrow> lb_sibling_busy sd sd_idle;
     ret (if ld_moved then 1 else if b then - 1 else 0) }"

definition load_balance ::
    "nat \<Rightarrow> 'x kops \<Rightarrow> cpu \<Rightarrow> nat \<Rightarrow> cpu_idle_type \<Rightarrow> bool \<Rightarrow> ('x kst, (int \<times> bool) option) state" where
  "load_balance fuel K this_cpu sd idle balance = do {
     share \<leftarrow> sd_flag sd SD_SHARE_CPUPOWER;
     savings \<leftarrow> test_sd_parent sd SD_POWERSAVINGS_BALANCE;
     let sd_idle = (idle \<noteq> CPU_NOT_IDLE \<and> share \<and> \<not> savings);
     and_then (lb_rounds NR_CPUS fuel K this_cpu sd idle {0..<NR_CPUS} False sd_idle (Some balance))
     (\<lambda>e. case e of
        Lb_balanced pinned sd_idle' balance' \<Rightarrow> do {
          r \<leftarrow> lb_out_balanced sd pinned sd_idle';
          ret (Some (r, the balance')) }
      | Lb_tried busiest ld_moved pinned sd_idle' balance' \<Rightarrow>
          if ld_moved then do {
            upd_sd sd (\<lambda>d. d\<lparr>sd_nr_balance_failed := 0\<rparr>);
            r \<leftarrow> lb_out_unbalanced sd False True sd_idle';
            ret (Some (r, the balance')) }
          else do {
            kicked \<leftarrow> lb_failed K this_cpu sd busiest;
            (case kicked of
               None \<Rightarrow> do {
                 r \<leftarrow> lb_out_one_pinned sd True sd_idle';
                 ret (Some (r, the balance')) }
             | Some active \<Rightarrow> do {
                 r \<leftarrow> lb_out_unbalanced sd active False sd_idle';
                 ret (Some (r, the balance')) }) }) }"

subsection \<open>Balancing a CPU that becomes idle\<close>

fun newidle_rounds ::
    "nat \<Rightarrow> nat \<Rightarrow> 'x kops \<Rightarrow> cpu \<Rightarrow> nat \<Rightarrow> cpumask \<Rightarrow> bool \<Rightarrow> bool \<Rightarrow> ('x kst, lb_exit option) state" where
  "newidle_rounds 0 fuel K this_cpu sd cpus all_pinned sd_idle = ret None"
| "newidle_rounds (Suc n) fuel K this_cpu sd cpus all_pinned sd_idle =
     and_then (find_busiest_group fuel K sd this_cpu CPU_NEWLY_IDLE sd_idle cpus None)
     (\<lambda>(grp, imbalance, sd_idle', _). (case grp of
         None \<Rightarrow> ret (Some (Lb_balanced all_pinned sd_idle' None))
       | Some g \<Rightarrow> do {
           q \<leftarrow> find_busiest_queue g imbalance cpus;
           (case q of
              None \<Rightarrow> ret (Some (Lb_balanced all_pinned sd_idle' None))
            | Some busiest \<Rightarrow>
                if busiest = this_cpu then do { log_event Sched_bug; ret None }
                else do {
                  nr \<leftarrow> rq_get busiest rq_nr_running;
                  if nr \<le> 1 then ret (Some (Lb_tried busiest False all_pinned sd_idle' None))
                  else do {
                    _ \<leftarrow> double_lock_balance K this_cpu busiest;
                    update_rq_clock K busiest;
                    (ld_moved, pinned) \<leftarrow>
                      move_tasks K this_cpu busiest imbalance sd CPU_NEWLY_IDLE all_pinned;
                    double_unlock_balance this_cpu busiest;
                    if pinned \<and> cpus - {busiest} \<noteq> {}
                    then newidle_rounds n fuel K this_cpu sd (cpus - {busiest}) pinned sd_idle'
                    else ret (Some (Lb_tried busiest ld_moved pinned sd_idle' None)) } }) }))"

text \<open>Nothing moved although a busiest queue was found: the answer of \<open>load_balance_newidle\<close>, with
  whether the code goes on to its last \<open>update_shares_locked\<close>.\<close>

definition newidle_failed :: "'x kops \<Rightarrow> cpu \<Rightarrow> nat \<Rightarrow> cpu \<Rightarrow> bool \<Rightarrow> ('x kst, int) state" where
  "newidle_failed K this_cpu sd busiest sd_idle = do {
     sib \<leftarrow> lb_sibling_busy sd sd_idle;
     mc \<leftarrow> gets (\<lambda>s. sched_mc_power_savings (k_sysctl s));
     if sib then ret (- 1)
     else if mc < POWERSAVINGS_BALANCE_WAKEUP then ret (- 1)
     else do {
       fails \<leftarrow> gets (\<lambda>s. sd_nr_balance_failed (k_sd s sd));
       upd_sd sd (\<lambda>d. d\<lparr>sd_nr_balance_failed := sd_nr_balance_failed d + 1\<rparr>);
       if fails < 2 then ret (- 1)
       else do {
         _ \<leftarrow> double_lock_balance K this_cpu busiest;
         allowed \<leftarrow> gets (\<lambda>s. this_cpu \<in> t_cpus_allowed (k_task s (rq_curr (k_rq s busiest))));
         if \<not> allowed then do { double_unlock_balance this_cpu busiest; ret 0 }
         else do {
           already \<leftarrow> rq_get busiest rq_active_balance;
           when_m (\<not> already)
             (upd_rq busiest (\<lambda>r. r\<lparr>rq_active_balance := True, rq_push_cpu := this_cpu\<rparr>));
           double_unlock_balance this_cpu busiest;
           spin_unlock (Rq_lock this_cpu);
           thread \<leftarrow> rq_get busiest rq_migration_thread;
           when_m (\<not> already) (wake_thread K thread);
           spin_lock (Rq_lock this_cpu);
           ret 0 } } } }"

definition load_balance_newidle ::
    "nat \<Rightarrow> 'x kops \<Rightarrow> cpu \<Rightarrow> nat \<Rightarrow> ('x kst, int option) state" where
  "load_balance_newidle fuel K this_cpu sd = do {
     sd_idle \<leftarrow> lb_sibling_busy sd False;
     and_then (newidle_rounds NR_CPUS fuel K this_cpu sd {0..<NR_CPUS} False sd_idle)
     (\<lambda>e. case e of
        Lb_balanced pinned sd_idle' balance' \<Rightarrow> do {
          sib \<leftarrow> lb_sibling_busy sd sd_idle';
          if sib then ret (Some (- 1))
          else do { upd_sd sd (\<lambda>d. d\<lparr>sd_nr_balance_failed := 0\<rparr>); ret (Some 0) } }
      | Lb_tried busiest ld_moved pinned sd_idle' balance' \<Rightarrow>
          if ld_moved then do { upd_sd sd (\<lambda>d. d\<lparr>sd_nr_balance_failed := 0\<rparr>); ret (Some 1) }
          else do { r \<leftarrow> newidle_failed K this_cpu sd busiest sd_idle'; ret (Some r) }) }"

text \<open>The loop of \<open>idle_balance\<close>: the domains, \<open>pulled_task\<close>, \<open>next_balance\<close>.\<close>

fun idle_balance_loop ::
    "nat \<Rightarrow> 'x kops \<Rightarrow> cpu \<Rightarrow> nat list \<Rightarrow> int \<Rightarrow> u32 \<Rightarrow> ('x kst, (int \<times> u32) option) state" where
  "idle_balance_loop fuel K this_cpu [] pulled next_bal = ret (Some (pulled, next_bal))"
| "idle_balance_loop fuel K this_cpu (sd # sds) pulled next_bal = do {
     lb \<leftarrow> sd_flag sd SD_LOAD_BALANCE;
     newidle \<leftarrow> sd_flag sd SD_BALANCE_NEWIDLE;
     if \<not> lb then idle_balance_loop fuel K this_cpu sds pulled next_bal
     else and_then (if newidle then load_balance_newidle fuel K this_cpu sd else ret (Some pulled))
     (\<lambda>pulled'. do {
       d \<leftarrow> gets (\<lambda>s. k_sd s sd);
       let interval = msecs_to_jiffies (services K) (sd_balance_interval d);
       let next_bal' = (if time_after next_bal (sd_last_balance d + interval)
         then sd_last_balance d + interval else next_bal);
       if pulled' \<noteq> 0 then ret (Some (pulled', next_bal'))
       else idle_balance_loop fuel K this_cpu sds pulled' next_bal' }) }"

definition idle_balance :: "nat \<Rightarrow> 'x kops \<Rightarrow> cpu \<Rightarrow> ('x kst, unit option) state" where
  "idle_balance fuel K this_cpu = do {
     now \<leftarrow> gets k_jiffies;
     sds \<leftarrow> for_each_domain this_cpu;
     and_then (idle_balance_loop fuel K this_cpu sds 0 (now + HZ))
     (\<lambda>(pulled, next_bal). do {
       now' \<leftarrow> gets k_jiffies;
       cur \<leftarrow> rq_get this_cpu rq_next_balance;
       when_m (pulled \<noteq> 0 \<or> time_after now' cur)
         (upd_rq this_cpu (\<lambda>r. r\<lparr>rq_next_balance := next_bal\<rparr>));
       ret (Some ()) }) }"

definition active_load_balance :: "'x kops \<Rightarrow> cpu \<Rightarrow> ('x kst, unit) state" where
  "active_load_balance K busiest_cpu = do {
     target_cpu \<leftarrow> rq_get busiest_cpu rq_push_cpu;
     nr \<leftarrow> rq_get busiest_cpu rq_nr_running;
     if nr \<le> 1 then skip
     else if busiest_cpu = target_cpu then log_event Sched_bug
     else do {
       _ \<leftarrow> double_lock_balance K busiest_cpu target_cpu;
       update_rq_clock K busiest_cpu;
       update_rq_clock K target_cpu;
       sds \<leftarrow> for_each_domain target_cpu;
       sd \<leftarrow> gets (\<lambda>s. find (\<lambda>d. sd_flags (k_sd s d) AND SD_LOAD_BALANCE \<noteq> 0 \<and>
          busiest_cpu \<in> sd_span (k_sd s d)) sds);
       (case sd of
          None \<Rightarrow> skip
        | Some sd \<Rightarrow> do {
            _ \<leftarrow> move_one_task K target_cpu busiest_cpu sd CPU_IDLE;
            skip });
       double_unlock_balance busiest_cpu target_cpu } }"

subsection \<open>Who balances for the CPUs without a tick\<close>

definition get_nohz_load_balancer :: "('x kst, int) state" where
  "get_nohz_load_balancer = gets k_nohz_balancer"

text \<open>\<open>atomic_cmpxchg(&nohz.load_balancer, old, new)\<close>.\<close>

definition nohz_cmpxchg :: "int \<Rightarrow> int \<Rightarrow> ('x kst, int) state" where
  "nohz_cmpxchg old new = do {
     v \<leftarrow> gets k_nohz_balancer;
     when_m (v = old) (modify (\<lambda>s. s\<lparr>k_nohz_balancer := new\<rparr>));
     ret v }"

definition find_new_ilb :: "cpu \<Rightarrow> ('x kst, cpu) state" where
  "find_new_ilb call_cpu = gets (\<lambda>s. cpumask_first (k_nohz_mask s))"

definition give_up_nohz :: "cpu \<Rightarrow> ('x kst, unit) state" where
  "give_up_nohz cpu = do {
     v \<leftarrow> nohz_cmpxchg (int cpu) (- 1);
     when_m (v \<noteq> int cpu) (log_event Sched_bug) }"

definition select_nohz_load_balancer :: "'x kops \<Rightarrow> bool \<Rightarrow> ('x kst, bool) state" where
  "select_nohz_load_balancer K stop_tick = do {
     cpu \<leftarrow> gets k_this_cpu;
     if stop_tick then do {
       upd_rq cpu (\<lambda>r. r\<lparr>rq_in_nohz_recently := True\<rparr>);
       act \<leftarrow> gets (\<lambda>s. cpu \<in> k_active s);
       if \<not> act then do {
         b \<leftarrow> get_nohz_load_balancer;
         if b \<noteq> int cpu then ret False
         else do { give_up_nohz cpu; ret False } }
       else do {
         modify (\<lambda>s. s\<lparr>k_nohz_mask := insert cpu (k_nohz_mask s)\<rparr>);
         everyone \<leftarrow> gets (\<lambda>s. cpumask_weight (k_nohz_mask s) = cpumask_weight (k_online s));
         b \<leftarrow> get_nohz_load_balancer;
         if everyone then do {
           when_m (b = int cpu) (modify (\<lambda>s. s\<lparr>k_nohz_balancer := - 1\<rparr>));
           ret False }
         else if b = - 1 then do {
           v \<leftarrow> nohz_cmpxchg (- 1) (int cpu);
           ret (v = - 1) }
         else if b = int cpu then do {
           power \<leftarrow> gets (\<lambda>s. sched_smt_power_savings (k_sysctl s) \<noteq> 0 \<or>
             sched_mc_power_savings (k_sysctl s) \<noteq> 0);
           if \<not> power then ret True
           else do {
             new_ilb \<leftarrow> find_new_ilb cpu;
             if new_ilb < NR_CPUS \<and> new_ilb \<noteq> cpu then do {
               modify (\<lambda>s. s\<lparr>k_nohz_balancer := - 1\<rparr>);
               resched_cpu K new_ilb;
               ret False }
             else ret True } }
         else ret False } }
     else do {
       inm \<leftarrow> gets (\<lambda>s. cpu \<in> k_nohz_mask s);
       if \<not> inm then ret False
       else do {
         modify (\<lambda>s. s\<lparr>k_nohz_mask := k_nohz_mask s - {cpu}\<rparr>);
         b \<leftarrow> get_nohz_load_balancer;
         when_m (b = int cpu) (give_up_nohz cpu);
         ret False } } }"

subsection \<open>Periodic balancing\<close>

definition rebalance_interval :: "'x kops \<Rightarrow> sched_domain \<Rightarrow> cpu_idle_type \<Rightarrow> u32" where
  "rebalance_interval K d idle =
     (let i1 = (if idle \<noteq> CPU_IDLE then sd_balance_interval d * sd_busy_factor d
                else sd_balance_interval d);
          i2 = msecs_to_jiffies (services K) i1;
          i3 = (if i2 = 0 then 1 else i2)
      in if i3 > HZ * of_nat NR_CPUS div 10 then HZ * of_nat NR_CPUS div 10 else i3)"

fun rebalance_loop ::
    "nat \<Rightarrow> 'x kops \<Rightarrow> cpu \<Rightarrow> nat list \<Rightarrow> cpu_idle_type \<Rightarrow> bool \<Rightarrow> u32 \<Rightarrow> bool \<Rightarrow>
     ('x kst, (u32 \<times> bool) option) state" where
  "rebalance_loop fuel K cpu [] idle balance next_bal upd = ret (Some (next_bal, upd))"
| "rebalance_loop fuel K cpu (sd # sds) idle balance next_bal upd = do {
     d \<leftarrow> gets (\<lambda>s. k_sd s sd);
     if sd_flags d AND SD_LOAD_BALANCE = 0 then rebalance_loop fuel K cpu sds idle balance next_bal upd
     else do {
       let interval = rebalance_interval K d idle;
       let serialize = (sd_flags d AND SD_SERIALIZE \<noteq> 0);
       got \<leftarrow> gets (\<lambda>s. spin_trylock_ok (services K) Balancing_lock (k_ext s));
       and_then (if serialize \<and> \<not> got then ret (Some (idle, balance))
         else do {
           when_m serialize (log_event (Spin_lock Balancing_lock));
           now \<leftarrow> gets k_jiffies;
           and_then (if time_after_eq now (sd_last_balance d + interval)
             then and_then (load_balance fuel K cpu sd idle balance) (\<lambda>(r, balance'). do {
               now' \<leftarrow> gets k_jiffies;
               upd_sd sd (\<lambda>d. d\<lparr>sd_last_balance := now'\<rparr>);
               ret (Some (if r \<noteq> 0 then CPU_NOT_IDLE else idle, balance')) })
             else ret (Some (idle, balance)))
           (\<lambda>ib. do {
             when_m serialize (log_event (Spin_unlock Balancing_lock));
             ret (Some ib) }) })
       (\<lambda>(idle', balance'). do {
         last \<leftarrow> gets (\<lambda>s. sd_last_balance (k_sd s sd));
         let sooner = time_after next_bal (last + interval);
         let next_bal' = (if sooner then last + interval else next_bal);
         if \<not> balance' then ret (Some (next_bal', upd \<or> sooner))
         else rebalance_loop fuel K cpu sds idle' balance' next_bal' (upd \<or> sooner) }) } }"

definition rebalance_domains :: "nat \<Rightarrow> 'x kops \<Rightarrow> cpu \<Rightarrow> cpu_idle_type \<Rightarrow> ('x kst, unit option) state" where
  "rebalance_domains fuel K cpu idle = do {
     now \<leftarrow> gets k_jiffies;
     sds \<leftarrow> for_each_domain cpu;
     and_then (rebalance_loop fuel K cpu sds idle True (now + 60 * HZ) False)
     (\<lambda>(next_bal, upd). do {
       when_m upd (upd_rq cpu (\<lambda>r. r\<lparr>rq_next_balance := next_bal\<rparr>));
       ret (Some ()) }) }"

fun nohz_rebalance_loop :: "nat \<Rightarrow> 'x kops \<Rightarrow> cpu \<Rightarrow> cpu list \<Rightarrow> ('x kst, unit option) state" where
  "nohz_rebalance_loop fuel K this_cpu [] = ret (Some ())"
| "nohz_rebalance_loop fuel K this_cpu (balance_cpu # cs) = do {
     inm \<leftarrow> gets (\<lambda>s. balance_cpu \<in> k_nohz_mask s);
     if \<not> inm \<or> balance_cpu = this_cpu then nohz_rebalance_loop fuel K this_cpu cs
     else do {
       need \<leftarrow> gets (\<lambda>s. t_need_resched (k_task s (k_current s)));
       if need then ret (Some ())
       else and_then (rebalance_domains fuel K balance_cpu CPU_IDLE) (\<lambda>_. do {
         theirs \<leftarrow> rq_get balance_cpu rq_next_balance;
         mine \<leftarrow> rq_get this_cpu rq_next_balance;
         when_m (time_after mine theirs) (upd_rq this_cpu (\<lambda>r. r\<lparr>rq_next_balance := theirs\<rparr>));
         nohz_rebalance_loop fuel K this_cpu cs }) } }"

definition run_rebalance_domains :: "nat \<Rightarrow> 'x kops \<Rightarrow> ('x kst, unit option) state" where
  "run_rebalance_domains fuel K = do {
     this_cpu \<leftarrow> gets k_this_cpu;
     tick_idle \<leftarrow> rq_get this_cpu rq_idle_at_tick;
     and_then (rebalance_domains fuel K this_cpu (if tick_idle then CPU_IDLE else CPU_NOT_IDLE))
     (\<lambda>_. do {
       tick_idle' \<leftarrow> rq_get this_cpu rq_idle_at_tick;
       b \<leftarrow> get_nohz_load_balancer;
       if tick_idle' \<and> b = int this_cpu then nohz_rebalance_loop fuel K this_cpu possible_cpus
       else ret (Some ()) }) }"

definition on_null_domain :: "cpu \<Rightarrow> ('x kst, bool) state" where
  "on_null_domain cpu = rq_get cpu (\<lambda>r. rq_sd r = None)"

text \<open>The nomination at the start of \<open>trigger_load_balance\<close>, for a CPU that is busy again.\<close>

definition nominate_new_ilb :: "'x kops \<Rightarrow> cpu \<Rightarrow> ('x kst, unit) state" where
  "nominate_new_ilb K cpu = do {
     upd_rq cpu (\<lambda>r. r\<lparr>rq_in_nohz_recently := False\<rparr>);
     b \<leftarrow> get_nohz_load_balancer;
     when_m (b = int cpu) (do {
       modify (\<lambda>s. s\<lparr>k_nohz_mask := k_nohz_mask s - {cpu}\<rparr>);
       modify (\<lambda>s. s\<lparr>k_nohz_balancer := - 1\<rparr>) });
     b' \<leftarrow> get_nohz_load_balancer;
     when_m (b' = - 1) (do {
       ilb \<leftarrow> find_new_ilb cpu;
       when_m (ilb < NR_CPUS) (resched_cpu K ilb) }) }"

definition trigger_load_balance :: "'x kops \<Rightarrow> cpu \<Rightarrow> ('x kst, unit) state" where
  "trigger_load_balance K cpu = do {
     recently \<leftarrow> rq_get cpu rq_in_nohz_recently;
     tick_idle \<leftarrow> rq_get cpu rq_idle_at_tick;
     when_m (recently \<and> \<not> tick_idle) (nominate_new_ilb K cpu);
     b \<leftarrow> get_nohz_load_balancer;
     everyone \<leftarrow> gets (\<lambda>s. cpumask_weight (k_nohz_mask s) = cpumask_weight (k_online s));
     inm \<leftarrow> gets (\<lambda>s. cpu \<in> k_nohz_mask s);
     if tick_idle \<and> b = int cpu \<and> everyone then resched_cpu K cpu
     else if tick_idle \<and> b \<noteq> int cpu \<and> inm then skip
     else do {
       now \<leftarrow> gets k_jiffies;
       next_bal \<leftarrow> rq_get cpu rq_next_balance;
       nodom \<leftarrow> on_null_domain cpu;
       when_m (time_after_eq now next_bal \<and> \<not> nodom) (log_event Raise_softirq) } }"

end
