(* ===== verification/Sched_schedule.thy ===== *)
theory Sched_schedule
  imports Sched_force Sched_balance
begin

text \<open>
  \<open>sched_mod.c\<close>: \<open>schedule\<close>, the function the patch changes, with all it calls in the file, and
  the original from \<open>sched_orig.c\<close> beside it. The model follows a CPU: after \<open>switch_to\<close> the
  CPU goes on inside the \<open>schedule\<close> call in which the next task was switched out earlier, with
  that call's local variables (\<open>k_frame\<close>), or, for a task that never ran, in
  \<open>schedule_tail\<close>. The kernel is not preemptible (CONFIG_PREEMPT_NONE), so that
  \<open>preempt_disable\<close> and \<open>preempt_enable\<close> only appear in the log.
\<close>

subsection \<open>The high resolution preemption tick\<close>

definition hrtick_enabled :: "'x kops \<Rightarrow> cpu \<Rightarrow> ('x kst, bool) state" where
  "hrtick_enabled K rq = do {
     feat \<leftarrow> sched_feat K HRTICK;
     if \<not> feat then ret False
     else do {
       act \<leftarrow> gets (\<lambda>s. rq \<in> k_active s);
       if \<not> act then ret False else gets (\<lambda>s. hrtick_hres (services K) rq (k_ext s)) } }"

definition hrtick_clear :: "'x kops \<Rightarrow> cpu \<Rightarrow> ('x kst, unit) state" where
  "hrtick_clear K rq = do {
     act \<leftarrow> gets (\<lambda>s. hrtick_active (services K) rq (k_ext s));
     when_m act (service_unit (hrtick_cancel (services K) rq)) }"

text \<open>The timer's callback; \<open>HRTIMER_NORESTART\<close> is \<open>False\<close>.\<close>

definition hrtick :: "'x kops \<Rightarrow> cpu \<Rightarrow> ('x kst, bool) state" where
  "hrtick K rq = do {
     me \<leftarrow> gets k_this_cpu;
     when_m (rq \<noteq> me) (log_event Warn);
     spin_lock (Rq_lock rq);
     update_rq_clock K rq;
     curr \<leftarrow> rq_get rq rq_curr;
     cls \<leftarrow> task_get curr t_sched_class;
     op_task_tick (classes K) cls rq curr True;
     spin_unlock (Rq_lock rq);
     ret False }"

definition hrtick_start_ipi :: "'x kops \<Rightarrow> cpu \<Rightarrow> ('x kst, unit) state" where
  "hrtick_start_ipi K rq = do {
     spin_lock (Rq_lock rq);
     service_unit (hrtick_restart (services K) rq);
     upd_rq rq (\<lambda>r. r\<lparr>rq_hrtick_csd_pending := False\<rparr>);
     spin_unlock (Rq_lock rq) }"

definition hrtick_start :: "'x kops \<Rightarrow> cpu \<Rightarrow> u64 \<Rightarrow> ('x kst, unit) state" where
  "hrtick_start K rq delay = do {
     base \<leftarrow> gets (\<lambda>s. hrtick_base_time (services K) rq (k_ext s));
     service_unit (hrtick_set_expires (services K) rq (base + delay));
     me \<leftarrow> gets k_this_cpu;
     pending \<leftarrow> rq_get rq rq_hrtick_csd_pending;
     if rq = me then service_unit (hrtick_restart (services K) rq)
     else when_m (\<not> pending) (do {
       service_unit (hrtick_ipi (services K) rq);
       upd_rq rq (\<lambda>r. r\<lparr>rq_hrtick_csd_pending := True\<rparr>) }) }"

datatype cpu_action =
    CPU_UP_PREPARE | CPU_ONLINE | CPU_UP_CANCELED | CPU_DOWN_PREPARE | CPU_DOWN_FAILED | CPU_DEAD
  | CPU_POST_DEAD | CPU_DYING

datatype notify = NOTIFY_OK | NOTIFY_DONE | NOTIFY_BAD

text \<open>The actions come in two variants, the second for CPUs that are frozen; the code treats both
  alike.\<close>

definition hotplug_hrtick :: "'x kops \<Rightarrow> cpu_action \<Rightarrow> cpu \<Rightarrow> ('x kst, notify) state" where
  "hotplug_hrtick K action cpu =
     (if action \<in> {CPU_UP_CANCELED, CPU_DOWN_PREPARE, CPU_DEAD}
      then do { hrtick_clear K cpu; ret NOTIFY_OK }
      else ret NOTIFY_DONE)"

subsection \<open>Switching tasks\<close>

definition PREEMPT_ACTIVE :: u32 where "PREEMPT_ACTIVE = 0x10000000"

definition preempt_count :: "('x kst, u32) state" where
  "preempt_count = gets (\<lambda>s. t_preempt_count (k_task s (k_current s)))"

definition clear_tsk_need_resched :: "task \<Rightarrow> ('x kst, unit) state" where
  "clear_tsk_need_resched p = upd_task p (\<lambda>t. t\<lparr>t_need_resched := False\<rparr>)"

definition need_resched :: "('x kst, bool) state" where
  "need_resched = gets (\<lambda>s. t_need_resched (k_task s (k_current s)))"

text \<open>Nothing is done before a switch: no preemption notifiers, no unlocked context switch.\<close>

definition prepare_lock_switch :: "cpu \<Rightarrow> task \<Rightarrow> ('x kst, unit) state" where
  "prepare_lock_switch rq next_task = skip"

definition prepare_task_switch :: "cpu \<Rightarrow> task \<Rightarrow> task \<Rightarrow> ('x kst, unit) state" where
  "prepare_task_switch rq prev next_task = prepare_lock_switch rq next_task"

definition finish_lock_switch :: "cpu \<Rightarrow> task \<Rightarrow> ('x kst, unit) state" where
  "finish_lock_switch rq prev = spin_unlock_irq (Rq_lock rq)"

definition finish_task_switch :: "cpu \<Rightarrow> task \<Rightarrow> ('x kst, unit) state" where
  "finish_task_switch rq prev = do {
     mm \<leftarrow> rq_get rq rq_prev_mm;
     upd_rq rq (\<lambda>r. r\<lparr>rq_prev_mm := None\<rparr>);
     prev_state \<leftarrow> task_get prev t_state;
     finish_lock_switch rq prev;
     (case mm of None \<Rightarrow> skip | Some m \<Rightarrow> log_event (Mmdrop m));
     when_m (prev_state = TASK_DEAD) (do {
       log_event (Kprobe_flush prev);
       log_event (Put_task prev) }) }"

definition pre_schedule :: "'x kops \<Rightarrow> cpu \<Rightarrow> task \<Rightarrow> ('x kst, unit) state" where
  "pre_schedule K rq prev = do {
     cls \<leftarrow> task_get prev t_sched_class;
     (case op_pre_schedule (classes K) cls of None \<Rightarrow> skip | Some f \<Rightarrow> f rq prev) }"

definition post_schedule :: "'x kops \<Rightarrow> cpu \<Rightarrow> ('x kst, unit) state" where
  "post_schedule K rq = do {
     post \<leftarrow> rq_get rq rq_post_schedule;
     when_m post (do {
       flags \<leftarrow> spin_lock_irqsave (Rq_lock rq);
       curr \<leftarrow> rq_get rq rq_curr;
       cls \<leftarrow> task_get curr t_sched_class;
       (case op_post_schedule (classes K) cls of None \<Rightarrow> skip | Some f \<Rightarrow> f rq);
       spin_unlock_irqrestore (Rq_lock rq) flags;
       upd_rq rq (\<lambda>r. r\<lparr>rq_post_schedule := False\<rparr>) }) }"

text \<open>\<open>schedule_tail\<close> up to the store of the thread id into user memory.\<close>

definition schedule_tail :: "'x kops \<Rightarrow> task \<Rightarrow> ('x kst, unit) state" where
  "schedule_tail K prev = do {
     rq \<leftarrow> gets k_this_cpu;
     finish_task_switch rq prev;
     post_schedule K rq }"

text \<open>\<open>switch_to\<close> saves the registers and the stack of \<open>prev\<close> (\<open>frame\<close> is the local variable of
  its \<open>schedule\<close> call that matters) and goes on with those of the next task.\<close>

definition switch_to :: "task \<Rightarrow> task \<Rightarrow> bool \<Rightarrow> ('x kst, unit) state" where
  "switch_to prev next_task frame = do {
     modify (\<lambda>s. s\<lparr>k_frame := (k_frame s)(prev := Some frame), k_current := next_task\<rparr>);
     log_event (Switch prev next_task) }"

text \<open>\<open>context_switch\<close> up to \<open>switch_to\<close>, and what follows on the stack of a task that had run
  before.\<close>

definition context_switch :: "cpu \<Rightarrow> task \<Rightarrow> task \<Rightarrow> bool \<Rightarrow> ('x kst, unit) state" where
  "context_switch rq prev next_task frame = do {
     prepare_task_switch rq prev next_task;
     mm \<leftarrow> task_get next_task t_mm;
     oldmm \<leftarrow> task_get prev t_active_mm;
     (case mm of
        None \<Rightarrow> do {
          upd_task next_task (\<lambda>t. t\<lparr>t_active_mm := oldmm\<rparr>);
          log_event (Mm_count_inc oldmm);
          log_event (Lazy_tlb oldmm next_task) }
      | Some m \<Rightarrow> log_event (Switch_mm oldmm m next_task));
     prev_mm \<leftarrow> task_get prev t_mm;
     when_m (prev_mm = None) (do {
       upd_task prev (\<lambda>t. t\<lparr>t_active_mm := None\<rparr>);
       upd_rq rq (\<lambda>r. r\<lparr>rq_prev_mm := oldmm\<rparr>) });
     switch_to prev next_task frame }"

subsection \<open>Choosing the next task\<close>

text \<open>\<open>in_atomic_preempt_off\<close>: any count but \<open>PREEMPT_ACTIVE\<close> is set. \<open>Warn\<close> stands for the report
  of \<open>__schedule_bug\<close>, \<open>Schedule_debug\<close> for the profiling hit.\<close>

definition schedule_debug :: "task \<Rightarrow> ('x kst, unit) state" where
  "schedule_debug prev = do {
     pc \<leftarrow> preempt_count;
     ex \<leftarrow> task_get prev t_exit_state;
     when_m (pc AND NOT PREEMPT_ACTIVE \<noteq> 0 \<and> ex = 0) (log_event Warn);
     log_event (Schedule_debug prev) }"

definition put_prev_task :: "'x kops \<Rightarrow> cpu \<Rightarrow> task \<Rightarrow> ('x kst, unit) state" where
  "put_prev_task K rq p = do {
     runtime \<leftarrow> task_get p (\<lambda>t. se_sum_exec_runtime (t_se t) - se_prev_sum_exec_runtime (t_se t));
     upd_se p (\<lambda>e. e\<lparr>se_avg_running := update_avg (se_avg_running e) runtime\<rparr>);
     running \<leftarrow> task_get p (\<lambda>t. t_state t = TASK_RUNNING);
     (if running then do {
        cost \<leftarrow> gets (\<lambda>s. sysctl_sched_migration_cost (k_sysctl s));
        upd_se p (\<lambda>e. e\<lparr>se_avg_overlap :=
          update_avg (se_avg_overlap e) (min runtime (ucast (2 * cost)))\<rparr>) }
      else upd_se p (\<lambda>e. e\<lparr>se_avg_running := update_avg (se_avg_running e) 0\<rparr>));
     cls \<leftarrow> task_get p t_sched_class;
     op_put_prev_task (classes K) cls rq p }"

fun pick_class_loop :: "'x kops \<Rightarrow> cpu \<Rightarrow> sched_class list \<Rightarrow> ('x kst, task option) state" where
  "pick_class_loop K rq [] = ret None"
| "pick_class_loop K rq (c # cs) = do {
     p \<leftarrow> op_pick_next_task (classes K) c rq;
     (case p of Some q \<Rightarrow> ret (Some q) | None \<Rightarrow> pick_class_loop K rq cs) }"

text \<open>No answer: even the lowest class returned \<open>NULL\<close>, and the loop follows its \<open>NULL\<close> successor.\<close>

definition pick_next_task :: "'x kops \<Rightarrow> cpu \<Rightarrow> ('x kst, task option) state" where
  "pick_next_task K rq = do {
     all_fair \<leftarrow> rq_get rq (\<lambda>r. rq_nr_running r = cfs_nr_running (rq_cfs r));
     p \<leftarrow> (if all_fair then op_pick_next_task (classes K) Fair_sched_class rq else ret None);
     (case p of
        Some q \<Rightarrow> ret (Some q)
      | None \<Rightarrow> pick_class_loop K rq (for_each_class K)) }"

subsection \<open>The patched \<open>schedule\<close>\<close>

text \<open>Local variables that live across the labels: \<open>sched_block\<close>, \<open>prev\<close>, and whether
  \<open>switch_count\<close> points to the voluntary counter. From \<open>need_resched\<close>:\<close>

definition schedule_enter :: "'x kops \<Rightarrow> ('x kst, bool \<times> task \<times> bool) state" where
  "schedule_enter K = do {
     log_event Preempt_disable;
     cpu \<leftarrow> gets k_this_cpu;
     sched_block \<leftarrow> gets (\<lambda>s. 1 < sint (k_pid_force_run s) \<and>
       t_pid (k_task s (rq_curr (k_rq s cpu))) = k_pid_force_run s);
     log_event (Rcu_qs cpu);
     prev \<leftarrow> rq_get cpu rq_curr;
     when_m (\<not> sched_block) (service_unit (release_kernel_lock (services K) prev));
     ret (sched_block, prev, False) }"

text \<open>The treatment of a task that is about to sleep; the answer is \<open>switch_count\<close>.\<close>

definition sleep_or_wake :: "'x kops \<Rightarrow> cpu \<Rightarrow> bool \<Rightarrow> task \<Rightarrow> bool \<Rightarrow> ('x kst, bool) state" where
  "sleep_or_wake K rq sched_block prev voluntary = do {
     st \<leftarrow> task_get prev t_state;
     pc \<leftarrow> preempt_count;
     if st \<noteq> 0 \<and> pc AND PREEMPT_ACTIVE = 0 then do {
       sig \<leftarrow> gets (\<lambda>s. signal_pending_state (services K) st prev (k_ext s));
       (if sig then upd_task prev (\<lambda>t. t\<lparr>t_state := TASK_RUNNING\<rparr>)
        else when_m (\<not> sched_block) (deactivate_task K rq prev True));
       ret True }
     else ret voluntary }"

text \<open>What happens once the next task is known. The answer: the local variables of the frame the
  CPU goes on with, none if the next task is new and left through \<open>schedule_tail\<close>.\<close>

definition schedule_switch ::
    "'x kops \<Rightarrow> cpu \<Rightarrow> bool \<Rightarrow> task \<Rightarrow> bool \<Rightarrow> task \<Rightarrow> ('x kst, (bool \<times> task \<times> bool) option) state" where
  "schedule_switch K rq sched_block prev voluntary next_task =
     (if prev \<noteq> next_task then do {
        upd_rq rq (\<lambda>r. r\<lparr>rq_nr_switches := rq_nr_switches r + 1\<rparr>);
        upd_rq rq (\<lambda>r. r\<lparr>rq_curr := next_task\<rparr>);
        upd_task prev (\<lambda>t. if voluntary then t\<lparr>t_nvcsw := t_nvcsw t + 1\<rparr>
          else t\<lparr>t_nivcsw := t_nivcsw t + 1\<rparr>);
        context_switch rq prev next_task voluntary;
        frame \<leftarrow> gets (\<lambda>s. k_frame s next_task);
        (case frame of
           None \<Rightarrow> do { schedule_tail K prev; ret None }
         | Some v \<Rightarrow> do {
             this \<leftarrow> gets k_this_cpu;
             finish_task_switch this prev;
             ret (Some (False, next_task, v)) }) }
      else do {
        spin_unlock_irq (Rq_lock rq);
        ret (Some (sched_block, prev, voluntary)) })"

text \<open>From \<open>need_resched_nonpreemptible\<close> to \<open>post_schedule\<close>.\<close>

definition schedule_body ::
    "nat \<Rightarrow> 'x kops \<Rightarrow> bool \<times> task \<times> bool \<Rightarrow> ('x kst, (bool \<times> task \<times> bool) option option) state" where
  "schedule_body fuel K = (\<lambda>(sched_block, prev, voluntary). do {
     rq \<leftarrow> gets k_this_cpu;
     when_m (\<not> sched_block) (schedule_debug prev);
     feat \<leftarrow> sched_feat K HRTICK;
     when_m feat (hrtick_clear K rq);
     spin_lock_irq (Rq_lock rq);
     update_rq_clock K rq;
     when_m (\<not> sched_block) (clear_tsk_need_resched prev);
     voluntary' \<leftarrow> sleep_or_wake K rq sched_block prev voluntary;
     when_m (\<not> sched_block) (pre_schedule K rq prev);
     nr \<leftarrow> rq_get rq rq_nr_running;
     and_then (if nr = 0 then idle_balance fuel K rq else ret (Some ())) (\<lambda>_. do {
       when_m (\<not> sched_block) (put_prev_task K rq prev);
       and_then (if \<not> sched_block then pick_next_task K rq else ret (Some prev)) (\<lambda>next_task. do {
         r \<leftarrow> schedule_switch K rq sched_block prev voluntary' next_task;
         ret (Some r) }) }) })"

text \<open>The end of the function: go round again with new locals (\<open>Inl None\<close>: \<open>need_resched\<close>) or
  return (\<open>Inr\<close>; without an answer if the code crashed or hung).\<close>

definition schedule_leave ::
    "'x kops \<Rightarrow> 'l \<Rightarrow> ('x kst, 'l option + unit option) state" where
  "schedule_leave K locals = do {
     rq \<leftarrow> gets k_this_cpu;
     post_schedule K rq;
     me \<leftarrow> gets k_current;
     r \<leftarrow> service (reacquire_kernel_lock (services K) me);
     if r < 0 then ret (Inl (Some locals))
     else do {
       log_event Preempt_enable;
       again \<leftarrow> need_resched;
       ret (if again then Inl None else Inr (Some ())) } }"

definition schedule_turn ::
    "nat \<Rightarrow> 'x kops \<Rightarrow> (bool \<times> task \<times> bool) option \<Rightarrow>
     ('x kst, (bool \<times> task \<times> bool) option + unit option) state" where
  "schedule_turn fuel K at = do {
     locals \<leftarrow> (case at of None \<Rightarrow> schedule_enter K | Some l \<Rightarrow> ret l);
     r \<leftarrow> schedule_body fuel K locals;
     (case r of
        None \<Rightarrow> ret (Inr None)
      | Some None \<Rightarrow> ret (Inr (Some ()))
      | Some (Some locals') \<Rightarrow> schedule_leave K locals') }"

text \<open>\<open>n\<close> bounds the number of turns, \<open>fuel\<close> the ageing loops below \<open>idle_balance\<close>.\<close>

definition schedule :: "nat \<Rightarrow> nat \<Rightarrow> 'x kops \<Rightarrow> ('x kst, unit option) state" where
  "schedule n fuel K = do {
     r \<leftarrow> loop_m n (schedule_turn fuel K) None;
     ret (case r of None \<Rightarrow> None | Some x \<Rightarrow> x) }"

subsection \<open>The original \<open>schedule\<close>\<close>

text \<open>The same function in \<open>sched_orig.c\<close>; everything it calls is the same there.\<close>

definition orig_enter :: "'x kops \<Rightarrow> ('x kst, task \<times> bool) state" where
  "orig_enter K = do {
     log_event Preempt_disable;
     cpu \<leftarrow> gets k_this_cpu;
     log_event (Rcu_qs cpu);
     prev \<leftarrow> rq_get cpu rq_curr;
     service_unit (release_kernel_lock (services K) prev);
     ret (prev, False) }"

definition orig_body ::
    "nat \<Rightarrow> 'x kops \<Rightarrow> task \<times> bool \<Rightarrow> ('x kst, (task \<times> bool) option option) state" where
  "orig_body fuel K = (\<lambda>(prev, voluntary). do {
     rq \<leftarrow> gets k_this_cpu;
     schedule_debug prev;
     feat \<leftarrow> sched_feat K HRTICK;
     when_m feat (hrtick_clear K rq);
     spin_lock_irq (Rq_lock rq);
     update_rq_clock K rq;
     clear_tsk_need_resched prev;
     st \<leftarrow> task_get prev t_state;
     pc \<leftarrow> preempt_count;
     voluntary' \<leftarrow> (if st \<noteq> 0 \<and> pc AND PREEMPT_ACTIVE = 0 then do {
         sig \<leftarrow> gets (\<lambda>s. signal_pending_state (services K) st prev (k_ext s));
         (if sig then upd_task prev (\<lambda>t. t\<lparr>t_state := TASK_RUNNING\<rparr>)
          else deactivate_task K rq prev True);
         ret True }
       else ret voluntary);
     pre_schedule K rq prev;
     nr \<leftarrow> rq_get rq rq_nr_running;
     and_then (if nr = 0 then idle_balance fuel K rq else ret (Some ())) (\<lambda>_. do {
       put_prev_task K rq prev;
       and_then (pick_next_task K rq) (\<lambda>next_task.
         if prev \<noteq> next_task then do {
           upd_rq rq (\<lambda>r. r\<lparr>rq_nr_switches := rq_nr_switches r + 1\<rparr>);
           upd_rq rq (\<lambda>r. r\<lparr>rq_curr := next_task\<rparr>);
           upd_task prev (\<lambda>t. if voluntary' then t\<lparr>t_nvcsw := t_nvcsw t + 1\<rparr>
             else t\<lparr>t_nivcsw := t_nivcsw t + 1\<rparr>);
           context_switch rq prev next_task voluntary';
           frame \<leftarrow> gets (\<lambda>s. k_frame s next_task);
           (case frame of
              None \<Rightarrow> do { schedule_tail K prev; ret (Some None) }
            | Some v \<Rightarrow> do {
                this \<leftarrow> gets k_this_cpu;
                finish_task_switch this prev;
                ret (Some (Some (next_task, v))) }) }
         else do {
           spin_unlock_irq (Rq_lock rq);
           ret (Some (Some (prev, voluntary'))) }) }) })"

definition orig_turn ::
    "nat \<Rightarrow> 'x kops \<Rightarrow> (task \<times> bool) option \<Rightarrow> ('x kst, (task \<times> bool) option + unit option) state" where
  "orig_turn fuel K at = do {
     locals \<leftarrow> (case at of None \<Rightarrow> orig_enter K | Some l \<Rightarrow> ret l);
     r \<leftarrow> orig_body fuel K locals;
     (case r of
        None \<Rightarrow> ret (Inr None)
      | Some None \<Rightarrow> ret (Inr (Some ()))
      | Some (Some locals') \<Rightarrow> schedule_leave K locals') }"

definition orig_schedule :: "nat \<Rightarrow> nat \<Rightarrow> 'x kops \<Rightarrow> ('x kst, unit option) state" where
  "orig_schedule n fuel K = do {
     r \<leftarrow> loop_m n (orig_turn fuel K) None;
     ret (case r of None \<Rightarrow> None | Some x \<Rightarrow> x) }"

end
