(* ===== verification/Sched_schedule_correct.thy ===== *)
theory Sched_schedule_correct
  imports Sched_schedule
begin

text \<open>
  What the patch does to \<open>schedule\<close>: nothing while no process is forced (equality with the
  original function), and while one is, it stays on its CPU and no context switch is counted;
  when the call returns; and the effect of a context switch.
\<close>

subsection \<open>Not blocked: the original function\<close>

definition block_frame :: "task \<times> bool \<Rightarrow> bool \<times> task \<times> bool" where
  "block_frame l = (False, l)"

lemma block_frame_eq: "block_frame = Pair False"
  by (simp add: block_frame_def fun_eq_iff)

lemma bind_cong_all:
  assumes "m = m'" and "\<And>r. f r = g r"
  shows "State_Monad.bind m f = State_Monad.bind m' g"
proof -
  have "f = g" using assms(2) by auto
  with assms(1) show ?thesis by simp
qed

lemma bind_if: "State_Monad.bind (if c then m else n) f = (if c then State_Monad.bind m f else State_Monad.bind n f)"
  by simp

lemma bind_option:
  "State_Monad.bind (case x of None \<Rightarrow> m | Some y \<Rightarrow> n y) f =
   (case x of None \<Rightarrow> State_Monad.bind m f | Some y \<Rightarrow> State_Monad.bind (n y) f)"
  by (simp split: option.split)

lemma body_free:
  "schedule_body fuel K (False, l) = do {
     r \<leftarrow> orig_body fuel K l; ret (map_option (map_option block_frame) r) }"
proof -
  obtain p v where l: "l = (p, v)" by (cases l)
  show ?thesis
    unfolding l schedule_body_def orig_body_def schedule_switch_def sleep_or_wake_def
    by (simp add: when_m_def block_frame_def and_then_def bind_if bind_option cong: if_cong option.case_cong)
qed

abbreviation lift_exit ::
    "(task \<times> bool) option + unit option \<Rightarrow> (bool \<times> task \<times> bool) option + unit option" where
  "lift_exit \<equiv> map_sum (map_option block_frame) id"

lemma leave_free:
  "schedule_leave K (block_frame l) = do { r \<leftarrow> schedule_leave K l; ret (lift_exit r) }"
  unfolding schedule_leave_def by (simp add: bind_if if_distrib [of lift_exit] cong: if_cong)

lemma turn_free:
  "schedule_turn fuel K (Some (block_frame l)) = do {
     r \<leftarrow> orig_turn fuel K (Some l); ret (lift_exit r) }"
  by (simp add: schedule_turn_def orig_turn_def block_frame_eq body_free
      leave_free [unfolded block_frame_eq] bind_option cong: option.case_cong)

definition force_free :: "'x kst \<Rightarrow> bool" where
  "force_free s \<longleftrightarrow> sint (k_pid_force_run s) \<le> 1 \<or>
     t_pid (k_task s (rq_curr (k_rq s (k_this_cpu s)))) \<noteq> k_pid_force_run s"

lemma enter_free:
  assumes "force_free s"
  shows "result (schedule_enter K) s = block_frame (result (orig_enter K) s)"
    and "exec (schedule_enter K) s = exec (orig_enter K) s"
  using assms by (auto simp: schedule_enter_def orig_enter_def force_free_def block_frame_def)

lemma turn_enter:
  "result (schedule_turn fuel K None) s =
     result (schedule_turn fuel K (Some (result (schedule_enter K) s))) (exec (schedule_enter K) s)"
  "exec (schedule_turn fuel K None) s =
     exec (schedule_turn fuel K (Some (result (schedule_enter K) s))) (exec (schedule_enter K) s)"
  "result (orig_turn fuel K None) s =
     result (orig_turn fuel K (Some (result (orig_enter K) s))) (exec (orig_enter K) s)"
  "exec (orig_turn fuel K None) s =
     exec (orig_turn fuel K (Some (result (orig_enter K) s))) (exec (orig_enter K) s)"
  by (simp_all add: schedule_turn_def orig_turn_def)

lemma turn_unpatched:
  assumes "at = None \<Longrightarrow> force_free s"
  shows "result (schedule_turn fuel K (map_option block_frame at)) s =
      lift_exit (result (orig_turn fuel K at) s)"
    and "exec (schedule_turn fuel K (map_option block_frame at)) s = exec (orig_turn fuel K at) s"
  using assms by (cases at; simp add: turn_free turn_enter enter_free)+

lemma loop_unpatched:
  assumes inv: "\<And>at s. sint (k_pid_force_run s) \<le> 1 \<Longrightarrow>
      sint (k_pid_force_run (exec (orig_turn fuel K at) s)) \<le> 1"
    and "sint (k_pid_force_run s) \<le> 1"
    shows "result (loop_m n (schedule_turn fuel K) (map_option block_frame at)) s =
      result (loop_m n (orig_turn fuel K) at) s \<and>
    exec (loop_m n (schedule_turn fuel K) (map_option block_frame at)) s =
      exec (loop_m n (orig_turn fuel K) at) s"
  using assms(2)
proof (induction n arbitrary: at s)
  case (Suc n)
  have "force_free s" using Suc.prems by (simp add: force_free_def)
  note t = turn_unpatched [OF this, where at = at and fuel = fuel and K = K]
  note IH = Suc.IH [OF inv [OF Suc.prems, where at = at]]
  show ?case
    using IH by (cases "result (orig_turn fuel K at) s") (simp_all add: t)
qed simp

subsection \<open>The forced pid is not touched below \<open>schedule\<close>\<close>

text \<open>The contract of the scheduling classes here: none of the operations \<open>schedule\<close> may call
  changes an observation (up to the on-queue flag of the task an operation queues or dequeues).\<close>

definition classes_leave :: "('x kst \<Rightarrow> 'v) \<Rightarrow> 'x kops \<Rightarrow> bool" where
  "classes_leave obs K \<longleftrightarrow> wake_ops_keep obs K \<and> (\<forall>c rq p.
     keeps obs (op_pick_next_task (classes K) c rq) \<and>
     keeps obs (op_put_prev_task (classes K) c rq p) \<and>
     (\<forall>f. op_pre_schedule (classes K) c = Some f \<longrightarrow> keeps obs (f rq p)) \<and>
     (\<forall>f. op_post_schedule (classes K) c = Some f \<longrightarrow> keeps obs (f rq)) \<and>
     (\<forall>t b m d i pb. keeps obs (op_load_balance (classes K) c t rq b m d i pb)))"

abbreviation force :: "'x kst \<Rightarrow> s32" where
  "force \<equiv> k_pid_force_run"

lemma classes_leaveD:
  assumes "classes_leave force K"
  shows "keeps force (op_enqueue_task (classes K) c rq p b)"
    and "keeps force (op_dequeue_task (classes K) c rq p b)"
    and "keeps force (op_check_preempt_curr (classes K) c rq p fl)"
    and "keeps force (op_select_task_rq (classes K) c p fl gl)"
    and "keeps force (op_pick_next_task (classes K) c rq)"
    and "keeps force (op_put_prev_task (classes K) c rq p)"
    and "keeps force (op_load_balance (classes K) c t rq b' ml d i pb)"
proof -
  have "queue_ops_keep force K"
    using assms unfolding classes_leave_def wake_ops_keep_def by blast
  from queue_ops_keep_blind [OF this]
  show "keeps force (op_enqueue_task (classes K) c rq p b)"
    and "keeps force (op_dequeue_task (classes K) c rq p b)"
    and "keeps force (op_check_preempt_curr (classes K) c rq p fl)"
    and "keeps force (op_select_task_rq (classes K) c p fl gl)"
    by (simp_all add: set_on_rq_def)
  show "keeps force (op_pick_next_task (classes K) c rq)"
    and "keeps force (op_put_prev_task (classes K) c rq p)"
    and "keeps force (op_load_balance (classes K) c t rq b' ml d i pb)"
    using assms unfolding classes_leave_def by blast+
qed

lemma classes_leave_optD:
  assumes "classes_leave force K"
  shows "op_task_wake_up (classes K) c = Some m \<Longrightarrow> keeps force (m rq p)"
    and "op_pre_schedule (classes K) c = Some m \<Longrightarrow> keeps force (m rq p)"
    and "op_post_schedule (classes K) c = Some g \<Longrightarrow> keeps force (g rq)"
  using assms unfolding classes_leave_def wake_ops_keep_def by blast+

named_theorems force_keeps

lemmas reader_defs = weighted_cpuload_def source_load_def target_load_def group_of_def power_of_def
  sched_feat_def idle_cpu_def task_running_def task_current_def group_first_cpu_def groups_of_def
  sd_flag_def test_sd_parent_def task_hot_def for_each_domain_def preempt_count_def need_resched_def
  lb_sibling_busy_def double_unlock_balance_def double_rq_unlock_def

lemma force_readers [force_keeps]:
  "keeps force (weighted_cpuload c)" "keeps force (source_load K c i)" "keeps force (target_load K c i)"
  "keeps force (group_of c)" "keeps force (power_of c)" "keeps force (sched_feat K x)"
  "keeps force (idle_cpu c)" "keeps force (task_running c p)" "keeps force (group_first_cpu g)"
  "keeps force (groups_of d)" "keeps force (sd_flag d f)" "keeps force (test_sd_parent d f)"
  "keeps force (task_hot K p t)" "keeps force (for_each_domain c)" "keeps force preempt_count"
  "keeps force need_resched" "keeps force (lb_sibling_busy d b)"
  "keeps force (double_unlock_balance a e)" "keeps force (double_rq_unlock a e)"
  by (unfold reader_defs, (intro keeps_intros; simp?)+)

lemma force_locks [force_keeps]:
  "keeps force (double_rq_lock K a b)" "keeps force (double_lock_balance K a b)"
  "keeps force (resched_cpu K c)"
  unfolding double_rq_lock_def double_lock_balance_def double_lock_balance_inner_def
    resched_cpu_def resched_task_def
  by ((intro keeps_intros force_keeps; simp?)+)

lemma force_power [force_keeps]:
  "keeps force (cpu_avg_load_per_task c)" "keeps force (sched_avg_update n c)"
  "keeps force (scale_rt_power n c)" "keeps force (update_cpu_power n K d c)"
  "keeps force (update_group_power n K d c)"
  unfolding cpu_avg_load_per_task_def sched_avg_update_def sched_avg_turn_def scale_rt_power_def
    update_cpu_power_def update_group_power_def Let_def
  by ((intro keeps_intros force_keeps; simp?)+)

lemma force_tally [force_keeps]: "keeps force (sg_tally_loop K b i cs ty)"
  by (induction cs arbitrary: ty)
    (auto simp: sg_tally_cpu_def intro!: keeps_intros force_keeps)

lemma force_sg_stats [force_keeps]:
  "keeps force (update_sg_lb_stats n K d g c i l si lg cs b)"
  unfolding update_sg_lb_stats_def Let_def by ((intro keeps_intros force_keeps; simp?)+)

lemma force_sd_loop [force_keeps]:
  "keeps force (update_sd_lb_loop n K d c i l pr cs gs si b st)"
  by (induction gs arbitrary: si b st) (auto intro!: keeps_intros force_keeps)

lemma force_busiest [force_keeps]:
  "keeps force (update_sd_lb_stats n K d c i si cs b)" "keeps force (fix_small_imbalance st c im)"
  "keeps force (calculate_imbalance st c)"
  unfolding update_sd_lb_stats_def fix_small_imbalance_def calculate_imbalance_def Let_def
  by ((intro keeps_intros force_keeps; simp?)+)

lemma force_busiest_group [force_keeps]: "keeps force (find_busiest_group n K d c i si cs b)"
  unfolding find_busiest_group_def by ((intro keeps_intros force_keeps; simp?)+)

lemma force_queue_loop [force_keeps]: "keeps force (find_busiest_queue_loop im cs l m b)"
  by (induction l arbitrary: m b) (auto simp: Let_def intro!: keeps_intros force_keeps)

lemma force_busiest_queue [force_keeps]: "keeps force (find_busiest_queue g im cs)"
  unfolding find_busiest_queue_def by ((intro keeps_intros force_keeps; simp?)+)

lemma force_queue_ops:
  fixes K :: "'x kops"
  assumes "classes_leave force K"
  shows "keeps force (enqueue_task K rq p w)" "keeps force (dequeue_task K rq p w)"
    "keeps force (activate_task K rq p w)" "keeps force (deactivate_task K rq p w)"
    "keeps force (check_preempt_curr K rq p fl)"
  unfolding enqueue_task_def dequeue_task_def activate_task_def deactivate_task_def
    check_preempt_curr_def inc_nr_running_def dec_nr_running_def
  by ((intro keeps_intros force_keeps classes_leaveD [OF assms]; simp?)+)

lemma force_wake:
  fixes K :: "'x kops"
  assumes "classes_leave force K"
  shows "keeps force (wake_up_process K p)"
  unfolding wake_up_process_def try_to_wake_up_def ttwu_out_def ttwu_out_running_def
    ttwu_out_activate_def ttwu_select_def set_task_cpu_def set_task_cpu_raw_def Let_def
  by ((intro keeps_intros force_keeps force_queue_ops [OF assms] classes_leaveD [OF assms];
      (simp add: classes_leave_optD [OF assms])?)+)

lemma force_move:
  fixes K :: "'x kops"
  assumes "classes_leave force K"
  shows "keeps force (move_tasks_loop K t b m d i cs ml pi be)"
proof (induction cs arbitrary: ml pi be)
  case (Cons c cs)
  then show ?case
    unfolding move_tasks_loop.simps Let_def
    by ((intro keeps_intros classes_leaveD [OF assms]; simp?)+)
qed (simp add: keeps_ret)

lemma force_newidle:
  fixes K :: "'x kops"
  assumes "classes_leave force K"
  shows "keeps force (newidle_rounds n fu K t d cs a si)"
proof (induction n arbitrary: cs a si)
  case (Suc n)
  then show ?case
    unfolding newidle_rounds.simps move_tasks_def
    by ((intro keeps_intros force_keeps force_move [OF assms]; simp?)+)
qed (simp add: keeps_ret)

lemma force_newidle_failed:
  fixes K :: "'x kops"
  assumes "classes_leave force K"
  shows "keeps force (newidle_failed K t d q si)"
  unfolding newidle_failed_def wake_thread_def
  by ((intro keeps_intros force_keeps force_wake [OF assms]; simp?)+)

lemma keeps_lb_exit:
  "(\<And>a b c. keeps obs (f a b c)) \<Longrightarrow> (\<And>q m a b c. keeps obs (g q m a b c)) \<Longrightarrow>
   keeps obs (case_lb_exit f g e)"
  by (cases e) simp_all

lemma force_load_balance_newidle:
  fixes K :: "'x kops"
  assumes "classes_leave force K"
  shows "keeps force (load_balance_newidle fu K t d)"
  unfolding load_balance_newidle_def
proof (intro keeps_bind keeps_and_then keeps_lb_exit force_keeps force_newidle [OF assms], goal_cases)
  case 1
  show ?case by ((intro keeps_intros force_keeps; simp?)+)
next
  case 2
  show ?case by ((intro keeps_intros force_keeps force_newidle_failed [OF assms]; simp?)+)
qed

lemma force_idle_loop:
  fixes K :: "'x kops"
  assumes "classes_leave force K"
  shows "keeps force (idle_balance_loop fu K t ds pu nb)"
proof (induction ds arbitrary: pu nb)
  case (Cons d ds)
  then show ?case
    unfolding idle_balance_loop.simps Let_def
    by ((intro keeps_intros force_keeps force_load_balance_newidle [OF assms]; simp?)+)
qed (simp add: keeps_ret)

lemma force_pick_loop:
  fixes K :: "'x kops"
  assumes "classes_leave force K"
  shows "keeps force (pick_class_loop K rq cs)"
  by (induction cs) (auto intro!: keeps_intros classes_leaveD [OF assms])

lemma force_schedule_parts:
  fixes K :: "'x kops"
  assumes "classes_leave force K"
  shows "keeps force (idle_balance fu K t)" "keeps force (pick_next_task K t)"
    "keeps force (put_prev_task K t p)" "keeps force (pre_schedule K t p)"
    "keeps force (post_schedule K t)" "keeps force (schedule_tail K p)"
    "keeps force (finish_task_switch t p)" "keeps force (context_switch t p q v)"
    "keeps force (hrtick_clear K t)" "keeps force (clear_tsk_need_resched p)"
    "keeps force (schedule_debug p)"
  unfolding idle_balance_def pick_next_task_def put_prev_task_def pre_schedule_def post_schedule_def
    schedule_tail_def finish_task_switch_def finish_lock_switch_def context_switch_def
    prepare_task_switch_def prepare_lock_switch_def switch_to_def hrtick_clear_def
    clear_tsk_need_resched_def schedule_debug_def
  by ((intro keeps_intros force_keeps force_idle_loop [OF assms] force_pick_loop [OF assms]
      classes_leaveD [OF assms]; (simp add: classes_leave_optD [OF assms])?)+)

lemma force_orig_turn:
  fixes K :: "'x kops"
  assumes "classes_leave force K"
  shows "keeps force (orig_turn fu K at)"
  unfolding orig_turn_def orig_enter_def orig_body_def schedule_leave_def
  by ((intro keeps_intros force_keeps force_schedule_parts [OF assms] force_queue_ops [OF assms];
      simp?)+)

text \<open>C3. The patch changes nothing while no process is forced (\<open>pid_force_run\<close> at most 1): the
  patched \<open>schedule\<close> and the original one give the same result and the same final state,
  whatever the scheduling classes do, and for any number of turns.\<close>

theorem schedule_unforced_is_original:
  fixes K :: "'x kops"
  assumes "classes_leave k_pid_force_run K" and "sint (k_pid_force_run s) \<le> 1"
  shows "result (schedule n fuel K) s = result (orig_schedule n fuel K) s \<and>
    exec (schedule n fuel K) s = exec (orig_schedule n fuel K) s"
proof -
  have "sint (k_pid_force_run (exec (orig_turn fuel K at) t)) \<le> 1"
    if "sint (k_pid_force_run t) \<le> 1" for at t
    using that keepsD [OF force_orig_turn [OF assms(1)]] by simp
  from loop_unpatched [OF this assms(2), of n None]
  show ?thesis by (simp add: schedule_def orig_schedule_def)
qed

subsection \<open>While a process is forced\<close>

text \<open>The state without what a blocked \<open>schedule\<close> may change: the log, the interrupt mask, the
  state outside the repository, the clock of the runqueue, and the sleep state of the task.\<close>

definition calm :: "'x \<Rightarrow> cpu \<Rightarrow> task \<Rightarrow> 'x kst \<Rightarrow> 'x kst" where
  "calm x c p s = s\<lparr>k_ext := x, k_log := [], k_irqs_off := False,
     k_rq := (k_rq s)(c := (k_rq s c)\<lparr>rq_clock := 0\<rparr>),
     k_task := (k_task s)(p := (k_task s p)\<lparr>t_state := 0\<rparr>)\<rparr>"

lemma calm_upd [simp]:
  "calm x c p (s\<lparr>k_ext := y\<rparr>) = calm x c p s" "calm x c p (s\<lparr>k_log := l\<rparr>) = calm x c p s"
  "calm x c p (s\<lparr>k_irqs_off := b\<rparr>) = calm x c p s"
  "calm x c p (s\<lparr>k_rq := (k_rq s)(c := (k_rq s c)\<lparr>rq_clock := v\<rparr>)\<rparr>) = calm x c p s"
  "calm x c p (s\<lparr>k_task := (k_task s)(p := (k_task s p)\<lparr>t_state := st\<rparr>)\<rparr>) = calm x c p s"
  by (simp_all add: calm_def)

lemma calm_irq [simp]: "calm x c p (s\<lparr>k_irqs_off := b, k_log := l\<rparr>) = calm x c p s"
  by (simp add: calm_def)

lemma calm_eqD:
  assumes "calm x c p s = calm x c p t"
  shows "k_current s = k_current t" "k_this_cpu s = k_this_cpu t" "k_pid_force_run s = k_pid_force_run t"
    "k_frame s = k_frame t" "k_sysctl s = k_sysctl t"
    "(k_rq s c)\<lparr>rq_clock := 0\<rparr> = (k_rq t c)\<lparr>rq_clock := 0\<rparr>"
    "(k_task s p)\<lparr>t_state := 0\<rparr> = (k_task t p)\<lparr>t_state := 0\<rparr>"
    "q \<noteq> p \<Longrightarrow> k_task s q = k_task t q" "d \<noteq> c \<Longrightarrow> k_rq s d = k_rq t d"
proof -
  show "k_current s = k_current t" "k_this_cpu s = k_this_cpu t" "k_pid_force_run s = k_pid_force_run t"
    "k_frame s = k_frame t" "k_sysctl s = k_sysctl t"
    using arg_cong [OF assms, of k_current] arg_cong [OF assms, of k_this_cpu]
      arg_cong [OF assms, of k_pid_force_run] arg_cong [OF assms, of k_frame]
      arg_cong [OF assms, of k_sysctl] by (simp_all add: calm_def)
  have r: "k_rq (calm x c p s) d = k_rq (calm x c p t) d" and
    q: "k_task (calm x c p s) q = k_task (calm x c p t) q" for d q using assms by simp_all
  show "(k_rq s c)\<lparr>rq_clock := 0\<rparr> = (k_rq t c)\<lparr>rq_clock := 0\<rparr>"
    "(k_task s p)\<lparr>t_state := 0\<rparr> = (k_task t p)\<lparr>t_state := 0\<rparr>"
    using r [of c] q [of p] by (simp_all add: calm_def)
  show "q \<noteq> p \<Longrightarrow> k_task s q = k_task t q" "d \<noteq> c \<Longrightarrow> k_rq s d = k_rq t d"
    using r [of d] q [of q] by (simp_all add: calm_def)
qed

lemma calm_fields:
  assumes "calm x c p s = calm x c p t"
  shows "rq_curr (k_rq s c) = rq_curr (k_rq t c)" "rq_nr_running (k_rq s c) = rq_nr_running (k_rq t c)"
    "rq_post_schedule (k_rq s c) = rq_post_schedule (k_rq t c)"
    "t_pid (k_task s q) = t_pid (k_task t q)" "t_need_resched (k_task s q) = t_need_resched (k_task t q)"
    "t_nvcsw (k_task s q) = t_nvcsw (k_task t q)" "t_nivcsw (k_task s q) = t_nivcsw (k_task t q)"
    "rq_nr_switches (k_rq s d) = rq_nr_switches (k_rq t d)" "rq_curr (k_rq s d) = rq_curr (k_rq t d)"
proof -
  note r = calm_eqD(6) [OF assms] and t = calm_eqD(7) [OF assms]
  show "rq_curr (k_rq s c) = rq_curr (k_rq t c)" "rq_nr_running (k_rq s c) = rq_nr_running (k_rq t c)"
    "rq_post_schedule (k_rq s c) = rq_post_schedule (k_rq t c)"
    using arg_cong [OF r, of rq_curr] arg_cong [OF r, of rq_nr_running]
      arg_cong [OF r, of rq_post_schedule] by simp_all
  show "rq_nr_switches (k_rq s d) = rq_nr_switches (k_rq t d)" "rq_curr (k_rq s d) = rq_curr (k_rq t d)"
    using arg_cong [OF r, of rq_nr_switches] arg_cong [OF r, of rq_curr] calm_eqD(9) [OF assms, of d]
    by (cases "d = c"; simp)+
  show "t_pid (k_task s q) = t_pid (k_task t q)" "t_need_resched (k_task s q) = t_need_resched (k_task t q)"
    "t_nvcsw (k_task s q) = t_nvcsw (k_task t q)" "t_nivcsw (k_task s q) = t_nivcsw (k_task t q)"
    using arg_cong [OF t, of t_pid] arg_cong [OF t, of t_need_resched] arg_cong [OF t, of t_nvcsw]
      arg_cong [OF t, of t_nivcsw] calm_eqD(8) [OF assms, of q] by (cases "q = p"; simp)+
qed

lemma calm_ops:
  "keeps (calm x c p) (schedule_enter K)" "keeps (calm x c p) (hrtick_clear K c)"
  "keeps (calm x c p) (update_rq_clock K c)" "keeps (calm x c p) (sleep_or_wake K c True p v)"
  unfolding schedule_enter_def hrtick_clear_def update_rq_clock_def sleep_or_wake_def preempt_count_def
  by ((intro keeps_intros; simp?)+)

definition forced_here :: "'x kst \<Rightarrow> bool" where
  "forced_here s \<longleftrightarrow> (let c = k_this_cpu s; me = k_current s in
     1 < sint (k_pid_force_run s) \<and> t_pid (k_task s me) = k_pid_force_run s \<and>
     rq_curr (k_rq s c) = me \<and> rq_nr_running (k_rq s c) \<noteq> 0 \<and> \<not> rq_post_schedule (k_rq s c))"

lemma forced_calm:
  assumes "calm x (k_this_cpu s) (k_current s) t = calm x (k_this_cpu s) (k_current s) s"
  shows "forced_here t = forced_here s" "k_this_cpu t = k_this_cpu s" "k_current t = k_current s"
  using calm_eqD(1-3) [OF assms] calm_fields [OF assms] by (simp_all add: forced_here_def Let_def)

lemma blocked_body:
  assumes "forced_here s"
  shows "result (schedule_body fuel K (True, k_current s, v)) s =
      Some (Some (True, k_current s, result (sleep_or_wake K (k_this_cpu s) True (k_current s) v)
        (exec (do { feat \<leftarrow> sched_feat K HRTICK; when_m feat (hrtick_clear K (k_this_cpu s));
          spin_lock_irq (Rq_lock (k_this_cpu s)); update_rq_clock K (k_this_cpu s) }) s)))"
    and "calm x (k_this_cpu s) (k_current s) (exec (schedule_body fuel K (True, k_current s, v)) s) =
      calm x (k_this_cpu s) (k_current s) s"
proof -
  let ?c = "k_this_cpu s" and ?p = "k_current s"
  define pre where "pre = do { feat \<leftarrow> sched_feat K HRTICK; when_m feat (hrtick_clear K ?c);
    spin_lock_irq (Rq_lock ?c); update_rq_clock K ?c }"
  define s1 where "s1 = exec pre s"
  define s2 where "s2 = exec (sleep_or_wake K ?c True ?p v) s1"
  have "keeps (calm x ?c ?p) pre" for x
    unfolding pre_def sched_feat_def by ((intro keeps_intros calm_ops; simp?)+)
  then have "calm x ?c ?p s2 = calm x ?c ?p s" for x
    unfolding s1_def s2_def using keepsD calm_ops(4) by metis
  note c2 = this
  have nr: "rq_nr_running (k_rq s2 ?c) \<noteq> 0"
    using calm_fields(2) [OF c2] assms by (simp add: forced_here_def Let_def)
  have "result (schedule_body fuel K (True, ?p, v)) s = Some (Some (True, ?p,
      result (sleep_or_wake K ?c True ?p v) s1)) \<and>
    exec (schedule_body fuel K (True, ?p, v)) s =
      s2\<lparr>k_irqs_off := False, k_log := k_log s2 @ [Spin_unlock (Rq_lock ?c), Irq_on]\<rparr>"
    using nr unfolding schedule_body_def schedule_switch_def s1_def s2_def pre_def
    by simp
  then show "result (schedule_body fuel K (True, ?p, v)) s = Some (Some (True, ?p,
      result (sleep_or_wake K ?c True ?p v) (exec (do { feat \<leftarrow> sched_feat K HRTICK;
        when_m feat (hrtick_clear K ?c); spin_lock_irq (Rq_lock ?c); update_rq_clock K ?c }) s)))"
    "calm x ?c ?p (exec (schedule_body fuel K (True, ?p, v)) s) = calm x ?c ?p s"
    by (simp_all add: c2 s1_def pre_def)
qed

lemma blocked_leave:
  assumes "forced_here s"
  shows "calm x (k_this_cpu s) (k_current s) (exec (schedule_leave K l) s) =
      calm x (k_this_cpu s) (k_current s) s"
    and "result (schedule_leave K l) s =
      (if fst (reacquire_kernel_lock (services K) (k_current s) (k_ext s)) < 0 then Inl (Some l)
       else if t_need_resched (k_task s (k_current s)) then Inl None else Inr (Some ()))"
  using assms
  by (simp_all add: schedule_leave_def post_schedule_def need_resched_def forced_here_def Let_def)

lemma blocked_turn_from:
  fixes v :: bool and K :: "'x kops" and fuel :: nat
  assumes "forced_here s"
  defines "r \<equiv> result (schedule_turn fuel K (Some (True, k_current s, v))) s"
  shows "calm x (k_this_cpu s) (k_current s)
      (exec (schedule_turn fuel K (Some (True, k_current s, v))) s) =
      calm x (k_this_cpu s) (k_current s) s"
    and "(\<exists>w. r = Inl (Some (True, k_current s, w))) \<or>
      r = (if t_need_resched (k_task s (k_current s)) then Inl None else Inr (Some ()))"
    and "(\<And>y. 0 \<le> fst (reacquire_kernel_lock (services K) (k_current s) y)) \<Longrightarrow>
      r = (if t_need_resched (k_task s (k_current s)) then Inl None else Inr (Some ()))"
proof -
  let ?c = "k_this_cpu s" and ?p = "k_current s"
  define t where "t = exec (schedule_body fuel K (True, ?p, v)) s"
  obtain w where w: "result (schedule_body fuel K (True, ?p, v)) s = Some (Some (True, ?p, w))"
    using blocked_body(1) [OF assms(1)] by blast
  have ct: "calm x ?c ?p t = calm x ?c ?p s" for x
    unfolding t_def by (rule blocked_body(2) [OF assms(1)])
  note ft = forced_calm [OF ct]
  have f: "forced_here t" using ft(1) assms(1) by simp
  have e: "exec (schedule_turn fuel K (Some (True, ?p, v))) s = exec (schedule_leave K (True, ?p, w)) t"
    "r = result (schedule_leave K (True, ?p, w)) t"
    by (simp_all add: schedule_turn_def r_def w t_def)
  show "calm x ?c ?p (exec (schedule_turn fuel K (Some (True, ?p, v))) s) = calm x ?c ?p s"
    using blocked_leave(1) [OF f] ft ct by (simp add: e)
  note l = blocked_leave(2) [OF f, of K "(True, ?p, w)"]
  show "(\<exists>w. r = Inl (Some (True, ?p, w))) \<or>
      r = (if t_need_resched (k_task s ?p) then Inl None else Inr (Some ()))"
    "(\<And>y. 0 \<le> fst (reacquire_kernel_lock (services K) ?p y)) \<Longrightarrow>
      r = (if t_need_resched (k_task s ?p) then Inl None else Inr (Some ()))"
    unfolding e(2) l using calm_fields(5) [OF ct, of ?p] ft by (auto simp: not_less)
qed

lemma blocked_enter:
  assumes "forced_here s"
  shows "result (schedule_enter K) s = (True, k_current s, False)"
    and "calm x (k_this_cpu s) (k_current s) (exec (schedule_enter K) s) =
      calm x (k_this_cpu s) (k_current s) s"
  using assms keepsD [OF calm_ops(1), of x "k_this_cpu s" "k_current s" K s]
  by (simp_all add: schedule_enter_def forced_here_def Let_def)

definition blocked_at :: "'x kst \<Rightarrow> (bool \<times> task \<times> bool) option \<Rightarrow> bool" where
  "blocked_at s at \<longleftrightarrow> (case at of None \<Rightarrow> True | Some (b, p, _) \<Rightarrow> b \<and> p = k_current s)"

lemma blocked_turn:
  fixes at :: "(bool \<times> task \<times> bool) option" and K :: "'x kops" and fuel :: nat
  assumes "forced_here s" and "blocked_at s at"
  defines "r \<equiv> result (schedule_turn fuel K at) s"
  shows "calm x (k_this_cpu s) (k_current s) (exec (schedule_turn fuel K at) s) =
      calm x (k_this_cpu s) (k_current s) s"
    and "(\<exists>w. r = Inl (Some (True, k_current s, w))) \<or>
      r = (if t_need_resched (k_task s (k_current s)) then Inl None else Inr (Some ()))"
    and "(\<And>y. 0 \<le> fst (reacquire_kernel_lock (services K) (k_current s) y)) \<Longrightarrow>
      r = (if t_need_resched (k_task s (k_current s)) then Inl None else Inr (Some ()))"
proof -
  let ?c = "k_this_cpu s" and ?p = "k_current s"
  define t where "t = (case at of None \<Rightarrow> exec (schedule_enter K) s | Some _ \<Rightarrow> s)"
  have ct: "calm x ?c ?p t = calm x ?c ?p s" for x
    using blocked_enter(2) [OF assms(1)] by (simp add: t_def split: option.split)
  note ft = forced_calm [OF ct]
  have f: "forced_here t" using ft(1) assms(1) by simp
  obtain v where e: "exec (schedule_turn fuel K at) s =
      exec (schedule_turn fuel K (Some (True, ?p, v))) t"
    "r = result (schedule_turn fuel K (Some (True, ?p, v))) t"
    using assms(2) blocked_enter(1) [OF assms(1)]
    by (cases at) (auto simp: r_def t_def turn_enter blocked_at_def)
  note b = blocked_turn_from [OF f, unfolded ft(2,3)]
  note n = calm_fields(5) [OF ct, of ?p]
  show "calm x ?c ?p (exec (schedule_turn fuel K at) s) = calm x ?c ?p s"
    unfolding e using b(1) ct by simp
  show "(\<exists>w. r = Inl (Some (True, ?p, w))) \<or>
      r = (if t_need_resched (k_task s ?p) then Inl None else Inr (Some ()))"
    unfolding e using b(2) n by simp
  show "(\<And>y. 0 \<le> fst (reacquire_kernel_lock (services K) ?p y)) \<Longrightarrow>
      r = (if t_need_resched (k_task s ?p) then Inl None else Inr (Some ()))"
    unfolding e using b(3) n by simp
qed

lemma blocked_loop:
  assumes "forced_here s" and "blocked_at s at"
  shows "calm x (k_this_cpu s) (k_current s) (exec (loop_m n (schedule_turn fuel K) at) s) =
    calm x (k_this_cpu s) (k_current s) s"
  using assms
proof (induction n arbitrary: s at)
  case (Suc n)
  let ?c = "k_this_cpu s" and ?p = "k_current s"
  define t where "t = exec (schedule_turn fuel K at) s"
  have ct: "calm x ?c ?p t = calm x ?c ?p s" for x
    unfolding t_def by (rule blocked_turn(1) [OF Suc.prems])
  note ft = forced_calm [OF ct]
  have f: "forced_here t" using ft(1) Suc.prems(1) by simp
  show ?case
  proof (cases "result (schedule_turn fuel K at) s")
    case (Inl at')
    then have "blocked_at t at'"
      using blocked_turn(2) [OF Suc.prems, of fuel K] ft by (auto simp: blocked_at_def split: if_splits)
    from Suc.IH [OF f this] show ?thesis
      using Inl ct unfolding ft by (simp add: t_def [symmetric])
  next
    case (Inr r)
    then show ?thesis using ct by (simp add: t_def)
  qed
qed simp

lemma schedule_exec: "exec (schedule n fuel K) s = exec (loop_m n (schedule_turn fuel K) None) s"
  by (simp add: schedule_def)

text \<open>C2. What the profiler needs: while the running process is the forced one, any number of turns
  of \<open>schedule\<close>, whether it has returned or not, leave it running on its CPU, and no context
  switch is counted, neither for any task nor for any CPU.\<close>

theorem forced_task_stays:
  fixes K :: "'x kops" and s :: "'x kst"
  defines "s' \<equiv> \<lambda>n fuel. exec (schedule n fuel K) s"
  assumes "forced_here s"
  shows "forced_here (s' n fuel) \<and> k_current (s' n fuel) = k_current s \<and>
    (\<forall>c. rq_curr (k_rq (s' n fuel) c) = rq_curr (k_rq s c) \<and>
      rq_nr_switches (k_rq (s' n fuel) c) = rq_nr_switches (k_rq s c)) \<and>
    (\<forall>p. t_nvcsw (k_task (s' n fuel) p) = t_nvcsw (k_task s p) \<and>
      t_nivcsw (k_task (s' n fuel) p) = t_nivcsw (k_task s p))"
proof -
  have c: "calm (k_ext s) (k_this_cpu s) (k_current s) (s' n fuel) =
      calm (k_ext s) (k_this_cpu s) (k_current s) s"
    unfolding s'_def schedule_exec by (rule blocked_loop) (simp_all add: assms(2) blocked_at_def)
  show ?thesis using forced_calm [OF c] assms(2) calm_fields [OF c] by simp
qed

lemma forced_result:
  fixes K :: "'x kops" and s :: "'x kst"
  assumes "forced_here s" and "\<And>y. 0 \<le> fst (reacquire_kernel_lock (services K) (k_current s) y)"
  shows "t_need_resched (k_task s (k_current s)) \<Longrightarrow> result (schedule n fuel K) s = None"
    and "\<not> t_need_resched (k_task s (k_current s)) \<Longrightarrow>
      result (schedule n fuel K) s = (if n = 0 then None else Some ()) \<and>
      exec (schedule (Suc n) fuel K) s = exec (schedule 1 fuel K) s"
proof -
  have r: "result (schedule_turn fuel K None) t =
      (if t_need_resched (k_task t (k_current t)) then Inl None else Inr (Some ()))"
    if "forced_here t" "k_current t = k_current s" for t
    by (rule blocked_turn(3) [OF that(1)]) (simp_all add: blocked_at_def that(2) assms(2))
  have "result (loop_m n (schedule_turn fuel K) None) t = None"
    if "forced_here t" "k_current t = k_current s" "t_need_resched (k_task t (k_current s))" for n t
    using that
  proof (induction n arbitrary: t)
    case (Suc n)
    have at: "blocked_at t None" by (simp add: blocked_at_def)
    have c: "calm (k_ext t) (k_this_cpu t) (k_current t) (exec (schedule_turn fuel K None) t) =
        calm (k_ext t) (k_this_cpu t) (k_current t) t"
      by (rule blocked_turn(1) [OF Suc.prems(1) at])
    have "result (loop_m n (schedule_turn fuel K) None) (exec (schedule_turn fuel K None) t) = None"
      using Suc.prems forced_calm [OF c] calm_fields(5) [OF c] by (intro Suc.IH) simp_all
    then show ?case using r [OF Suc.prems(1,2)] Suc.prems(2,3) by simp
  qed simp
  from this [OF assms(1)]
  show "t_need_resched (k_task s (k_current s)) \<Longrightarrow> result (schedule n fuel K) s = None"
    by (simp add: schedule_def)
  show "\<not> t_need_resched (k_task s (k_current s)) \<Longrightarrow>
      result (schedule n fuel K) s = (if n = 0 then None else Some ()) \<and>
      exec (schedule (Suc n) fuel K) s = exec (schedule 1 fuel K) s"
    using r [OF assms(1)] by (cases n) (simp_all add: schedule_def)
qed

lemma forced_returns:
  fixes K :: "'x kops" and s :: "'x kst"
  assumes "forced_here s" and "\<And>y. 0 \<le> fst (reacquire_kernel_lock (services K) (k_current s) y)"
  shows "(\<exists>n. result (schedule n fuel K) s = Some ()) \<longleftrightarrow> \<not> t_need_resched (k_task s (k_current s))"
proof (cases "t_need_resched (k_task s (k_current s))")
  case True
  with forced_result(1) [OF assms] show ?thesis by simp
next
  case False
  from forced_result(2) [OF assms False, where n = 1] False show ?thesis by auto
qed

text \<open>C4. The price: a forced process that is asked to reschedule never gets out of \<open>schedule\<close>,
  however many turns it takes, because the flag is not cleared while the switch is blocked. Without
  the request the call is over after exactly one turn: one turn gives the result, more turns are
  not taken and change nothing.\<close>

theorem forced_schedule_returns_iff:
  fixes K :: "'x kops" and s :: "'x kst" and n :: nat and fuel :: nat
  assumes "forced_here s" and "\<And>y. 0 \<le> fst (reacquire_kernel_lock (services K) (k_current s) y)"
  shows "if t_need_resched (k_task s (k_current s)) then result (schedule n fuel K) s = None
    else result (schedule n fuel K) s = (if n = 0 then None else Some ()) \<and>
      exec (schedule (Suc n) fuel K) s = exec (schedule 1 fuel K) s"
  using forced_result [OF assms, where n = n and fuel = fuel] by simp

lemma context_switch_exec:
  assumes "prev \<noteq> nxt"
  shows "exec (context_switch c prev nxt v) t = (let old = t_active_mm (k_task t prev);
      borrow = (t_mm (k_task t nxt) = None); lend = (t_mm (k_task t prev) = None) in
    t\<lparr>k_task := (k_task t)(
         nxt := (if borrow then (k_task t nxt)\<lparr>t_active_mm := old\<rparr> else k_task t nxt),
         prev := (if lend then (k_task t prev)\<lparr>t_active_mm := None\<rparr> else k_task t prev)),
       k_rq := (if lend then (k_rq t)(c := (k_rq t c)\<lparr>rq_prev_mm := old\<rparr>) else k_rq t),
       k_frame := (k_frame t)(prev := Some v), k_current := nxt,
       k_log := k_log t @ (case t_mm (k_task t nxt) of None \<Rightarrow> [Mm_count_inc old, Lazy_tlb old nxt]
         | Some m \<Rightarrow> [Switch_mm old m nxt]) @ [Switch prev nxt]\<rparr>)"
  using assms
  by (cases "t_mm (k_task t nxt)"; cases "t_mm (k_task t prev)")
    (simp_all add: context_switch_def prepare_task_switch_def prepare_lock_switch_def switch_to_def
      Let_def fun_upd_twist)

lemma finish_task_switch_exec:
  "exec (finish_task_switch c prev) t = t\<lparr>k_rq := (k_rq t)(c := (k_rq t c)\<lparr>rq_prev_mm := None\<rparr>),
     k_irqs_off := False,
     k_log := k_log t @ [Spin_unlock (Rq_lock c), Irq_on] @
       (case rq_prev_mm (k_rq t c) of None \<Rightarrow> [] | Some m \<Rightarrow> [Mmdrop m]) @
       (if t_state (k_task t prev) = TASK_DEAD then [Kprobe_flush prev, Put_task prev] else [])\<rparr>"
  by (simp add: finish_task_switch_def finish_lock_switch_def split: option.split)

text \<open>C10. A context switch to a task that ran before: the CPU goes on with the next task in the
  frame it left, exactly one counter of the previous task and the CPU's counter go up by one, the
  next task runs in its own address space or, a kernel thread, in the one of its predecessor,
  and the references are taken and dropped in this order: taken for a next task without
  memory, the lock given up after the switch, then dropped for a predecessor without memory and
  for one that is dead.\<close>

theorem switch_hands_over:
  fixes K :: "'x kops" and s :: "'x kst" and v blk w :: bool and prev nxt :: task and c :: cpu
  assumes "prev \<noteq> nxt" and "k_frame s nxt = Some w" and "rq_prev_mm (k_rq s c) = None"
    and "k_this_cpu s = c"
  defines "s' \<equiv> exec (schedule_switch K c blk prev v nxt) s"
    and "old \<equiv> t_active_mm (k_task s prev)"
  shows "result (schedule_switch K c blk prev v nxt) s = Some (False, nxt, w) \<and>
    k_current s' = nxt \<and> rq_curr (k_rq s' c) = nxt \<and> k_frame s' prev = Some v \<and>
    rq_nr_switches (k_rq s' c) = rq_nr_switches (k_rq s c) + 1 \<and>
    t_nvcsw (k_task s' prev) = t_nvcsw (k_task s prev) + (if v then 1 else 0) \<and>
    t_nivcsw (k_task s' prev) = t_nivcsw (k_task s prev) + (if v then 0 else 1) \<and>
    t_active_mm (k_task s' nxt) =
      (if t_mm (k_task s nxt) = None then old else t_active_mm (k_task s nxt)) \<and>
    k_log s' = k_log s @
      (case t_mm (k_task s nxt) of None \<Rightarrow> [Mm_count_inc old, Lazy_tlb old nxt]
       | Some m \<Rightarrow> [Switch_mm old m nxt]) @
      [Switch prev nxt, Spin_unlock (Rq_lock c), Irq_on] @
      (case (t_mm (k_task s prev), old) of (None, Some m) \<Rightarrow> [Mmdrop m] | _ \<Rightarrow> []) @
      (if t_state (k_task s prev) = TASK_DEAD then [Kprobe_flush prev, Put_task prev] else [])"
proof -
  define t where "t = exec (do {
    upd_rq c (\<lambda>r. r\<lparr>rq_nr_switches := rq_nr_switches r + 1\<rparr>);
    upd_rq c (\<lambda>r. r\<lparr>rq_curr := nxt\<rparr>);
    upd_task prev (\<lambda>t. if v then t\<lparr>t_nvcsw := t_nvcsw t + 1\<rparr> else t\<lparr>t_nivcsw := t_nivcsw t + 1\<rparr>) }) s"
  have t: "rq_curr (k_rq t c) = nxt" "rq_nr_switches (k_rq t c) = rq_nr_switches (k_rq s c) + 1"
    "rq_prev_mm (k_rq t c) = None" "k_this_cpu t = c" "k_frame t nxt = Some w" "k_log t = k_log s"
    "t_nvcsw (k_task t prev) = t_nvcsw (k_task s prev) + (if v then 1 else 0)"
    "t_nivcsw (k_task t prev) = t_nivcsw (k_task s prev) + (if v then 0 else 1)"
    "t_active_mm (k_task t p) = t_active_mm (k_task s p)" "t_mm (k_task t p) = t_mm (k_task s p)"
    "t_state (k_task t p) = t_state (k_task s p)" for p
    using assms(1-4) by (simp_all add: t_def)
  have e: "exec (schedule_switch K c blk prev v nxt) s =
      exec (finish_task_switch c prev) (exec (context_switch c prev nxt v) t)"
    "result (schedule_switch K c blk prev v nxt) s = Some (False, nxt, w)"
    using assms(1) t(4,5)
    by (simp_all add: schedule_switch_def t_def context_switch_exec Let_def)
  show ?thesis
    unfolding s'_def old_def e using assms(1)
    by (simp add: context_switch_exec finish_task_switch_exec Let_def t split: option.split)
qed

subsection \<open>Witnesses\<close>

lemma demo_classes_leave: "classes_leave obs demo_kops"
  unfolding classes_leave_def
  by (intro conjI demo_wake_ops) (simp add: keeps_def demo_kops_def idle_classes_def)

text \<open>Two runnable tasks, 1 and 2, on CPU 0, task 2 running; and the same with process 2 forced.\<close>

definition demo_busy :: "unit kst" where
  "demo_busy = (blank_kst ())\<lparr>k_current := 2, k_rq := (\<lambda>_. blank_rq\<lparr>rq_nr_running := 2, rq_curr := 2,
     rq_cfs := (rq_cfs blank_rq)\<lparr>cfs_nr_running := 2\<rparr>\<rparr>)\<rparr>"

definition demo_forced :: "unit kst" where
  "demo_forced = demo_busy\<lparr>k_pid_force_run := 2\<rparr>"

theorem schedule_unforced_is_original_witness:
  "k_current (exec (schedule 1 0 demo_kops) demo_busy) = 1 \<and>
   exec (schedule 1 0 demo_kops) demo_busy = exec (orig_schedule 1 0 demo_kops) demo_busy"
proof -
  have "exec (schedule 1 0 demo_kops) demo_busy = exec (orig_schedule 1 0 demo_kops) demo_busy"
    using schedule_unforced_is_original [OF demo_classes_leave, of demo_busy 1 0]
    by (simp add: demo_busy_def blank_kst_def)
  moreover have "k_current (exec (orig_schedule 1 0 demo_kops) demo_busy) = 1"
    by (simp add: orig_schedule_def orig_turn_def orig_enter_def orig_body_def schedule_leave_def
        demo_busy_def blank_kst_def blank_rq_def blank_task_def schedule_debug_def preempt_count_def
        sched_feat_def update_rq_clock_def clear_tsk_need_resched_def pre_schedule_def
        put_prev_task_def pick_next_task_def context_switch_exec finish_task_switch_exec
        post_schedule_def need_resched_def demo_kops_def idle_classes_def quiet_services_def
        TASK_RUNNING_def Let_def)
  ultimately show ?thesis by simp
qed

lemma demo_forced_here: "forced_here demo_forced"
  by (simp add: forced_here_def demo_forced_def demo_busy_def blank_kst_def blank_rq_def blank_task_def)

theorem forced_task_stays_witness:
  "k_current (exec (schedule 5 0 demo_kops) demo_forced) = 2"
  using forced_task_stays [OF demo_forced_here, of 5 0 demo_kops]
  by (simp add: demo_forced_def demo_busy_def)

theorem forced_schedule_returns_iff_witness:
  "result (schedule 1 0 demo_kops) demo_forced = Some () \<and>
   result (schedule 1000 0 demo_kops) (exec (resched_task 2) demo_forced) = None"
proof -
  have r: "0 \<le> fst (reacquire_kernel_lock (services demo_kops) p y)" for p and y :: unit
    by (simp add: demo_kops_def quiet_services_def)
  have f: "forced_here (exec (resched_task 2) demo_forced)"
    using demo_forced_here by (auto simp: resched_task_def forced_here_def Let_def)
  have a: "t_need_resched (k_task (exec (resched_task 2) demo_forced) (k_current (exec (resched_task 2) demo_forced)))"
    "\<not> t_need_resched (k_task demo_forced (k_current demo_forced))"
    by (simp_all add: resched_task_def demo_forced_def demo_busy_def blank_kst_def blank_task_def)
  show ?thesis
    using forced_schedule_returns_iff [OF f r, where fuel = 0 and n = 1000]
      forced_schedule_returns_iff [OF demo_forced_here r, where fuel = 0 and n = 1] a
    by simp
qed

theorem switch_hands_over_witness:
  "result (schedule_switch demo_kops 0 False 2 False 1) demo_busy = Some (False, 1, False)"
  using switch_hands_over [where K = demo_kops and s = demo_busy and prev = 2 and nxt = 1 and w = False
      and c = 0 and blk = False and v = False]
  by (simp add: demo_busy_def blank_kst_def blank_rq_def)

end
