(* ===== verification/Sched_acct.thy ===== *)
theory Sched_acct
  imports Sched_schedule_correct
begin

text \<open>
  \<open>sched_mod.c\<close>, lines 4924 to 5250: the run time of tasks, the accounting of ticks to
  processes and CPUs, and \<open>scheduler_tick\<close>.
\<close>

subsection \<open>The run time of a task\<close>

definition do_task_delta_exec :: "'x kops \<Rightarrow> task \<Rightarrow> cpu \<Rightarrow> ('x kst, u64) state" where
  "do_task_delta_exec K p rq = do {
     cur \<leftarrow> task_current rq p;
     if \<not> cur then ret 0
     else do {
       update_rq_clock K rq;
       now \<leftarrow> rq_get rq rq_clock;
       start \<leftarrow> task_get p (\<lambda>t. se_exec_start (t_se t));
       ret (if sint (now - start) < 0 then 0 else now - start) } }"

definition task_delta_exec :: "'x kops \<Rightarrow> task \<Rightarrow> ('x kst, u64) state" where
  "task_delta_exec K p = do {
     (rq, flags) \<leftarrow> task_rq_lock p;
     ns \<leftarrow> do_task_delta_exec K p rq;
     task_rq_unlock rq flags;
     ret ns }"

definition task_sched_runtime :: "'x kops \<Rightarrow> task \<Rightarrow> ('x kst, u64) state" where
  "task_sched_runtime K p = do {
     (rq, flags) \<leftarrow> task_rq_lock p;
     sum \<leftarrow> task_get p (\<lambda>t. se_sum_exec_runtime (t_se t));
     delta \<leftarrow> do_task_delta_exec K p rq;
     task_rq_unlock rq flags;
     ret (sum + delta) }"

text \<open>\<open>group_sum_exec\<close> is the sum that \<open>thread_group_cputime\<close> takes over the thread group.\<close>

definition thread_group_sched_runtime :: "'x kops \<Rightarrow> task \<Rightarrow> ('x kst, u64) state" where
  "thread_group_sched_runtime K p = do {
     (rq, flags) \<leftarrow> task_rq_lock p;
     sum \<leftarrow> gets (\<lambda>s. group_sum_exec (services K) p (k_ext s));
     delta \<leftarrow> do_task_delta_exec K p rq;
     task_rq_unlock rq flags;
     ret (sum + delta) }"

subsection \<open>Accounting time\<close>

text \<open>What the architecture and \<open>preempt_count\<close>'s header define: the conversions between
  \<open>cputime_t\<close>, \<open>clock_t\<close> and nanoseconds, and the fields of the count.\<close>

record tick_defs =
  to_clock_t :: "u32 \<Rightarrow> s32"
  from_clock_t :: "s32 \<Rightarrow> u32"
  nsec_to_clock_t :: "u64 \<Rightarrow> u64"
  cputime_to_scaled :: "u32 \<Rightarrow> u32"
  jiffies_to_cputime :: "u32 \<Rightarrow> u32"
  hardirq_mask :: u32
  softirq_mask :: u32
  irq_mask :: u32
  HARDIRQ_OFFSET :: u32

definition PF_VCPU :: u32 where "PF_VCPU = 0x00000010"

definition upd_stat :: "(cpu_usage_stat \<Rightarrow> cpu_usage_stat) \<Rightarrow> ('x kst, unit) state" where
  "upd_stat f = modify (\<lambda>s. s\<lparr>k_cpustat :=
     (k_cpustat s)(k_this_cpu s := f (k_cpustat s (k_this_cpu s)))\<rparr>)"

definition upd_times :: "task \<Rightarrow> (cputimes \<Rightarrow> cputimes) \<Rightarrow> ('x kst, unit) state" where
  "upd_times p f = upd_task p (\<lambda>t. t\<lparr>t_times := f (t_times t)\<rparr>)"

lemma upd_stat_times [simp]:
  "exec (upd_stat f) s = s\<lparr>k_cpustat := (k_cpustat s)(k_this_cpu s := f (k_cpustat s (k_this_cpu s)))\<rparr>"
  "exec (upd_times p g) s =
     s\<lparr>k_task := (k_task s)(p := (k_task s p)\<lparr>t_times := g (t_times (k_task s p))\<rparr>)\<rparr>"
  by (simp_all add: upd_stat_def upd_times_def)

definition account_user_time :: "'x kops \<Rightarrow> task \<Rightarrow> u32 \<Rightarrow> u32 \<Rightarrow> ('x kst, unit) state" where
  "account_user_time K p cputime scaled = do {
     upd_times p (\<lambda>c. c\<lparr>ct_utime := ct_utime c + cputime\<rparr>);
     upd_times p (\<lambda>c. c\<lparr>ct_utimescaled := ct_utimescaled c + scaled\<rparr>);
     service_unit (account_group (services K) p cputime True);
     nice \<leftarrow> task_get p TASK_NICE;
     upd_stat (\<lambda>c. if nice > 0 then c\<lparr>cs_nice := cs_nice c + ucast cputime\<rparr>
       else c\<lparr>cs_user := cs_user c + ucast cputime\<rparr>) }"

definition account_guest_time :: "'x kops \<Rightarrow> task \<Rightarrow> u32 \<Rightarrow> u32 \<Rightarrow> ('x kst, unit) state" where
  "account_guest_time K p cputime scaled = do {
     upd_times p (\<lambda>c. c\<lparr>ct_utime := ct_utime c + cputime\<rparr>);
     upd_times p (\<lambda>c. c\<lparr>ct_utimescaled := ct_utimescaled c + scaled\<rparr>);
     service_unit (account_group (services K) p cputime True);
     upd_times p (\<lambda>c. c\<lparr>ct_gtime := ct_gtime c + cputime\<rparr>);
     upd_stat (\<lambda>c. c\<lparr>cs_user := cs_user c + ucast cputime\<rparr>);
     upd_stat (\<lambda>c. c\<lparr>cs_guest := cs_guest c + ucast cputime\<rparr>) }"

definition account_system_time ::
    "tick_defs \<Rightarrow> 'x kops \<Rightarrow> task \<Rightarrow> u32 \<Rightarrow> u32 \<Rightarrow> u32 \<Rightarrow> ('x kst, unit) state" where
  "account_system_time T K p hardirq_offset cputime scaled = do {
     vcpu \<leftarrow> task_get p (\<lambda>t. t_flags t AND PF_VCPU \<noteq> 0);
     count \<leftarrow> preempt_count;
     if vcpu \<and> count AND irq_mask T = hardirq_offset then account_guest_time K p cputime scaled
     else do {
       upd_times p (\<lambda>c. c\<lparr>ct_stime := ct_stime c + cputime\<rparr>);
       upd_times p (\<lambda>c. c\<lparr>ct_stimescaled := ct_stimescaled c + scaled\<rparr>);
       service_unit (account_group (services K) p cputime False);
       upd_stat (\<lambda>c.
         if count AND hardirq_mask T \<noteq> hardirq_offset then c\<lparr>cs_irq := cs_irq c + ucast cputime\<rparr>
         else if count AND softirq_mask T \<noteq> 0 then c\<lparr>cs_softirq := cs_softirq c + ucast cputime\<rparr>
         else c\<lparr>cs_system := cs_system c + ucast cputime\<rparr>) } }"

definition account_steal_time :: "u32 \<Rightarrow> ('x kst, unit) state" where
  "account_steal_time cputime = upd_stat (\<lambda>c. c\<lparr>cs_steal := cs_steal c + ucast cputime\<rparr>)"

definition account_idle_time :: "u32 \<Rightarrow> ('x kst, unit) state" where
  "account_idle_time cputime = do {
     waiting \<leftarrow> gets (\<lambda>s. 0 < sint (rq_nr_iowait (k_rq s (k_this_cpu s))));
     upd_stat (\<lambda>c. if waiting then c\<lparr>cs_iowait := cs_iowait c + ucast cputime\<rparr>
       else c\<lparr>cs_idle := cs_idle c + ucast cputime\<rparr>) }"

definition account_process_tick :: "tick_defs \<Rightarrow> 'x kops \<Rightarrow> task \<Rightarrow> bool \<Rightarrow> ('x kst, unit) state" where
  "account_process_tick T K p user_tick = do {
     let one_jiffy = jiffies_to_cputime T 1;
     let scaled = cputime_to_scaled T one_jiffy;
     idle \<leftarrow> gets (\<lambda>s. rq_idle (k_rq s (k_this_cpu s)));
     count \<leftarrow> preempt_count;
     if user_tick then account_user_time K p one_jiffy scaled
     else if p \<noteq> idle \<or> count AND irq_mask T \<noteq> HARDIRQ_OFFSET T
     then account_system_time T K p (HARDIRQ_OFFSET T) one_jiffy scaled
     else account_idle_time one_jiffy }"

definition account_steal_ticks :: "tick_defs \<Rightarrow> u32 \<Rightarrow> ('x kst, unit) state" where
  "account_steal_ticks T ticks = account_steal_time (jiffies_to_cputime T ticks)"

definition account_idle_ticks :: "tick_defs \<Rightarrow> u32 \<Rightarrow> ('x kst, unit) state" where
  "account_idle_ticks T ticks = account_idle_time (jiffies_to_cputime T ticks)"

subsection \<open>The times a process is shown\<close>

text \<open>\<open>do_div\<close> divides by the low 32 bits of \<open>total\<close>; a \<open>clock_t\<close> has 32 bits.\<close>

definition task_utime :: "tick_defs \<Rightarrow> task \<Rightarrow> ('x kst, u32) state" where
  "task_utime T p = do {
     c \<leftarrow> task_get p t_times;
     runtime \<leftarrow> task_get p (\<lambda>t. se_sum_exec_runtime (t_se t));
     let utime = to_clock_t T (ct_utime c);
     let total = utime + to_clock_t T (ct_stime c);
     let n = nsec_to_clock_t T runtime;
     let temp = (if total \<noteq> 0 then n * scast utime div ucast total else n);
     upd_times p (\<lambda>c. c\<lparr>ct_prev_utime := max (ct_prev_utime c) (from_clock_t T (ucast temp))\<rparr>);
     task_get p (\<lambda>t. ct_prev_utime (t_times t)) }"

definition task_stime :: "tick_defs \<Rightarrow> task \<Rightarrow> ('x kst, u32) state" where
  "task_stime T p = do {
     runtime \<leftarrow> task_get p (\<lambda>t. se_sum_exec_runtime (t_se t));
     utime \<leftarrow> task_utime T p;
     let stime = (ucast (nsec_to_clock_t T runtime) - to_clock_t T utime :: s32);
     when_m (0 \<le> sint stime)
       (upd_times p (\<lambda>c. c\<lparr>ct_prev_stime := max (ct_prev_stime c) (from_clock_t T stime)\<rparr>));
     task_get p (\<lambda>t. ct_prev_stime (t_times t)) }"

definition task_gtime :: "task \<Rightarrow> ('x kst, u32) state" where
  "task_gtime p = task_get p (\<lambda>t. ct_gtime (t_times t))"

subsection \<open>The tick\<close>

definition scheduler_tick :: "'x kops \<Rightarrow> ('x kst, unit) state" where
  "scheduler_tick K = do {
     cpu \<leftarrow> gets k_this_cpu;
     curr \<leftarrow> rq_get cpu rq_curr;
     service_unit (sched_clock_tick (services K));
     spin_lock (Rq_lock cpu);
     update_rq_clock K cpu;
     update_cpu_load cpu;
     cls \<leftarrow> task_get curr t_sched_class;
     op_task_tick (classes K) cls cpu curr False;
     spin_unlock (Rq_lock cpu);
     idle \<leftarrow> idle_cpu cpu;
     upd_rq cpu (\<lambda>r. r\<lparr>rq_idle_at_tick := idle\<rparr>);
     trigger_load_balance K cpu }"

subsection \<open>Where the ticks go\<close>

lemma result_preempt_count [simp]: "result preempt_count s = t_preempt_count (k_task s (k_current s))"
  "exec preempt_count s = s"
  by (simp_all add: preempt_count_def)

text \<open>The fields of the preemption count, as \<open>hardirq.h\<close> lays them out: the hard and the soft
  interrupt count are disjoint parts of the interrupt mask (what is left of it is the NMI bit), and
  one hard interrupt is counted in the first.\<close>

definition irq_fields :: "tick_defs \<Rightarrow> bool" where
  "irq_fields T \<longleftrightarrow> hardirq_mask T AND softirq_mask T = 0 \<and> hardirq_mask T AND irq_mask T = hardirq_mask T \<and>
     softirq_mask T AND irq_mask T = softirq_mask T \<and> HARDIRQ_OFFSET T AND hardirq_mask T = HARDIRQ_OFFSET T"

text \<open>What a tick found the CPU doing: running a process in user mode, serving another hard interrupt (the
  tick's own is one), a soft interrupt or an NMI, running a virtual CPU, nothing, or running
  a process in the kernel.\<close>

datatype tick_kind = User_tick | Niced_tick | Irq_tick | Softirq_tick | Guest_tick | System_tick |
  Idle_tick | Iowait_tick

definition tick_kind :: "tick_defs \<Rightarrow> task \<Rightarrow> bool \<Rightarrow> 'x kst \<Rightarrow> tick_kind" where
  "tick_kind T p user s = (let t = k_task s p; rq = k_rq s (k_this_cpu s);
       count = t_preempt_count (k_task s (k_current s));
       nmi = (count AND irq_mask T AND NOT (hardirq_mask T OR softirq_mask T) \<noteq> 0) in
     if user then (if TASK_NICE t > 0 then Niced_tick else User_tick)
     else if count AND hardirq_mask T \<noteq> HARDIRQ_OFFSET T then Irq_tick
     else if count AND softirq_mask T \<noteq> 0 then Softirq_tick
     else if nmi then System_tick
     else if p = rq_idle rq then (if 0 < sint (rq_nr_iowait rq) then Iowait_tick else Idle_tick)
     else if t_flags t AND PF_VCPU \<noteq> 0 then Guest_tick else System_tick)"

lemma irq_count_split:
  assumes "irq_fields T"
  shows "count AND irq_mask T = HARDIRQ_OFFSET T \<longleftrightarrow> count AND hardirq_mask T = HARDIRQ_OFFSET T \<and>
    count AND softirq_mask T = 0 \<and> count AND irq_mask T AND NOT (hardirq_mask T OR softirq_mask T) = 0"
proof -
  have bits: "bit (NOT a) n \<longleftrightarrow> n < 32 \<and> \<not> bit a n" "bit a n \<Longrightarrow> n < 32" for a :: u32 and n
    using bit_imp_le_length [of a n] by (auto simp: bit_not_iff)
  show ?thesis
    using assms unfolding irq_fields_def bit_eq_iff bit_and_iff bit_or_iff bits(1) bit_0_eq bot_fun_def bot_bool_def
    using bits(2) by (safe; blast?)
qed

text \<open>What one tick of \<open>j\<close> cputimes adds: to the counters of the CPU, and to user, system and guest
  time of the process.\<close>

primrec charge_cpu :: "u64 \<Rightarrow> tick_kind \<Rightarrow> cpu_usage_stat \<Rightarrow> cpu_usage_stat" where
  "charge_cpu j User_tick c = c\<lparr>cs_user := cs_user c + j\<rparr>"
| "charge_cpu j Niced_tick c = c\<lparr>cs_nice := cs_nice c + j\<rparr>"
| "charge_cpu j Irq_tick c = c\<lparr>cs_irq := cs_irq c + j\<rparr>"
| "charge_cpu j Softirq_tick c = c\<lparr>cs_softirq := cs_softirq c + j\<rparr>"
| "charge_cpu j Guest_tick c = c\<lparr>cs_user := cs_user c + j, cs_guest := cs_guest c + j\<rparr>"
| "charge_cpu j System_tick c = c\<lparr>cs_system := cs_system c + j\<rparr>"
| "charge_cpu j Idle_tick c = c\<lparr>cs_idle := cs_idle c + j\<rparr>"
| "charge_cpu j Iowait_tick c = c\<lparr>cs_iowait := cs_iowait c + j\<rparr>"

definition process_times :: "'x kst \<Rightarrow> task \<Rightarrow> u32 \<times> u32 \<times> u32" where
  "process_times s p = (let t = t_times (k_task s p) in (ct_utime t, ct_stime t, ct_gtime t))"

definition charge_process :: "u32 \<Rightarrow> tick_kind \<Rightarrow> u32 \<times> u32 \<times> u32 \<Rightarrow> u32 \<times> u32 \<times> u32" where
  "charge_process j k = (\<lambda>(u, s, g).
     (if k \<in> {User_tick, Niced_tick, Guest_tick} then u + j else u,
      if k \<in> {Irq_tick, Softirq_tick, System_tick} then s + j else s, if k = Guest_tick then g + j else g))"

lemma tick_charges:
  fixes s :: "'x kst" and T :: tick_defs and K :: "'x kops" and p :: task and user :: bool
  assumes "irq_fields T"
  defines "s' \<equiv> exec (account_process_tick T K p user) s" and "j \<equiv> jiffies_to_cputime T 1"
    and "k \<equiv> tick_kind T p user s"
  shows "k_cpustat s' = (k_cpustat s)(k_this_cpu s := charge_cpu (ucast j) k (k_cpustat s (k_this_cpu s)))"
    and "process_times s' = (process_times s)(p := charge_process j k (process_times s p))"
    and "k_this_cpu s' = k_this_cpu s"
proof -
  let ?t = "k_task s p" and ?rq = "k_rq s (k_this_cpu s)" and ?n = "t_preempt_count (k_task s (k_current s))"
  define hard where "hard \<longleftrightarrow> ?n AND hardirq_mask T = HARDIRQ_OFFSET T"
  define soft where "soft \<longleftrightarrow> ?n AND softirq_mask T = 0"
  define nmi where "nmi \<longleftrightarrow> ?n AND irq_mask T AND NOT (hardirq_mask T OR softirq_mask T) = 0"
  note c = irq_count_split [OF assms(1), of ?n, folded hard_def soft_def nmi_def]
  have k: "k = (if user then if TASK_NICE ?t > 0 then Niced_tick else User_tick
     else if \<not> hard then Irq_tick else if \<not> soft then Softirq_tick else if \<not> nmi then System_tick
     else if p = rq_idle ?rq then if 0 < sint (rq_nr_iowait ?rq) then Iowait_tick else Idle_tick
     else if t_flags ?t AND PF_VCPU \<noteq> 0 then Guest_tick else System_tick)"
    unfolding k_def tick_kind_def Let_def hard_def soft_def nmi_def ..
  have nice: "TASK_NICE (t\<lparr>t_times := v\<rparr>) = TASK_NICE t" for t v by (simp add: TASK_NICE_def)
  have sys: "exec (account_system_time T K p (HARDIRQ_OFFSET T) j x) s =
      (if t_flags ?t AND PF_VCPU \<noteq> 0 \<and> hard \<and> soft \<and> nmi then exec (account_guest_time K p j x) s
       else exec (do {
       upd_times p (\<lambda>c. c\<lparr>ct_stime := ct_stime c + j\<rparr>);
       upd_times p (\<lambda>c. c\<lparr>ct_stimescaled := ct_stimescaled c + x\<rparr>);
       service_unit (account_group (services K) p j False);
       upd_stat (\<lambda>c. if \<not> hard then c\<lparr>cs_irq := cs_irq c + ucast j\<rparr>
         else if \<not> soft then c\<lparr>cs_softirq := cs_softirq c + ucast j\<rparr>
         else c\<lparr>cs_system := cs_system c + ucast j\<rparr>) }) s)" for x
    by (simp add: account_system_time_def c flip: hard_def soft_def)
  have "s' = (if user then exec (account_user_time K p j (cputime_to_scaled T j)) s
     else if p \<noteq> rq_idle ?rq \<or> \<not> (hard \<and> soft \<and> nmi)
     then exec (account_system_time T K p (HARDIRQ_OFFSET T) j (cputime_to_scaled T j)) s
     else exec (account_idle_time j) s)"
    by (simp add: s'_def account_process_tick_def Let_def j_def c)
  note run = this [unfolded sys account_user_time_def account_guest_time_def account_idle_time_def]
  show "k_cpustat s' = (k_cpustat s)(k_this_cpu s := charge_cpu (ucast j) k (k_cpustat s (k_this_cpu s)))"
    unfolding run k by (cases user; cases hard; cases soft; cases nmi; simp add: nice)
  show "process_times s' = (process_times s)(p := charge_process j k (process_times s p))"
    unfolding run k process_times_def charge_process_def
    by (cases user; cases hard; cases soft; cases nmi; simp add: fun_eq_iff Let_def)
  show "k_this_cpu s' = k_this_cpu s" unfolding run by (cases user; cases hard; simp)
qed

text \<open>Any number of ticks on this CPU, each with the process and the mode it interrupted; between two of
  them anything may happen that leaves the accounts alone. The run answers what each tick hit.\<close>

type_synonym 'x tick = "('x kst \<Rightarrow> 'x kst) \<times> task \<times> bool"

fun run_ticks :: "tick_defs \<Rightarrow> 'x kops \<Rightarrow> 'x tick list \<Rightarrow> ('x kst, (task \<times> tick_kind) list) state" where
  "run_ticks T K [] = ret []"
| "run_ticks T K ((g, p, user) # ticks) = do {
     modify g;
     k \<leftarrow> gets (tick_kind T p user);
     account_process_tick T K p user;
     hits \<leftarrow> run_ticks T K ticks;
     ret ((p, k) # hits) }"

definition leaves_accounts :: "('x kst \<Rightarrow> 'x kst) \<Rightarrow> bool" where
  "leaves_accounts g \<longleftrightarrow> (\<forall>s. k_this_cpu (g s) = k_this_cpu s \<and> k_cpustat (g s) = k_cpustat s \<and>
     process_times (g s) = process_times s)"

definition hits_of :: "(task \<Rightarrow> bool) \<Rightarrow> tick_kind set \<Rightarrow> (task \<times> tick_kind) list \<Rightarrow> nat" where
  "hits_of P ks hits = length [(q, k) \<leftarrow> hits. P q \<and> k \<in> ks]"

lemma hits_of_simps [simp]:
  "hits_of P ks [] = 0" "hits_of P ks ((q, k) # hits) = (if P q \<and> k \<in> ks then Suc else id) (hits_of P ks hits)"
  by (simp_all add: hits_of_def)

lemma hits_of_times:
  "of_nat (hits_of P ks ((q, k) # hits)) * (j :: 'w :: len word) =
     (if P q \<and> k \<in> ks then j else 0) + of_nat (hits_of P ks hits) * j"
  by (simp add: distrib_right)

lemma charge_cpu_fields:
  "charge_cpu j k c = c\<lparr>
     cs_user := cs_user c + (if k \<in> {User_tick, Guest_tick} then j else 0),
     cs_nice := cs_nice c + (if k \<in> {Niced_tick} then j else 0),
     cs_system := cs_system c + (if k \<in> {System_tick} then j else 0),
     cs_softirq := cs_softirq c + (if k \<in> {Softirq_tick} then j else 0),
     cs_irq := cs_irq c + (if k \<in> {Irq_tick} then j else 0),
     cs_idle := cs_idle c + (if k \<in> {Idle_tick} then j else 0),
     cs_iowait := cs_iowait c + (if k \<in> {Iowait_tick} then j else 0),
     cs_guest := cs_guest c + (if k \<in> {Guest_tick} then j else 0)\<rparr>"
  by (cases k) simp_all

text \<open>C22. The accounts are the histogram of the ticks. After any sequence of ticks on a CPU, each of
  its counters has grown by one jiffy for each tick that hit what the counter is for, and by nothing else:
  user and niced ticks, ticks in a hard or a soft interrupt, in the kernel, on the idle CPU without or
  with tasks waiting for I/O, and those of a guest, which count as user time too; stolen time has
  not grown. Each process has been charged user time for the ticks that found it in user mode or running a guest,
  system time for those that found it in the kernel or in an interrupt, and nothing for idle ticks. No
  other CPU is touched.\<close>

theorem tick_accounted_once:
  fixes s :: "'x kst" and T :: tick_defs and K :: "'x kops" and ticks :: "'x tick list"
  assumes "irq_fields T" and "\<forall>(g, p, user) \<in> set ticks. leaves_accounts g"
  defines "s' \<equiv> exec (run_ticks T K ticks) s" and "hits \<equiv> result (run_ticks T K ticks) s"
    and "c \<equiv> k_cpustat s (k_this_cpu s)"
  defines "n \<equiv> \<lambda>ks. of_nat (hits_of (\<lambda>_. True) ks hits) * ucast (jiffies_to_cputime T 1) :: u64"
    and "m \<equiv> \<lambda>q ks. of_nat (hits_of (\<lambda>p. p = q) ks hits) * jiffies_to_cputime T 1"
  shows "k_cpustat s' = (k_cpustat s)(k_this_cpu s := c\<lparr>
      cs_user := cs_user c + n {User_tick, Guest_tick}, cs_nice := cs_nice c + n {Niced_tick},
      cs_system := cs_system c + n {System_tick}, cs_softirq := cs_softirq c + n {Softirq_tick},
      cs_irq := cs_irq c + n {Irq_tick}, cs_idle := cs_idle c + n {Idle_tick},
      cs_iowait := cs_iowait c + n {Iowait_tick}, cs_guest := cs_guest c + n {Guest_tick}\<rparr>) \<and>
    (\<forall>q. process_times s' q = (case process_times s q of (u, st, g) \<Rightarrow>
      (u + m q {User_tick, Niced_tick, Guest_tick}, st + m q {Irq_tick, Softirq_tick, System_tick},
       g + m q {Guest_tick})))"
  using assms(2) unfolding s'_def hits_def c_def n_def m_def
proof (induction ticks arbitrary: s)
  case (Cons tick ticks)
  obtain g p user where tick: "tick = (g, p, user)" by (cases tick) auto
  define t where "t = exec (account_process_tick T K p user) (g s)"
  define k where "k = tick_kind T p user (g s)"
  have g: "k_this_cpu (g s) = k_this_cpu s" "k_cpustat (g s) = k_cpustat s" "process_times (g s) = process_times s"
    using Cons.prems by (simp_all add: tick leaves_accounts_def)
  note ch = tick_charges [OF assms(1), of K p user "g s", folded t_def k_def, unfolded g]
  have run: "exec (run_ticks T K (tick # ticks)) s = exec (run_ticks T K ticks) t"
    "result (run_ticks T K (tick # ticks)) s = (p, k) # result (run_ticks T K ticks) t"
    by (simp_all add: tick t_def k_def)
  have "\<forall>(g, p, user) \<in> set ticks. leaves_accounts g" using Cons.prems by auto
  note IH = Cons.IH [OF this, of t, unfolded ch(3), THEN conjunct1, unfolded ch(1) fun_upd_upd fun_upd_same]
    Cons.IH [OF this, of t, THEN conjunct2, rule_format, unfolded ch(2)]
  show ?case
    unfolding run IH charge_cpu_fields hits_of_times
    by (simp add: charge_process_def add.assoc split: prod.split)
qed simp

definition demo_defs :: tick_defs where
  "demo_defs = \<lparr>to_clock_t = (\<lambda>x. x * 4 div 10), from_clock_t = (\<lambda>x. x * 10 div 4), nsec_to_clock_t = (\<lambda>n. n div 10000000),
     cputime_to_scaled = (\<lambda>x. x), jiffies_to_cputime = (\<lambda>x. x), hardirq_mask = 0x03FF0000,
     softirq_mask = 0x0000FF00, irq_mask = 0x07FFFF00, HARDIRQ_OFFSET = 0x00010000\<rparr>"

theorem tick_accounted_once_witness:
  "let s = exec (upd_task 2 (\<lambda>t. t\<lparr>t_preempt_count := 0x00010000\<rparr>)) demo_busy;
     s' = exec (run_ticks demo_defs demo_kops [(id, 2, True), (id, 0, False), (id, 2, False)]) s;
     c = k_cpustat s 0; c' = k_cpustat s' 0 in
   cs_user c' = cs_user c + 1 \<and> cs_idle c' = cs_idle c + 1 \<and> cs_system c' = cs_system c + 1 \<and>
   cs_irq c' = cs_irq c \<and> process_times s' 0 = process_times s 0"
proof -
  define s where "s = exec (upd_task 2 (\<lambda>t. t\<lparr>t_preempt_count := 0x00010000\<rparr>)) demo_busy"
  define ticks :: "unit tick list" where "ticks = [(id, 2, True), (id, 0, False), (id, 2, False)]"
  have f: "irq_fields demo_defs" by (simp add: irq_fields_def demo_defs_def)
  have l: "\<forall>(g, p, user) \<in> set ticks. leaves_accounts g" by (simp add: ticks_def leaves_accounts_def)
  have m: "hardirq_mask demo_defs = 0x03FF0000" "softirq_mask demo_defs = 0xFF00" "irq_mask demo_defs = 0x07FFFF00"
    "HARDIRQ_OFFSET demo_defs = 0x10000" "jiffies_to_cputime demo_defs x = x" for x
    by (simp_all add: demo_defs_def)
  have h: "result (run_ticks demo_defs demo_kops ticks) s = [(2, User_tick), (0, Idle_tick), (2, System_tick)]"
    by (simp add: ticks_def tick_kind_def account_process_tick_def account_user_time_def
        account_idle_time_def account_system_time_def s_def demo_busy_def blank_kst_def blank_rq_def
        blank_task_def TASK_NICE_def PRIO_TO_NICE_def MAX_RT_PRIO_def PF_VCPU_def demo_defs_def Let_def)
  have "k_this_cpu s = 0" by (simp add: s_def demo_busy_def blank_kst_def)
  then have "let s' = exec (run_ticks demo_defs demo_kops ticks) s; c = k_cpustat s 0; c' = k_cpustat s' 0 in
   cs_user c' = cs_user c + 1 \<and> cs_idle c' = cs_idle c + 1 \<and> cs_system c' = cs_system c + 1 \<and>
   cs_irq c' = cs_irq c \<and> process_times s' 0 = process_times s 0"
    using tick_accounted_once [OF f l, of demo_kops s] by (simp add: Let_def h m split: prod.split)
  then show ?thesis unfolding s_def ticks_def Let_def .
qed

subsection \<open>A tick and the forced process\<close>

text \<open>What decides whether the running process is the forced one.\<close>

definition forced_view :: "'x kst \<Rightarrow> _" where
  "forced_view s = (k_this_cpu s, k_current s, k_pid_force_run s, (\<lambda>p. t_pid (k_task s p)),
     (\<lambda>c. let r = k_rq s c in (rq_curr r, rq_nr_running r, rq_post_schedule r)))"

lemma forced_view_eq:
  assumes "forced_view t = forced_view s"
  shows "forced_here t = forced_here s" "k_current t = k_current s" "k_this_cpu t = k_this_cpu s"
  using assms by (auto simp: forced_view_def forced_here_def Let_def fun_eq_iff)

lemma forced_view_task [simp]:
  "t_pid (f (k_task s p)) = t_pid (k_task s p) \<Longrightarrow>
   forced_view (s\<lparr>k_task := (k_task s)(p := f (k_task s p))\<rparr>) = forced_view s"
  by (auto simp: forced_view_def fun_eq_iff)

lemma forced_view_rq [simp]:
  "(rq_curr r, rq_nr_running r, rq_post_schedule r) =
     (rq_curr (k_rq s c), rq_nr_running (k_rq s c), rq_post_schedule (k_rq s c)) \<Longrightarrow>
   forced_view (s\<lparr>k_rq := (k_rq s)(c := r)\<rparr>) = forced_view s"
  by (auto simp: forced_view_def fun_eq_iff Let_def)

lemma forced_view_upd [simp]:
  "forced_view (s\<lparr>k_log := l\<rparr>) = forced_view s" "forced_view (s\<lparr>k_ext := x\<rparr>) = forced_view s"
  "forced_view (s\<lparr>k_irqs_off := b, k_log := l\<rparr>) = forced_view s"
  "forced_view (s\<lparr>k_irqs_off := b\<rparr>) = forced_view s"
  "forced_view (s\<lparr>k_nohz_balancer := n\<rparr>) = forced_view s"
  "forced_view (s\<lparr>k_nohz_mask := m\<rparr>) = forced_view s"
  "forced_view (s\<lparr>k_calc_load_tasks := k\<rparr>) = forced_view s"
  by (simp_all add: forced_view_def)

lemma forced_view_tick:
  assumes "\<And>c rq p b. keeps forced_view (op_task_tick (classes K) c rq p b)"
  shows "keeps forced_view (scheduler_tick K)"
proof -
  have irq: "keeps forced_view (spin_lock_irqsave l)" "keeps forced_view (spin_unlock_irqrestore l f)" for l f
    by (simp_all add: keeps_def)
  show ?thesis
    unfolding scheduler_tick_def update_rq_clock_def update_cpu_load_def calc_load_account_active_def
      trigger_load_balance_def nominate_new_ilb_def resched_cpu_def resched_task_def find_new_ilb_def
      get_nohz_load_balancer_def on_null_domain_def idle_cpu_def Let_def spin_lock_def spin_unlock_def
    by ((intro keeps_intros assms irq; simp?)+)
qed

text \<open>C21. The timer interrupt is not one of those the module switches off. A tick leaves the forced
  process running on its CPU; but if its scheduling class asks for a reschedule, the next call of
  \<open>schedule\<close> does not return, and the measured program makes no progress until a watchdog unlocks
  the scheduler.\<close>

theorem tick_hangs_forced_task:
  fixes K :: "'x kops" and s :: "'x kst"
  assumes "forced_here s" and "\<And>c rq p b. keeps forced_view (op_task_tick (classes K) c rq p b)"
    and "\<And>y. 0 \<le> fst (reacquire_kernel_lock (services K) (k_current s) y)"
  shows "let s' = exec (scheduler_tick K) s in
    forced_here s' \<and> k_current s' = k_current s \<and>
    ((\<exists>n. result (schedule n fuel K) s' = Some ()) \<longleftrightarrow> \<not> t_need_resched (k_task s' (k_current s)))"
proof -
  let ?s = "exec (scheduler_tick K) s"
  note v = forced_view_eq [OF keepsD [OF forced_view_tick [OF assms(2)], of s]]
  have f: "forced_here ?s" using v assms(1) by simp
  show ?thesis using forced_returns [OF f, of K fuel] v assms by (simp add: Let_def)
qed

text \<open>A class that asks for a reschedule at every tick.\<close>

definition preempting :: "unit kops" where
  "preempting = demo_kops\<lparr>classes := (classes demo_kops)\<lparr>op_task_tick := (\<lambda>_ _ p _. resched_task p)\<rparr>\<rparr>"

lemma still_asked:
  "t_need_resched (k_task s p) \<Longrightarrow> t_need_resched (k_task (exec (resched_task q) s) p)"
  "t_need_resched (k_task s p) \<Longrightarrow> t_need_resched (k_task (exec (resched_cpu K c) s) p)"
  by (simp_all add: resched_task_def resched_cpu_def)

lemma still_asked_trigger:
  "t_need_resched (k_task s p) \<Longrightarrow> t_need_resched (k_task (exec (trigger_load_balance K c) s) p)"
  by (simp add: trigger_load_balance_def nominate_new_ilb_def find_new_ilb_def still_asked
      get_nohz_load_balancer_def on_null_domain_def Let_def)

lemma tick_asks:
  assumes "op_task_tick (classes K) = (\<lambda>_ _ p _. resched_task p)"
  shows "t_need_resched (k_task (exec (scheduler_tick K) s) (rq_curr (k_rq s (k_this_cpu s))))"
proof -
  have r: "t_need_resched (k_task (exec (resched_task p) t) p)" for p and t :: "'a kst"
    by (simp add: resched_task_def)
  show ?thesis
    unfolding scheduler_tick_def by (simp add: assms idle_cpu_def) (intro still_asked_trigger, simp add: r)
qed

theorem tick_hangs_forced_task_witness:
  "k_current (exec (scheduler_tick preempting) demo_forced) = 2 \<and>
   (\<nexists>n. result (schedule n 0 preempting) (exec (scheduler_tick preempting) demo_forced) = Some ())"
proof -
  have k: "keeps forced_view (op_task_tick (classes preempting) c rq p b)" for c rq p b
    unfolding preempting_def by (simp add: resched_task_def) ((intro keeps_intros; simp?)+)
  have r: "0 \<le> fst (reacquire_kernel_lock (services preempting) q y)" for q y
    by (simp add: preempting_def demo_kops_def quiet_services_def)
  have "t_need_resched (k_task (exec (scheduler_tick preempting) demo_forced) 2)"
    using tick_asks [of preempting demo_forced]
    by (simp add: preempting_def demo_forced_def demo_busy_def blank_kst_def)
  then show ?thesis
    using tick_hangs_forced_task [OF demo_forced_here k r, of 0]
    by (simp add: Let_def demo_forced_def demo_busy_def)
qed

end
