(* ===== verification/Sched_wait.thy ===== *)
theory Sched_wait
  imports Sched_acct
begin

text \<open>
  \<open>sched_mod.c\<close>, lines 5524 to 6004 and 6689 to 6824: spinning on the owner of a mutex, wait
  queues, completions, and giving up the CPU. A wait queue and the completion around it are
  named by a number. What a sleeping task finds when it runs again is a parameter
  (\<open>others\<close>).
\<close>

definition MAX_SCHEDULE_TIMEOUT :: s32 where "MAX_SCHEDULE_TIMEOUT = 0x7FFFFFFF"
definition ERESTARTSYS :: s32 where "ERESTARTSYS = 512"
definition TASK_KILLABLE :: u32 where "TASK_KILLABLE = 128 OR TASK_UNINTERRUPTIBLE"

subsection \<open>Spinning on the owner of a mutex\<close>

text \<open>The answer: whether the owner changed. The fuel bounds the turns of the loop.\<close>

definition mutex_spin_on_owner :: "nat \<Rightarrow> 'x kops \<Rightarrow> nat \<Rightarrow> task \<Rightarrow> ('x kst, bool option) state" where
  "mutex_spin_on_owner fuel K lock owner = do {
     feat \<leftarrow> sched_feat K OWNER_SPIN;
     if \<not> feat then ret (Some False)
     else do {
       cpu \<leftarrow> task_get owner t_cpu;
       online \<leftarrow> gets (\<lambda>s. cpu \<in> k_online s);
       if NR_CPUS \<le> cpu then ret (Some True)
       else if \<not> online then ret (Some True)
       else loop_m fuel (\<lambda>_. do {
         now \<leftarrow> gets (\<lambda>s. mutex_owner (services K) lock (k_ext s));
         if now \<noteq> Some owner then ret (Inr True)
         else do {
           curr \<leftarrow> rq_get cpu rq_curr;
           need \<leftarrow> need_resched;
           if curr \<noteq> owner \<or> need then ret (Inr False)
           else do { cpu_relax (others K); ret (Inl ()) } } }) () } }"

subsection \<open>Wait queues\<close>

definition default_wake_function :: "'x kops \<Rightarrow> wait_entry \<Rightarrow> u32 \<Rightarrow> u32 \<Rightarrow> ('x kst, bool) state" where
  "default_wake_function K w mode wake_flags = try_to_wake_up K (wq_task w) mode wake_flags"

text \<open>\<open>curr->func\<close>.\<close>

definition call_wake :: "'x kops \<Rightarrow> wait_entry \<Rightarrow> u32 \<Rightarrow> u32 \<Rightarrow> ('x kst, bool) state" where
  "call_wake K w mode wake_flags = (case wq_foreign w of
     None \<Rightarrow> default_wake_function K w mode wake_flags
   | Some f \<Rightarrow> wake_func (others K) f (wq_task w) mode wake_flags)"

text \<open>The successor is read before the wake function is called, so that an entry may take itself
  off the queue: the walk is over the queue as it was.\<close>

primrec wake_loop :: "'x kops \<Rightarrow> u32 \<Rightarrow> u32 \<Rightarrow> s32 \<Rightarrow> wait_entry list \<Rightarrow> ('x kst, unit) state" where
  "wake_loop K mode wake_flags nr [] = skip"
| "wake_loop K mode wake_flags nr (w # rest) = do {
     woken \<leftarrow> call_wake K w mode wake_flags;
     if woken \<and> wq_exclusive w
     then (if nr - 1 = 0 then skip else wake_loop K mode wake_flags (nr - 1) rest)
     else wake_loop K mode wake_flags nr rest }"

definition wake_up_common :: "'x kops \<Rightarrow> nat \<Rightarrow> u32 \<Rightarrow> s32 \<Rightarrow> u32 \<Rightarrow> ('x kst, unit) state" where
  "wake_up_common K q mode nr_exclusive wake_flags = do {
     ws \<leftarrow> gets (\<lambda>s. k_wait s q);
     wake_loop K mode wake_flags nr_exclusive ws }"

definition wake_up :: "'x kops \<Rightarrow> nat \<Rightarrow> u32 \<Rightarrow> s32 \<Rightarrow> ('x kst, unit) state" where
  "wake_up K q mode nr_exclusive = do {
     flags \<leftarrow> spin_lock_irqsave (Queue_lock q);
     wake_up_common K q mode nr_exclusive 0;
     spin_unlock_irqrestore (Queue_lock q) flags }"

definition wake_up_locked :: "'x kops \<Rightarrow> nat \<Rightarrow> u32 \<Rightarrow> ('x kst, unit) state" where
  "wake_up_locked K q mode = wake_up_common K q mode 1 0"

definition wake_up_locked_key :: "'x kops \<Rightarrow> nat \<Rightarrow> u32 \<Rightarrow> ('x kst, unit) state" where
  "wake_up_locked_key K q mode = wake_up_common K q mode 1 0"

definition wake_up_sync_key :: "'x kops \<Rightarrow> nat option \<Rightarrow> u32 \<Rightarrow> s32 \<Rightarrow> ('x kst, unit) state" where
  "wake_up_sync_key K queue mode nr_exclusive = (case queue of
     None \<Rightarrow> skip
   | Some q \<Rightarrow> do {
       let wake_flags = (if nr_exclusive = 0 then 0 else WF_SYNC);
       flags \<leftarrow> spin_lock_irqsave (Queue_lock q);
       wake_up_common K q mode nr_exclusive wake_flags;
       spin_unlock_irqrestore (Queue_lock q) flags })"

definition wake_up_sync :: "'x kops \<Rightarrow> nat option \<Rightarrow> u32 \<Rightarrow> s32 \<Rightarrow> ('x kst, unit) state" where
  "wake_up_sync K queue mode nr_exclusive = wake_up_sync_key K queue mode nr_exclusive"

subsection \<open>Completions\<close>

definition upd_done :: "nat \<Rightarrow> (u32 \<Rightarrow> u32) \<Rightarrow> ('x kst, unit) state" where
  "upd_done x f = modify (\<lambda>s. s\<lparr>k_done := (k_done s)(x := f (k_done s x))\<rparr>)"

definition upd_wait :: "nat \<Rightarrow> (wait_entry list \<Rightarrow> wait_entry list) \<Rightarrow> ('x kst, unit) state" where
  "upd_wait q f = modify (\<lambda>s. s\<lparr>k_wait := (k_wait s)(q := f (k_wait s q))\<rparr>)"

definition complete :: "'x kops \<Rightarrow> nat \<Rightarrow> ('x kst, unit) state" where
  "complete K x = do {
     flags \<leftarrow> spin_lock_irqsave (Queue_lock x);
     upd_done x (\<lambda>d. d + 1);
     wake_up_common K x TASK_NORMAL 1 0;
     spin_unlock_irqrestore (Queue_lock x) flags }"

definition complete_all :: "'x kops \<Rightarrow> nat \<Rightarrow> ('x kst, unit) state" where
  "complete_all K x = do {
     flags \<leftarrow> spin_lock_irqsave (Queue_lock x);
     upd_done x (\<lambda>d. d + 0xFFFFFFFF div 2);
     wake_up_common K x TASK_NORMAL 0 0;
     spin_unlock_irqrestore (Queue_lock x) flags }"

text \<open>One turn of the waiting loop, with \<open>timeout\<close>.\<close>

definition wait_turn :: "'x kops \<Rightarrow> nat \<Rightarrow> u32 \<Rightarrow> s32 \<Rightarrow> ('x kst, s32 + s32) state" where
  "wait_turn K x st timeout = do {
     me \<leftarrow> gets k_current;
     pending \<leftarrow> gets (\<lambda>s. signal_pending_state (services K) st me (k_ext s));
     if pending then ret (Inr (- ERESTARTSYS))
     else do {
       upd_task me (\<lambda>t. t\<lparr>t_state := st\<rparr>);
       spin_unlock_irq (Queue_lock x);
       timeout' \<leftarrow> schedule_timeout (others K) timeout;
       spin_lock_irq (Queue_lock x);
       d \<leftarrow> gets (\<lambda>s. k_done s x);
       ret (if d = 0 \<and> timeout' \<noteq> 0 then Inl timeout' else Inr timeout') } }"

text \<open>\<open>x->done--; return timeout ?: 1\<close>.\<close>

definition take_completion :: "nat \<Rightarrow> s32 \<Rightarrow> ('x kst, s32) state" where
  "take_completion x timeout = do {
     upd_done x (\<lambda>d. d - 1);
     ret (if timeout \<noteq> 0 then timeout else 1) }"

definition do_wait_for_common ::
    "nat \<Rightarrow> 'x kops \<Rightarrow> nat \<Rightarrow> s32 \<Rightarrow> u32 \<Rightarrow> ('x kst, s32 option) state" where
  "do_wait_for_common fuel K x timeout st = do {
     d \<leftarrow> gets (\<lambda>s. k_done s x);
     if d \<noteq> 0 then do { t \<leftarrow> take_completion x timeout; ret (Some t) }
     else do {
       me \<leftarrow> gets k_current;
       let wait = \<lparr>wq_task = me, wq_exclusive = True, wq_foreign = None\<rparr>;
       upd_wait x (\<lambda>ws. ws @ [wait]);
       and_then (loop_m fuel (wait_turn K x st) timeout) (\<lambda>timeout'. do {
         upd_wait x (\<lambda>ws. remove1 wait ws);
         d' \<leftarrow> gets (\<lambda>s. k_done s x);
         if d' = 0 then ret (Some timeout')
         else do { t \<leftarrow> take_completion x timeout'; ret (Some t) } }) } }"

definition wait_for_common ::
    "nat \<Rightarrow> 'x kops \<Rightarrow> nat \<Rightarrow> s32 \<Rightarrow> u32 \<Rightarrow> ('x kst, s32 option) state" where
  "wait_for_common fuel K x timeout st = do {
     spin_lock_irq (Queue_lock x);
     and_then (do_wait_for_common fuel K x timeout st) (\<lambda>t. do {
       spin_unlock_irq (Queue_lock x);
       ret (Some t) }) }"

definition wait_for_completion :: "nat \<Rightarrow> 'x kops \<Rightarrow> nat \<Rightarrow> ('x kst, unit option) state" where
  "wait_for_completion fuel K x =
     and_then (wait_for_common fuel K x MAX_SCHEDULE_TIMEOUT TASK_UNINTERRUPTIBLE) (\<lambda>_. ret (Some ()))"

definition wait_for_completion_timeout ::
    "nat \<Rightarrow> 'x kops \<Rightarrow> nat \<Rightarrow> s32 \<Rightarrow> ('x kst, s32 option) state" where
  "wait_for_completion_timeout fuel K x timeout =
     wait_for_common fuel K x timeout TASK_UNINTERRUPTIBLE"

text \<open>The interruptible forms answer \<open>-ERESTARTSYS\<close> or 0.\<close>

definition only_restart :: "s32 option \<Rightarrow> s32 option" where
  "only_restart = map_option (\<lambda>t. if t = - ERESTARTSYS then t else 0)"

definition wait_for_completion_interruptible :: "nat \<Rightarrow> 'x kops \<Rightarrow> nat \<Rightarrow> ('x kst, s32 option) state" where
  "wait_for_completion_interruptible fuel K x = do {
     t \<leftarrow> wait_for_common fuel K x MAX_SCHEDULE_TIMEOUT TASK_INTERRUPTIBLE;
     ret (only_restart t) }"

definition wait_for_completion_interruptible_timeout ::
    "nat \<Rightarrow> 'x kops \<Rightarrow> nat \<Rightarrow> s32 \<Rightarrow> ('x kst, s32 option) state" where
  "wait_for_completion_interruptible_timeout fuel K x timeout =
     wait_for_common fuel K x timeout TASK_INTERRUPTIBLE"

definition wait_for_completion_killable :: "nat \<Rightarrow> 'x kops \<Rightarrow> nat \<Rightarrow> ('x kst, s32 option) state" where
  "wait_for_completion_killable fuel K x = do {
     t \<leftarrow> wait_for_common fuel K x MAX_SCHEDULE_TIMEOUT TASK_KILLABLE;
     ret (only_restart t) }"

definition try_wait_for_completion :: "nat \<Rightarrow> ('x kst, bool) state" where
  "try_wait_for_completion x = do {
     spin_lock_irq (Queue_lock x);
     d \<leftarrow> gets (\<lambda>s. k_done s x);
     when_m (d \<noteq> 0) (upd_done x (\<lambda>d. d - 1));
     spin_unlock_irq (Queue_lock x);
     ret (d \<noteq> 0) }"

definition completion_done :: "nat \<Rightarrow> ('x kst, bool) state" where
  "completion_done x = do {
     spin_lock_irq (Queue_lock x);
     d \<leftarrow> gets (\<lambda>s. k_done s x);
     spin_unlock_irq (Queue_lock x);
     ret (d \<noteq> 0) }"

subsection \<open>The old sleeping functions\<close>

definition sleep_on_common :: "'x kops \<Rightarrow> nat \<Rightarrow> u32 \<Rightarrow> s32 \<Rightarrow> ('x kst, s32) state" where
  "sleep_on_common K q st timeout = do {
     me \<leftarrow> gets k_current;
     let wait = \<lparr>wq_task = me, wq_exclusive = False, wq_foreign = None\<rparr>;
     upd_task me (\<lambda>t. t\<lparr>t_state := st\<rparr>);
     flags \<leftarrow> spin_lock_irqsave (Queue_lock q);
     upd_wait q (\<lambda>ws. wait # ws);
     spin_unlock (Queue_lock q);
     timeout' \<leftarrow> schedule_timeout (others K) timeout;
     spin_lock_irq (Queue_lock q);
     upd_wait q (\<lambda>ws. remove1 wait ws);
     spin_unlock_irqrestore (Queue_lock q) flags;
     ret timeout' }"

definition interruptible_sleep_on :: "'x kops \<Rightarrow> nat \<Rightarrow> ('x kst, unit) state" where
  "interruptible_sleep_on K q = do {
     _ \<leftarrow> sleep_on_common K q TASK_INTERRUPTIBLE MAX_SCHEDULE_TIMEOUT; skip }"

definition interruptible_sleep_on_timeout :: "'x kops \<Rightarrow> nat \<Rightarrow> s32 \<Rightarrow> ('x kst, s32) state" where
  "interruptible_sleep_on_timeout K q timeout = sleep_on_common K q TASK_INTERRUPTIBLE timeout"

definition sleep_on :: "'x kops \<Rightarrow> nat \<Rightarrow> ('x kst, unit) state" where
  "sleep_on K q = do {
     _ \<leftarrow> sleep_on_common K q TASK_UNINTERRUPTIBLE MAX_SCHEDULE_TIMEOUT; skip }"

definition sleep_on_timeout :: "'x kops \<Rightarrow> nat \<Rightarrow> s32 \<Rightarrow> ('x kst, s32) state" where
  "sleep_on_timeout K q timeout = sleep_on_common K q TASK_UNINTERRUPTIBLE timeout"

subsection \<open>Giving up the CPU\<close>

text \<open>\<open>sched_yield\<close> ends with a call of \<open>schedule\<close>, in which the CPU goes on with the next task.
  The interrupts stay masked on the way there.\<close>

definition sys_sched_yield :: "nat \<Rightarrow> nat \<Rightarrow> 'x kops \<Rightarrow> ('x kst, int option) state" where
  "sys_sched_yield n fuel K = do {
     rq \<leftarrow> this_rq_lock;
     me \<leftarrow> gets k_current;
     cls \<leftarrow> task_get me t_sched_class;
     op_yield_task (classes K) cls rq;
     spin_unlock (Rq_lock rq);
     log_event Preempt_enable;
     and_then (schedule n fuel K) (\<lambda>_. ret (Some 0)) }"

definition yield_cpu :: "nat \<Rightarrow> nat \<Rightarrow> 'x kops \<Rightarrow> ('x kst, unit option) state" where
  "yield_cpu n fuel K = do {
     me \<leftarrow> gets k_current;
     upd_task me (\<lambda>t. t\<lparr>t_state := TASK_RUNNING\<rparr>);
     and_then (sys_sched_yield n fuel K) (\<lambda>_. ret (Some ())) }"

text \<open>The functions below go on after \<open>schedule\<close> and are seen from the calling task.\<close>

definition should_resched :: "('x kst, bool) state" where
  "should_resched = do {
     need \<leftarrow> need_resched;
     count \<leftarrow> preempt_count;
     ret (need \<and> count AND PREEMPT_ACTIVE = 0) }"

definition add_preempt_count :: "u32 \<Rightarrow> ('x kst, unit) state" where
  "add_preempt_count v = do {
     me \<leftarrow> gets k_current;
     upd_task me (\<lambda>t. t\<lparr>t_preempt_count := t_preempt_count t + v\<rparr>) }"

definition do_cond_resched :: "'x kops \<Rightarrow> ('x kst, unit) state" where
  "do_cond_resched K = do {
     add_preempt_count PREEMPT_ACTIVE;
     call_schedule (others K);
     add_preempt_count (- PREEMPT_ACTIVE) }"

definition cond_resched :: "'x kops \<Rightarrow> ('x kst, bool) state" where
  "cond_resched K = do {
     need \<leftarrow> should_resched;
     if need then do { do_cond_resched K; ret True } else ret False }"

text \<open>\<open>spin_needbreak\<close> is 0 without kernel preemption.\<close>

definition cond_resched_lock :: "'x kops \<Rightarrow> lock_id \<Rightarrow> ('x kst, bool) state" where
  "cond_resched_lock K lock = do {
     resched \<leftarrow> should_resched;
     if resched then do {
       spin_unlock lock;
       do_cond_resched K;
       spin_lock lock;
       ret True }
     else ret False }"

definition io_schedule :: "'x kops \<Rightarrow> ('x kst, unit) state" where
  "io_schedule K = do {
     rq \<leftarrow> gets k_this_cpu;
     me \<leftarrow> gets k_current;
     upd_rq rq (\<lambda>r. r\<lparr>rq_nr_iowait := rq_nr_iowait r + 1\<rparr>);
     upd_task me (\<lambda>t. t\<lparr>t_in_iowait := True\<rparr>);
     call_schedule (others K);
     upd_task me (\<lambda>t. t\<lparr>t_in_iowait := False\<rparr>);
     upd_rq rq (\<lambda>r. r\<lparr>rq_nr_iowait := rq_nr_iowait r - 1\<rparr>) }"

definition io_schedule_timeout :: "'x kops \<Rightarrow> s32 \<Rightarrow> ('x kst, s32) state" where
  "io_schedule_timeout K timeout = do {
     rq \<leftarrow> gets k_this_cpu;
     me \<leftarrow> gets k_current;
     upd_rq rq (\<lambda>r. r\<lparr>rq_nr_iowait := rq_nr_iowait r + 1\<rparr>);
     upd_task me (\<lambda>t. t\<lparr>t_in_iowait := True\<rparr>);
     left \<leftarrow> schedule_timeout (others K) timeout;
     upd_task me (\<lambda>t. t\<lparr>t_in_iowait := False\<rparr>);
     upd_rq rq (\<lambda>r. r\<lparr>rq_nr_iowait := rq_nr_iowait r - 1\<rparr>);
     ret left }"

subsection \<open>Who is woken\<close>

text \<open>The tasks of a list of waiters that a wake-up reaches, given whom a wake-up would wake: it goes on
  until it has woken \<open>nr\<close> exclusive ones (0: to the end).\<close>

fun reached :: "(task \<Rightarrow> bool) \<Rightarrow> s32 \<Rightarrow> wait_entry list \<Rightarrow> task list" where
  "reached wakes nr [] = []"
| "reached wakes nr (w # ws) = wq_task w #
     (if wakes (wq_task w) \<and> wq_exclusive w
      then (if nr - 1 = 0 then [] else reached wakes (nr - 1) ws)
      else reached wakes nr ws)"

text \<open>A task a wake-up with this mode would wake.\<close>

definition wakeable :: "u32 \<Rightarrow> 'x kst \<Rightarrow> task \<Rightarrow> bool" where
  "wakeable mode s p \<longleftrightarrow> t_state (k_task s p) AND mode \<noteq> 0 \<and> \<not> se_on_rq (t_se (k_task s p))"

lemma reached_cong:
  "(\<And>w. w \<in> set ws \<Longrightarrow> f (wq_task w) = g (wq_task w)) \<Longrightarrow> reached f nr ws = reached g nr ws"
  by (induction f nr ws rule: reached.induct) auto

lemma reached_sub: "set (reached f nr ws) \<subseteq> wq_task ` set ws"
  by (induction f nr ws rule: reached.induct) auto

definition wake_result :: "u32 \<Rightarrow> u32 \<times> bool \<times> sched_class \<Rightarrow> u32 \<times> bool \<times> sched_class" where
  "wake_result mode = (\<lambda>(st, q, c). if st AND mode = 0 then (st, q, c) else (TASK_RUNNING, True, c))"

lemma call_default:
  assumes "wake_ops_keep wake_obs K" and "wq_foreign w = None"
  shows "wake_obs (exec (call_wake K w mode f) s) =
      (wake_obs s)(wq_task w := wake_result mode (wake_obs s (wq_task w)))"
    and "result (call_wake K w mode f) s \<longleftrightarrow> wakeable mode s (wq_task w)"
  using try_to_wake_up_obs [OF assms(1), of "wq_task w" mode f s]
  by (auto simp: call_wake_def default_wake_function_def assms(2) wake_result_def wakeable_def
      wake_fields fun_eq_iff split: prod.split)

lemma wakeable_obs:
  "wakeable mode s p \<longleftrightarrow> fst (wake_obs s p) AND mode \<noteq> 0 \<and> \<not> fst (snd (wake_obs s p))"
  by (simp add: wakeable_def wake_fields)

lemma wake_loop_obs:
  assumes ops: "wake_ops_keep wake_obs K"
    and "distinct (map wq_task ws)" and "\<And>w. w \<in> set ws \<Longrightarrow> wq_foreign w = None"
  shows "wake_obs (exec (wake_loop K mode f nr ws) s) p =
    (if p \<in> set (reached (wakeable mode s) nr ws) then wake_result mode (wake_obs s p) else wake_obs s p)"
  using assms(2,3)
proof (induction ws arbitrary: nr s p)
  case (Cons w rest)
  let ?t = "exec (call_wake K w mode f) s"
  note step = call_default [OF ops, of w mode f s]
  have new: "wq_task w \<notin> wq_task ` set rest" using Cons.prems(1) by simp
  have w: "wq_foreign w = None" "\<And>v. v \<in> set rest \<Longrightarrow> wq_task v \<noteq> wq_task w"
    using Cons.prems(2) new by (simp, metis imageI)
  have r: "reached (wakeable mode ?t) k rest = reached (wakeable mode s) k rest" for k
    by (rule reached_cong) (simp add: wakeable_obs step(1) [OF w(1)] w(2))
  have no: "wq_task w \<notin> set (reached (wakeable mode s) k rest)" for k
    using reached_sub [of "wakeable mode s" k rest] Cons.prems(1) by auto
  have IH: "wake_obs (exec (wake_loop K mode f k rest) ?t) v =
      (if v \<in> set (reached (wakeable mode s) k rest) then wake_result mode (wake_obs ?t v)
       else wake_obs ?t v)" for k v
    using Cons.IH [of k ?t v] Cons.prems by (simp add: r)
  show ?case
    using no by (auto simp: step [OF w(1)] IH)
qed simp

text \<open>C15. Who a wake-up reaches. For a queue of tasks that wait with the standard wake function, the
  walk goes along the queue in order and ends with the waiter at which the given number of
  exclusive waiters has been woken, or at the end of the queue if the number is 0 or there are not
  so many. Every task it reached and whose state is in the mode runs afterwards and is
  queued; no other task has changed its state. (The classes do to state, flag and class of the tasks
  no more than set the flag of the one they queue.)\<close>

theorem wake_up_reaches:
  fixes K :: "'x kops" and s :: "'x kst" and mode :: u32 and nr :: s32
  assumes "wake_ops_keep wake_obs K"
    and "distinct (map wq_task (k_wait s q))" and "\<forall>w \<in> set (k_wait s q). wq_foreign w = None"
  defines "s' \<equiv> exec (wake_up K q mode nr) s" and "t \<equiv> \<lambda>s p. k_task s p"
  shows "if p \<in> set (reached (wakeable mode s) nr (k_wait s q)) \<and> t_state (t s p) AND mode \<noteq> 0
    then t_state (t s' p) = TASK_RUNNING \<and> se_on_rq (t_se (t s' p))
    else t_state (t s' p) = t_state (t s p) \<and> se_on_rq (t_se (t s' p)) = se_on_rq (t_se (t s p))"
proof -
  let ?s = "s\<lparr>k_irqs_off := True, k_log := k_log s @ [Irq_off, Spin_lock (Queue_lock q)]\<rparr>"
  have o: "wake_obs (u\<lparr>k_irqs_off := b, k_log := l\<rparr>) = wake_obs u" for u :: "'x kst" and b l
    by (simp add: wake_obs_def fun_eq_iff Let_def)
  have "wake_obs s' p = wake_obs (exec (wake_loop K mode 0 nr (k_wait s q)) ?s) p"
    by (simp add: s'_def wake_up_def wake_up_common_def o)
  also have "\<dots> = (if p \<in> set (reached (wakeable mode ?s) nr (k_wait s q))
      then wake_result mode (wake_obs s p) else wake_obs s p)"
    using wake_loop_obs [OF assms(1,2), of mode 0 nr ?s p] assms(3) by (simp add: o)
  also have "wakeable mode ?s = wakeable mode s" by (simp add: wakeable_def fun_eq_iff)
  finally show ?thesis
    by (simp add: t_def wake_fields wake_result_def split: prod.splits if_splits)
qed

subsection \<open>Completions are counted\<close>

text \<open>A run of the calls that do not sleep on one completion, with the answers of those that answer
  something.\<close>

datatype completion_op = Complete | Complete_all | Try_wait | Ask_done

fun run_completion :: "'x kops \<Rightarrow> nat \<Rightarrow> completion_op list \<Rightarrow> ('x kst, bool list) state" where
  "run_completion K x [] = ret []"
| "run_completion K x (Complete # ops) = do { complete K x; run_completion K x ops }"
| "run_completion K x (Complete_all # ops) = do { complete_all K x; run_completion K x ops }"
| "run_completion K x (Try_wait # ops) = do {
     ok \<leftarrow> try_wait_for_completion x;
     answers \<leftarrow> run_completion K x ops;
     ret (ok # answers) }"
| "run_completion K x (Ask_done # ops) = do {
     ok \<leftarrow> completion_done x;
     answers \<leftarrow> run_completion K x ops;
     ret (ok # answers) }"

text \<open>The specification: a counting semaphore. \<open>complete\<close> adds a token, \<open>complete_all\<close> half the range of the
  counter; a wait takes a token and succeeds if there is one, and takes none and fails otherwise.\<close>

fun tokens_of :: "completion_op \<Rightarrow> nat" where
  "tokens_of Complete = 1"
| "tokens_of Complete_all = 2 ^ 31 - 1"
| "tokens_of Try_wait = 0"
| "tokens_of Ask_done = 0"

fun semaphore :: "nat \<Rightarrow> completion_op list \<Rightarrow> bool list \<times> nat" where
  "semaphore n [] = ([], n)"
| "semaphore n (Try_wait # ops) =
     (case n of 0 \<Rightarrow> apfst (Cons False) (semaphore 0 ops) | Suc m \<Rightarrow> apfst (Cons True) (semaphore m ops))"
| "semaphore n (Ask_done # ops) = apfst (Cons (0 < n)) (semaphore n ops)"
| "semaphore n (op # ops) = semaphore (n + tokens_of op) ops"

text \<open>An observation that sees nothing of the core's bookkeeping: of tasks, the log, the interrupt
  flag and the outside, and of a runqueue only the migration queue and the request to balance.\<close>

definition wake_blind :: "('x kst \<Rightarrow> 'v) \<Rightarrow> bool" where
  "wake_blind obs \<longleftrightarrow> (\<forall>s b l. obs (s\<lparr>k_irqs_off := b, k_log := l\<rparr>) = obs s) \<and>
     (\<forall>s t. obs (s\<lparr>k_task := t\<rparr>) = obs s) \<and> (\<forall>s x. obs (s\<lparr>k_ext := x\<rparr>) = obs s) \<and>
     (\<forall>s c r. rq_migration_queue r = rq_migration_queue (k_rq s c) \<longrightarrow>
        rq_active_balance r = rq_active_balance (k_rq s c) \<longrightarrow>
        obs (s\<lparr>k_rq := (k_rq s)(c := r)\<rparr>) = obs s)"

lemma wake_blindD:
  assumes "wake_blind obs"
  shows "obs (s\<lparr>k_irqs_off := b, k_log := l\<rparr>) = obs s" "obs (s\<lparr>k_log := l\<rparr>) = obs s"
    "obs (s\<lparr>k_irqs_off := b\<rparr>) = obs s" "obs (s\<lparr>k_task := t\<rparr>) = obs s" "obs (s\<lparr>k_ext := x\<rparr>) = obs s"
    "rq_migration_queue r = rq_migration_queue (k_rq s c) \<Longrightarrow> rq_active_balance r = rq_active_balance (k_rq s c) \<Longrightarrow>
     obs (s\<lparr>k_rq := (k_rq s)(c := r)\<rparr>) = obs s"
proof -
  note a = assms [unfolded wake_blind_def]
  show i: "obs (s\<lparr>k_irqs_off := b, k_log := l\<rparr>) = obs s" for s b l using a by blast
  show "obs (s\<lparr>k_log := l\<rparr>) = obs s" using i [where s = s and b = "k_irqs_off s" and l = l] by simp
  show "obs (s\<lparr>k_irqs_off := b\<rparr>) = obs s" using i [where s = s and b = b and l = "k_log s"] by simp
  show "obs (s\<lparr>k_task := t\<rparr>) = obs s" "obs (s\<lparr>k_ext := x\<rparr>) = obs s"
    "rq_migration_queue r = rq_migration_queue (k_rq s c) \<Longrightarrow> rq_active_balance r = rq_active_balance (k_rq s c) \<Longrightarrow>
     obs (s\<lparr>k_rq := (k_rq s)(c := r)\<rparr>) = obs s"
    using a by blast+
qed

lemma blind_keeps:
  assumes b: "wake_blind obs"
  shows "keeps obs (upd_task p f)" "keeps obs (upd_se p g)" "keeps obs (log_event e)"
    "keeps obs (spin_lock a)" "keeps obs (spin_unlock a)" "keeps obs (spin_lock_irqsave a)"
    "keeps obs (spin_unlock_irqrestore a fl)" "keeps obs (spin_lock_irq a)" "keeps obs (spin_unlock_irq a)"
    "keeps obs local_irq_enable" "keeps obs local_irq_disable"
    "keeps obs (task_rq_lock p)" "keeps obs (task_rq_unlock c fl)" "keeps obs (service q)" "keeps obs (service_unit m)"
    "(\<And>r. rq_migration_queue (h r) = rq_migration_queue r) \<Longrightarrow>
     (\<And>r. rq_active_balance (h r) = rq_active_balance r) \<Longrightarrow> keeps obs (upd_rq c h)"
  by (simp_all add: keeps_def wake_blindD [OF b])

lemma blind_moves:
  assumes b: "wake_blind obs"
  shows "keeps obs (update_rq_clock K c)" "keeps obs (set_task_cpu p c)" "keeps obs (double_rq_lock K c d)"
    "keeps obs (double_rq_unlock c d)"
  unfolding update_rq_clock_def set_task_cpu_def set_task_cpu_raw_def double_rq_lock_def double_rq_unlock_def
  by ((intro keeps_intros blind_keeps [OF b]; simp)+)

lemma blind_queue_ops:
  assumes b: "wake_blind obs" and ops: "queue_ops_keep obs K"
  shows "keeps obs (check_preempt_curr K c p f)" "keeps obs (activate_task K c p w)" "keeps obs (deactivate_task K c p w)"
proof -
  have "obs (set_on_rq p v s) = obs s" for p v s
    by (simp add: set_on_rq_def wake_blindD [OF b])
  note o = queue_ops_keep_blind [OF ops this]
  show "keeps obs (check_preempt_curr K c p f)" "keeps obs (activate_task K c p w)" "keeps obs (deactivate_task K c p w)"
    unfolding check_preempt_curr_def activate_task_def deactivate_task_def enqueue_task_def dequeue_task_def
      inc_nr_running_def dec_nr_running_def Let_def
    by ((intro keeps_intros o blind_keeps [OF b]; simp)+)
qed

lemma try_to_wake_up_keeps:
  assumes b: "wake_blind obs" and ops: "wake_ops_keep obs K"
  shows "keeps obs (try_to_wake_up K p mode f)"
proof -
  note blind = blind_keeps [OF b] blind_moves [OF b] blind_queue_ops [OF b wake_ops_keepD(1) [OF ops]]
  have w: "keeps obs (case op_task_wake_up (classes K) cl of Some m \<Rightarrow> m c q | None \<Rightarrow> skip)" for cl c q
    by (auto simp: keeps_def wake_ops_keepD(2) [OF ops] split: option.split)
  have "keeps obs (ttwu_out_running K c fl q g h)" for c fl q g h
    unfolding ttwu_out_running_def ttwu_out_def by (intro keeps_intros blind w)
  moreover from this have "keeps obs (ttwu_out_activate K c fl q g)" for c fl q g
    unfolding ttwu_out_activate_def Let_def by (intro keeps_intros blind)
  moreover have "keeps obs (op_select_task_rq (classes K) cl q m g)" for cl q m g
    by (simp add: keeps_def queue_ops_keepD [OF wake_ops_keepD(1) [OF ops]])
  moreover from calculation have "keeps obs (ttwu_select K c fl d q g)" for c fl d q g
    unfolding ttwu_select_def Let_def by ((intro keeps_intros blind; simp)+)
  ultimately show ?thesis
    unfolding try_to_wake_up_def ttwu_out_def Let_def sched_feat_def task_running_def task_current_def
    by ((intro keeps_intros blind; simp)+)
qed

definition wake_keeps :: "('x kst \<Rightarrow> 'v) \<Rightarrow> 'x kops \<Rightarrow> bool" where
  "wake_keeps obs K \<longleftrightarrow> (\<forall>w mode f. keeps obs (call_wake K w mode f))"

lemma wake_keeps_blind:
  assumes "wake_blind obs" and "wake_ops_keep obs K" and "\<And>f p m g. keeps obs (wake_func (others K) f p m g)"
  shows "wake_keeps obs K"
  using try_to_wake_up_keeps [OF assms(1,2)] assms(3)
  by (simp add: wake_keeps_def call_wake_def default_wake_function_def split: option.split)

lemma done_wake_common:
  assumes "wake_keeps (\<lambda>s. k_done s x) K"
  shows "k_done (exec (wake_up_common K q mode nr f) s) x = k_done s x"
proof -
  have "k_done (exec (wake_loop K mode f nr ws) s) x = k_done s x" for nr ws s
    using assms by (induction ws arbitrary: nr s) (simp_all add: wake_keeps_def keeps_def)
  then show ?thesis by (simp add: wake_up_common_def)
qed

lemma done_complete:
  assumes "wake_keeps (\<lambda>s. k_done s x) K"
  shows "k_done (exec (complete K x) s) x = k_done s x + 1"
    and "k_done (exec (complete_all K x) s) x = k_done s x + 0x7FFFFFFF"
  by (simp_all add: complete_def complete_all_def upd_done_def done_wake_common [OF assms])

text \<open>C14. A completion is a counting semaphore. For every sequence of \<open>complete\<close>, \<open>complete_all\<close>,
  \<open>try_wait_for_completion\<close> and \<open>completion_done\<close> whose tokens fit into 32 bits with those there were
  at the start, each call answers what the semaphore answers (a wait gets through if and only if a token
  is left, and takes it), and the count that is left is the semaphore's. (No wake-up changes the count.)\<close>

theorem completions_are_counted:
  assumes "wake_keeps (\<lambda>s. k_done s x) K" and "unat (k_done s x) + sum_list (map tokens_of ops) < 2 ^ 32"
  shows "(result (run_completion K x ops) s, unat (k_done (exec (run_completion K x ops) s) x)) =
    semaphore (unat (k_done s x)) ops"
  using assms(2)
proof (induction ops arbitrary: s)
  case (Cons c ops)
  show ?case
  proof (cases c)
    case Complete
    have "unat (k_done s x + 1) = unat (k_done s x) + 1"
      using unat_add_small [of "k_done s x" 1] Cons.prems by (simp add: Complete)
    then show ?thesis
      using Cons.IH [of "exec (complete K x) s"] Cons.prems
      by (simp add: Complete done_complete [OF assms(1)])
  next
    case Complete_all
    have "unat (k_done s x + 0x7FFFFFFF) = unat (k_done s x) + (2 ^ 31 - 1)"
      using unat_add_small [of "k_done s x" "0x7FFFFFFF"] Cons.prems by (simp add: Complete_all)
    then show ?thesis
      using Cons.IH [of "exec (complete_all K x) s"] Cons.prems
      by (simp add: Complete_all done_complete [OF assms(1)])
  next
    case Try_wait
    let ?t = "exec (try_wait_for_completion x) s"
    have d: "k_done ?t x = (if k_done s x = 0 then 0 else k_done s x - 1)"
      "result (try_wait_for_completion x) s \<longleftrightarrow> k_done s x \<noteq> 0"
      by (simp_all add: try_wait_for_completion_def upd_done_def)
    show ?thesis
    proof (cases "k_done s x = 0")
      case True
      then have "semaphore 0 ops = (result (run_completion K x ops) ?t, unat (k_done (exec (run_completion K x ops) ?t) x))"
        using Cons.IH [of ?t] Cons.prems by (simp add: Try_wait d)
      with True show ?thesis by (simp add: Try_wait d)
    next
      case False
      then have u: "unat (k_done s x) = Suc (unat (k_done s x - 1))"
        by (simp add: unat_minus_one unat_gt_0)
      then have "semaphore (unat (k_done s x - 1)) ops =
          (result (run_completion K x ops) ?t, unat (k_done (exec (run_completion K x ops) ?t) x))"
        using Cons.IH [of ?t] Cons.prems False by (simp add: Try_wait d)
      with False u show ?thesis by (simp add: Try_wait d)
    qed
  next
    case Ask_done
    let ?t = "exec (completion_done x) s"
    have d: "k_done ?t x = k_done s x" "result (completion_done x) s \<longleftrightarrow> 0 < unat (k_done s x)"
      by (simp_all add: completion_done_def unat_gt_0)
    have "semaphore (unat (k_done s x)) ops =
        (result (run_completion K x ops) ?t, unat (k_done (exec (run_completion K x ops) ?t) x))"
      using Cons.IH [of ?t] Cons.prems by (simp add: Ask_done d)
    then show ?thesis by (simp add: Ask_done d)
  qed
qed simp

text \<open>The count is a 32-bit word that nobody guards: \<open>complete_all\<close> adds half its range, so that
  two calls of it and two of \<open>complete\<close> leave a count of 0, on which the next waiter sleeps.\<close>

theorem completion_count_wraps:
  assumes "wake_keeps (\<lambda>s. k_done s x) K" and "k_done s x = 0"
  shows "k_done (exec (do { complete_all K x; complete_all K x; complete K x; complete K x }) s) x = 0"
  using assms(2) by (simp add: done_complete [OF assms(1)])

text \<open>The steps of a waiter: it queues itself, it sleeps (off the lock, in an uninterruptible state),
  and it leaves with one token.\<close>

definition queued_waiter :: "nat \<Rightarrow> 'x kst \<Rightarrow> 'x kst" where
  "queued_waiter x s = exec (do {
     spin_lock_irq (Queue_lock x);
     upd_wait x (\<lambda>ws. ws @ [\<lparr>wq_task = k_current s, wq_exclusive = True, wq_foreign = None\<rparr>]) }) s"

definition one_sleep :: "'x kops \<Rightarrow> nat \<Rightarrow> 'x kst \<Rightarrow> 'x kst" where
  "one_sleep K x s = exec (do {
     upd_task (k_current s) (\<lambda>t. t\<lparr>t_state := TASK_UNINTERRUPTIBLE\<rparr>);
     spin_unlock_irq (Queue_lock x);
     _ \<leftarrow> schedule_timeout (others K) MAX_SCHEDULE_TIMEOUT;
     spin_lock_irq (Queue_lock x) }) s"

definition leave_with_token :: "nat \<Rightarrow> task \<Rightarrow> 'x kst \<Rightarrow> 'x kst" where
  "leave_with_token x me = exec (do {
     upd_wait x (remove1 \<lparr>wq_task = me, wq_exclusive = True, wq_foreign = None\<rparr>);
     upd_done x (\<lambda>d. d - 1);
     spin_unlock_irq (Queue_lock x) })"

lemma MAX_SCHEDULE_TIMEOUT_nonzero: "MAX_SCHEDULE_TIMEOUT \<noteq> 0"
  by (simp add: MAX_SCHEDULE_TIMEOUT_def)

text \<open>A sleep without a limit does not time out, and an uninterruptible one is not ended by a signal.\<close>

definition sleeps_soundly :: "'x kops \<Rightarrow> bool" where
  "sleeps_soundly K \<longleftrightarrow>
     (\<forall>s. result (schedule_timeout (others K) MAX_SCHEDULE_TIMEOUT) s = MAX_SCHEDULE_TIMEOUT) \<and>
     (\<forall>p y. \<not> signal_pending_state (services K) TASK_UNINTERRUPTIBLE p y)"

lemma wait_turn_sleeps:
  assumes "sleeps_soundly K"
  shows "exec (wait_turn K x TASK_UNINTERRUPTIBLE MAX_SCHEDULE_TIMEOUT) s = one_sleep K x s"
    and "result (wait_turn K x TASK_UNINTERRUPTIBLE MAX_SCHEDULE_TIMEOUT) s =
      (if k_done (one_sleep K x s) x = 0 then Inl MAX_SCHEDULE_TIMEOUT else Inr MAX_SCHEDULE_TIMEOUT)"
  using assms by (simp_all add: wait_turn_def one_sleep_def sleeps_soundly_def MAX_SCHEDULE_TIMEOUT_nonzero)

lemma wait_loop_stops:
  fixes K :: "'x kops"
  assumes "sleeps_soundly K"
  shows "k_done ((one_sleep K x ^^ Suc k) s) x \<noteq> 0 \<Longrightarrow> \<forall>i < k. k_done ((one_sleep K x ^^ Suc i) s) x = 0 \<Longrightarrow>
    result (loop_m n (wait_turn K x TASK_UNINTERRUPTIBLE) MAX_SCHEDULE_TIMEOUT) s =
      (if k < n then Some MAX_SCHEDULE_TIMEOUT else None) \<and>
    (k < n \<longrightarrow> exec (loop_m n (wait_turn K x TASK_UNINTERRUPTIBLE) MAX_SCHEDULE_TIMEOUT) s =
      (one_sleep K x ^^ Suc k) s)"
proof (induction n arbitrary: s k)
  case (Suc n)
  note turn = wait_turn_sleeps [OF assms, of x s]
  show ?case
  proof (cases k)
    case 0
    then show ?thesis using Suc.prems by (simp add: turn)
  next
    case (Suc j)
    have "k_done ((one_sleep K x ^^ Suc j) (one_sleep K x s)) x \<noteq> 0"
      "\<forall>i < j. k_done ((one_sleep K x ^^ Suc i) (one_sleep K x s)) x = 0"
      using Suc.prems unfolding Suc by (simp_all add: funpow_swap1 All_less_Suc2)
    from Suc.IH [OF this] Suc.prems(2) show ?thesis
      unfolding Suc by (simp add: turn funpow_swap1 All_less_Suc2)
  qed
qed simp

lemma wait_loop_sleeps_on:
  assumes "sleeps_soundly K"
  shows "\<forall>k. k_done ((one_sleep K x ^^ Suc k) s) x = 0 \<Longrightarrow>
    result (loop_m n (wait_turn K x TASK_UNINTERRUPTIBLE) MAX_SCHEDULE_TIMEOUT) s = None"
proof (induction n arbitrary: s)
  case (Suc n)
  have "k_done (one_sleep K x s) x = 0" using Suc.prems [rule_format, of 0] by simp
  moreover have "\<forall>k. k_done ((one_sleep K x ^^ Suc k) (one_sleep K x s)) x = 0"
    using Suc.prems [rule_format, of "Suc k" for k] by (simp add: funpow_swap1)
  ultimately show ?case using Suc.IH by (simp add: wait_turn_sleeps [OF assms])
qed simp

text \<open>C13. When \<open>wait_for_completion\<close> returns, and how. If the count is positive it takes one token under
  the lock, without queueing itself and without sleeping. If it is 0 it queues itself and sleeps; if the
  k-th sleep is the first at whose end the count is positive, it has slept exactly k times, takes one
  token and is off the queue; if there is none, it never returns, however often it is woken. (A sleep
  without a limit does not time out, and an uninterruptible one is not ended by a signal.)\<close>

theorem wait_returns_iff_completed:
  fixes K :: "'x kops" and s :: "'x kst" and n :: nat and x :: nat
  assumes "sleeps_soundly K"
  defines "answer \<equiv> result (wait_for_completion n K x) s" and "s' \<equiv> exec (wait_for_completion n K x) s"
    and "slept \<equiv> \<lambda>k. (one_sleep K x ^^ k) (queued_waiter x s)"
  shows "if k_done s x \<noteq> 0
    then answer = Some () \<and> s' = exec (do {
      spin_lock_irq (Queue_lock x); upd_done x (\<lambda>d. d - 1); spin_unlock_irq (Queue_lock x) }) s
    else (\<forall>k > 0. k_done (slept k) x \<noteq> 0 \<and> (\<forall>i. 0 < i \<and> i < k \<longrightarrow> k_done (slept i) x = 0) \<longrightarrow>
        answer = (if k \<le> n then Some () else None) \<and>
        (k \<le> n \<longrightarrow> s' = leave_with_token x (k_current s) (slept k))) \<and>
      ((\<forall>k > 0. k_done (slept k) x = 0) \<longrightarrow> answer = None)"
proof (cases "k_done s x = 0")
  case True
  define loop where "loop = loop_m n (wait_turn K x TASK_UNINTERRUPTIBLE) MAX_SCHEDULE_TIMEOUT"
  define leave where "leave = (do {
     upd_wait x (remove1 \<lparr>wq_task = k_current s, wq_exclusive = True, wq_foreign = None\<rparr>);
     d' \<leftarrow> gets (\<lambda>s. k_done s x);
     if d' = 0 then ret (Some MAX_SCHEDULE_TIMEOUT)
     else do { t \<leftarrow> take_completion x MAX_SCHEDULE_TIMEOUT; ret (Some t) } } :: ('x kst, s32 option) state)"
  let ?q = "queued_waiter x s"
  have run: "answer = None" if "result loop ?q = None"
    using True that by (simp add: answer_def loop_def wait_for_completion_def wait_for_common_def
        do_wait_for_common_def Let_def queued_waiter_def upd_wait_def)
  have out: "answer = Some () \<and> s' = leave_with_token x (k_current s) u"
    if "result loop ?q = Some MAX_SCHEDULE_TIMEOUT" "exec loop ?q = u" "k_done u x \<noteq> 0" for u
    using True that by (simp add: answer_def s'_def loop_def wait_for_completion_def wait_for_common_def
        do_wait_for_common_def Let_def queued_waiter_def upd_wait_def leave_with_token_def take_completion_def)
  have "answer = (if k \<le> n then Some () else None) \<and>
      (k \<le> n \<longrightarrow> s' = leave_with_token x (k_current s) (slept k))"
    if k: "0 < k" "k_done (slept k) x \<noteq> 0" "\<forall>i. 0 < i \<and> i < k \<longrightarrow> k_done (slept i) x = 0" for k
  proof -
    from k(1) obtain j where j: "k = Suc j" by (cases k) auto
    have "k_done ((one_sleep K x ^^ Suc j) ?q) x \<noteq> 0" "\<forall>i < j. k_done ((one_sleep K x ^^ Suc i) ?q) x = 0"
      using k(2,3) unfolding j slept_def by blast+
    from wait_loop_stops [OF assms(1) this, of n]
    have l: "result loop ?q = (if k \<le> n then Some MAX_SCHEDULE_TIMEOUT else None)"
      "k \<le> n \<longrightarrow> exec loop ?q = slept k"
      unfolding loop_def slept_def j Suc_le_eq by blast+
    show ?thesis using l run out [OF _ _ k(2)] by (cases "k \<le> n") simp_all
  qed
  moreover have "answer = None" if "\<forall>k > 0. k_done (slept k) x = 0"
    using wait_loop_sleeps_on [OF assms(1), of x ?q n] that unfolding slept_def loop_def [symmetric]
    by (intro run) blast
  ultimately show ?thesis using True by simp
next
  case False
  then show ?thesis
    by (simp add: answer_def s'_def wait_for_completion_def wait_for_common_def do_wait_for_common_def
        take_completion_def)
qed


subsection \<open>Witnesses\<close>

definition demo_waiters :: "unit kst" where
  "demo_waiters = (blank_kst ())\<lparr>k_task := (\<lambda>p. blank_task\<lparr>t_pid := of_nat p,
     t_state := (if 2 \<le> p then TASK_INTERRUPTIBLE else 0), t_se := (t_se blank_task)\<lparr>se_on_rq := p < 2\<rparr>\<rparr>),
     k_wait := (\<lambda>_. [\<lparr>wq_task = 2, wq_exclusive = False, wq_foreign = None\<rparr>,
       \<lparr>wq_task = 3, wq_exclusive = True, wq_foreign = None\<rparr>,
       \<lparr>wq_task = 4, wq_exclusive = True, wq_foreign = None\<rparr>])\<rparr>"

theorem wake_up_reaches_witness:
  "let s' = exec (wake_up demo_kops 0 TASK_NORMAL 1) demo_waiters in
   t_state (k_task s' 2) = TASK_RUNNING \<and> t_state (k_task s' 3) = TASK_RUNNING \<and>
   t_state (k_task s' 4) = TASK_INTERRUPTIBLE"
proof -
  have "distinct (map wq_task (k_wait demo_waiters 0))" "\<forall>w \<in> set (k_wait demo_waiters 0). wq_foreign w = None"
    by (simp_all add: demo_waiters_def)
  note r = wake_up_reaches [OF demo_wake_ops this, of _ TASK_NORMAL 1]
  have reach: "set (reached (wakeable TASK_NORMAL demo_waiters) 1 (k_wait demo_waiters 0)) = {2, 3}"
    by (simp add: demo_waiters_def wakeable_def task_state_defs TASK_NORMAL_def)
  have st: "t_state (k_task demo_waiters p) = (if 2 \<le> p then TASK_INTERRUPTIBLE else 0)" for p
    by (simp add: demo_waiters_def)
  have "TASK_INTERRUPTIBLE AND TASK_NORMAL \<noteq> 0"
    by (simp add: task_state_defs TASK_NORMAL_def)
  then show ?thesis
    using r [of 2] r [of 3] r [of 4] by (simp add: Let_def reach st)
qed

lemma demo_wake_keeps: "wake_blind obs \<Longrightarrow> wake_keeps obs demo_kops"
  by (rule wake_keeps_blind [OF _ demo_wake_ops]) (simp_all add: demo_kops_def keeps_def)

lemma done_blind [simp]: "wake_blind (\<lambda>s. k_done s x)"
  by (simp add: wake_blind_def)

theorem completions_are_counted_witness:
  "result (run_completion demo_kops 7 [Try_wait, Complete, Ask_done, Complete, Try_wait, Try_wait, Try_wait])
     (blank_kst ()) = [False, True, True, True, False]"
  using completions_are_counted [OF demo_wake_keeps [OF done_blind], of "blank_kst ()" 7
    "[Try_wait, Complete, Ask_done, Complete, Try_wait, Try_wait, Try_wait]"]
  by (simp add: blank_kst_def)

theorem completion_count_wraps_witness:
  "k_done (exec (do { complete_all demo_kops 7; complete_all demo_kops 7; complete demo_kops 7;
     complete demo_kops 7 }) (blank_kst ())) 7 = 0"
  by (rule completion_count_wraps [OF demo_wake_keeps [OF done_blind]]) (simp add: blank_kst_def)

text \<open>The completion 7 is completed in the third sleep; the completion 8 counts the sleeps.\<close>

definition completing :: "unit kops" where
  "completing = demo_kops\<lparr>others := (others demo_kops)\<lparr>schedule_timeout := (\<lambda>t. do {
     upd_done 8 (\<lambda>d. d + 1);
     n \<leftarrow> gets (\<lambda>s. k_done s 8);
     when_m (n = 3) (upd_done 7 (\<lambda>d. d + 1));
     ret t })\<rparr>\<rparr>"

lemma completing_sleeps:
  "k_done (one_sleep completing 7 s) = (k_done s)(8 := k_done s 8 + 1,
     7 := (if k_done s 8 + 1 = 3 then k_done s 7 + 1 else k_done s 7))"
  by (simp add: one_sleep_def completing_def upd_done_def fun_eq_iff)

theorem wait_returns_iff_completed_witness:
  "result (wait_for_completion 3 completing 7) (blank_kst ()) = Some () \<and>
   result (wait_for_completion 2 completing 7) (blank_kst ()) = None"
proof -
  let ?s = "blank_kst ()" and ?sl = "\<lambda>k. (one_sleep completing 7 ^^ k) (queued_waiter 7 (blank_kst ()))"
  have so: "sleeps_soundly completing"
    by (simp add: sleeps_soundly_def completing_def demo_kops_def quiet_services_def)
  have z: "k_done ?s = (\<lambda>_. 0)" "k_done (queued_waiter 7 ?s) = (\<lambda>_. 0)"
    by (simp_all add: blank_kst_def queued_waiter_def upd_wait_def)
  have d: "k_done (?sl 1) 7 = 0" "k_done (?sl 2) 7 = 0" "k_done (?sl 3) 7 = 1"
    by (simp_all add: numeral_2_eq_2 numeral_3_eq_3 completing_sleeps z)
  then have "k_done (?sl 3) 7 \<noteq> 0 \<and> (\<forall>i. 0 < i \<and> i < 3 \<longrightarrow> k_done (?sl i) 7 = 0)"
    by (auto simp: numeral_3_eq_3 less_Suc_eq numeral_2_eq_2)
  then have "result (wait_for_completion n completing 7) ?s = (if 3 \<le> n then Some () else None)" for n
    using wait_returns_iff_completed [OF so, of ?s 7 n]
    by (simp only: z(1) simp_thms if_False) (meson zero_less_numeral)
  from this [of 3] this [of 2] show ?thesis by simp
qed

end
