(* ===== verification/Sched_params.thy ===== *)
theory Sched_params
  imports Sched_wait
begin

text \<open>
  \<open>sched_mod.c\<close>, lines 6006 to 6447 and 6826 to 6914: priority inheritance, nice values, the scheduling
  policy of a task, and the system calls around them. A system call answers 0 or a negated
  error number. A pointer the user passes is \<open>None\<close> if it is null; \<open>Some None\<close> is one that cannot
  be read.
\<close>

definition EPERM :: int where "EPERM = 1"
definition ESRCH :: int where "ESRCH = 3"
definition EFAULT :: int where "EFAULT = 14"
definition EINVAL :: int where "EINVAL = 22"
definition SCHED_RESET_ON_FORK :: s32 where "SCHED_RESET_ON_FORK = 0x40000000"

lemmas errno_defs = EPERM_def ESRCH_def EFAULT_def EINVAL_def

subsection \<open>Priority inheritance\<close>

definition rt_mutex_setprio :: "'x kops \<Rightarrow> task \<Rightarrow> int \<Rightarrow> ('x kst, unit) state" where
  "rt_mutex_setprio K p prio = do {
     prev_class \<leftarrow> task_get p t_sched_class;
     if prio < 0 \<or> MAX_PRIO < prio then log_event Sched_bug else do {
       (rq, flags) \<leftarrow> task_rq_lock p;
       update_rq_clock K rq;
       oldprio \<leftarrow> task_get p t_prio;
       on_rq \<leftarrow> task_get p (\<lambda>t. se_on_rq (t_se t));
       running \<leftarrow> task_current rq p;
       when_m on_rq (dequeue_task K rq p False);
       cls \<leftarrow> task_get p t_sched_class;
       when_m running (op_put_prev_task (classes K) cls rq p);
       upd_task p (\<lambda>t. t\<lparr>t_sched_class := if rt_prio prio then Rt_sched_class else Fair_sched_class\<rparr>);
       upd_task p (\<lambda>t. t\<lparr>t_prio := prio\<rparr>);
       cls' \<leftarrow> task_get p t_sched_class;
       when_m running (op_set_curr_task (classes K) cls' rq);
       when_m on_rq (do {
         enqueue_task K rq p False;
         check_class_changed K rq p prev_class oldprio running });
       task_rq_unlock rq flags } }"

subsection \<open>Nice values\<close>

text \<open>\<open>p->prio = effective_prio(p)\<close>, which stores the normal priority, too.\<close>

definition renice_task :: "task_struct \<Rightarrow> task_struct" where
  "renice_task t =
     (let (prio, t') = effective_prio t in t'\<lparr>t_prio := prio\<rparr>)"

definition set_user_nice :: "'x kops \<Rightarrow> task \<Rightarrow> int \<Rightarrow> ('x kst, unit) state" where
  "set_user_nice K p nice = do {
     old \<leftarrow> task_get p TASK_NICE;
     if old = nice \<or> nice < - 20 \<or> 19 < nice then skip
     else do {
       (rq, flags) \<leftarrow> task_rq_lock p;
       update_rq_clock K rq;
       rt \<leftarrow> task_get p task_has_rt_policy;
       if rt then do {
         upd_task p (\<lambda>t. t\<lparr>t_static_prio := NICE_TO_PRIO nice\<rparr>);
         task_rq_unlock rq flags }
       else do {
         on_rq \<leftarrow> task_get p (\<lambda>t. se_on_rq (t_se t));
         when_m on_rq (dequeue_task K rq p False);
         upd_task p (\<lambda>t. t\<lparr>t_static_prio := NICE_TO_PRIO nice\<rparr>);
         set_load_weight p;
         old_prio \<leftarrow> task_get p t_prio;
         upd_task p renice_task;
         new_prio \<leftarrow> task_get p t_prio;
         when_m on_rq (do {
           enqueue_task K rq p False;
           running \<leftarrow> task_running rq p;
           when_m (new_prio < old_prio \<or> (old_prio < new_prio \<and> running)) (do {
             curr \<leftarrow> rq_get rq rq_curr;
             resched_task curr }) });
         task_rq_unlock rq flags } } }"

definition can_nice :: "'x kops \<Rightarrow> task \<Rightarrow> int \<Rightarrow> ('x kst, bool) state" where
  "can_nice K p nice = do {
     rlim \<leftarrow> task_get p t_rlim_nice;
     me \<leftarrow> gets k_current;
     capable \<leftarrow> gets (\<lambda>s. capable_sys_nice (services K) me (k_ext s));
     ret ((word_of_int (20 - nice) :: u32) \<le> rlim \<or> capable) }"

definition sys_nice :: "'x kops \<Rightarrow> s32 \<Rightarrow> ('x kst, int) state" where
  "sys_nice K increment0 = do {
     let increment = (if sint increment0 < - 40 then - 40 else sint increment0);
     let increment = (if 40 < increment then 40 else increment);
     me \<leftarrow> gets k_current;
     old \<leftarrow> task_get me TASK_NICE;
     let nice = old + increment;
     let nice = (if nice < - 20 then - 20 else nice);
     let nice = (if 19 < nice then 19 else nice);
     can \<leftarrow> can_nice K me nice;
     if increment < 0 \<and> \<not> can then ret (- EPERM)
     else do {
       retval \<leftarrow> gets (\<lambda>s. security_setnice (services K) me nice (k_ext s));
       if retval \<noteq> 0 then ret retval
       else do {
         set_user_nice K me nice;
         ret 0 } } }"

subsection \<open>Policies\<close>

definition find_process_by_pid :: "'x kops \<Rightarrow> s32 \<Rightarrow> ('x kst, task option) state" where
  "find_process_by_pid K pid =
     gets (\<lambda>s. if pid \<noteq> 0 then find_task_by_vpid (services K) pid (k_ext s) else Some (k_current s))"

text \<open>The class a policy belongs to; for any other value the \<open>switch\<close> leaves the task's class.\<close>

definition class_of_policy :: "int \<Rightarrow> sched_class \<Rightarrow> sched_class" where
  "class_of_policy policy cls =
     (if policy = SCHED_NORMAL \<or> policy = SCHED_BATCH \<or> policy = SCHED_IDLE then Fair_sched_class
      else if policy = SCHED_FIFO \<or> policy = SCHED_RR then Rt_sched_class
      else cls)"

definition setscheduler_raw :: "'x kops \<Rightarrow> cpu \<Rightarrow> task \<Rightarrow> int \<Rightarrow> int \<Rightarrow> ('x kst, unit) state" where
  "setscheduler_raw K rq p policy prio = do {
     on_rq \<leftarrow> task_get p (\<lambda>t. se_on_rq (t_se t));
     if on_rq then log_event Sched_bug else do {
       upd_task p (\<lambda>t. t\<lparr>t_policy := policy\<rparr>);
       upd_task p (\<lambda>t. t\<lparr>t_sched_class := class_of_policy policy (t_sched_class t)\<rparr>);
       upd_task p (\<lambda>t. t\<lparr>t_rt_priority := prio\<rparr>);
       upd_task p (\<lambda>t. t\<lparr>t_normal_prio := normal_prio t\<rparr>);
       normal \<leftarrow> task_get p t_normal_prio;
       boosted \<leftarrow> gets (\<lambda>s. rt_mutex_getprio (services K) p normal (k_ext s));
       upd_task p (\<lambda>t. t\<lparr>t_prio := boosted\<rparr>);
       set_load_weight p } }"

definition check_same_owner :: "task \<Rightarrow> ('x kst, bool) state" where
  "check_same_owner p = do {
     me \<leftarrow> gets k_current;
     euid \<leftarrow> task_get me t_euid;
     pcred \<leftarrow> task_get p (\<lambda>t. (t_euid t, t_uid t));
     ret (euid = fst pcred \<or> euid = snd pcred) }"

text \<open>The requested policy, read once per turn: the policy, the flag for reset on fork, and the
  \<open>oldpolicy\<close> that is compared again under the lock; \<open>None\<close> if it is not a policy.\<close>

definition requested_policy :: "s32 \<Rightarrow> task_struct \<Rightarrow> (int \<times> bool \<times> int option) option" where
  "requested_policy policy t =
     (if sint policy < 0 then Some (t_policy t, t_sched_reset_on_fork t, Some (t_policy t))
      else let reset = policy AND SCHED_RESET_ON_FORK \<noteq> 0;
               pol = sint (policy AND NOT SCHED_RESET_ON_FORK)
           in if pol \<noteq> SCHED_FIFO \<and> pol \<noteq> SCHED_RR \<and> pol \<noteq> SCHED_NORMAL \<and> pol \<noteq> SCHED_BATCH \<and> pol \<noteq> SCHED_IDLE
              then None else Some (pol, reset, None))"

definition valid_rt_priority :: "int \<Rightarrow> int \<Rightarrow> task_struct \<Rightarrow> bool" where
  "valid_rt_priority policy prio t \<longleftrightarrow>
     \<not> (prio < 0 \<or> (t_mm t \<noteq> None \<and> MAX_USER_RT_PRIO - 1 < prio) \<or> (t_mm t = None \<and> MAX_RT_PRIO - 1 < prio)) \<and>
     (rt_policy policy \<longleftrightarrow> prio \<noteq> 0)"

text \<open>The checks for a caller without \<open>CAP_SYS_NICE\<close>: 0 or the error. \<open>sighand\<close> and \<open>same_owner\<close> are the
  answers of \<open>lock_task_sighand\<close> and \<open>check_same_owner\<close>.\<close>

definition unprivileged_error :: "bool \<Rightarrow> bool \<Rightarrow> int \<Rightarrow> int \<Rightarrow> bool \<Rightarrow> task_struct \<Rightarrow> int" where
  "unprivileged_error sighand same_owner policy prio reset t =
     (if rt_policy policy \<and> \<not> sighand then - ESRCH
      else if rt_policy policy \<and> policy \<noteq> t_policy t \<and> t_rlim_rtprio t = 0 then - EPERM
      else if rt_policy policy \<and> t_rt_priority t < prio \<and> uint (t_rlim_rtprio t) < prio then - EPERM
      else if t_policy t = SCHED_IDLE \<and> policy \<noteq> SCHED_IDLE then - EPERM
      else if \<not> same_owner then - EPERM
      else if t_sched_reset_on_fork t \<and> \<not> reset then - EPERM
      else 0)"

text \<open>The checks of a call for user space: permissions, then the security module.\<close>

definition setscheduler_user_error :: "'x kops \<Rightarrow> task \<Rightarrow> int \<Rightarrow> int \<Rightarrow> bool \<Rightarrow> ('x kst, int) state" where
  "setscheduler_user_error K p policy prio reset = do {
     me \<leftarrow> gets k_current;
     capable \<leftarrow> gets (\<lambda>s. capable_sys_nice (services K) me (k_ext s));
     sighand \<leftarrow> gets (\<lambda>s. lock_sighand_ok (services K) p (k_ext s));
     same \<leftarrow> check_same_owner p;
     t \<leftarrow> task_get p (\<lambda>t. t);
     let e = (if capable then 0 else unprivileged_error sighand same policy prio reset t);
     if e \<noteq> 0 then ret e
     else gets (\<lambda>s. security_setscheduler (services K) p (k_ext s)) }"

text \<open>The change itself, with the task's \<open>pi_lock\<close> and its runqueue locked.\<close>

definition setscheduler_change ::
    "'x kops \<Rightarrow> cpu \<Rightarrow> task \<Rightarrow> sched_class \<Rightarrow> int \<Rightarrow> int \<Rightarrow> bool \<Rightarrow> ('x kst, unit) state" where
  "setscheduler_change K rq p prev_class policy prio reset = do {
     update_rq_clock K rq;
     on_rq \<leftarrow> task_get p (\<lambda>t. se_on_rq (t_se t));
     running \<leftarrow> task_current rq p;
     when_m on_rq (deactivate_task K rq p False);
     cls \<leftarrow> task_get p t_sched_class;
     when_m running (op_put_prev_task (classes K) cls rq p);
     upd_task p (\<lambda>t. t\<lparr>t_sched_reset_on_fork := reset\<rparr>);
     oldprio \<leftarrow> task_get p t_prio;
     setscheduler_raw K rq p policy prio;
     cls' \<leftarrow> task_get p t_sched_class;
     when_m running (op_set_curr_task (classes K) cls' rq);
     when_m on_rq (do {
       activate_task K rq p False;
       check_class_changed K rq p prev_class oldprio running }) }"

text \<open>One turn from the label \<open>recheck\<close>, with the policy as a parameter; \<open>Inl\<close> is the jump back.\<close>

definition setscheduler_turn ::
    "'x kops \<Rightarrow> task \<Rightarrow> sched_class \<Rightarrow> int \<Rightarrow> bool \<Rightarrow> s32 \<Rightarrow> ('x kst, s32 + int) state" where
  "setscheduler_turn K p prev_class prio user policy0 = do {
     t \<leftarrow> task_get p (\<lambda>t. t);
     (case requested_policy policy0 t of
        None \<Rightarrow> ret (Inr (- EINVAL))
      | Some (policy, reset, oldpolicy) \<Rightarrow>
          if \<not> valid_rt_priority policy prio t then ret (Inr (- EINVAL))
          else do {
            e \<leftarrow> (if user then setscheduler_user_error K p policy prio reset else ret 0);
            if e \<noteq> 0 then ret (Inr e)
            else do {
              flags \<leftarrow> spin_lock_irqsave (Pi_lock p);
              rq \<leftarrow> task_rq_lock_noirq p;
              now \<leftarrow> task_get p t_policy;
              if oldpolicy \<noteq> None \<and> oldpolicy \<noteq> Some now then do {
                spin_unlock (Rq_lock rq);
                spin_unlock_irqrestore (Pi_lock p) flags;
                ret (Inl (- 1)) }
              else do {
                setscheduler_change K rq p prev_class policy prio reset;
                spin_unlock (Rq_lock rq);
                spin_unlock_irqrestore (Pi_lock p) flags;
                rt_mutex_adjust_pi (others K) p;
                ret (Inr 0) } } }) }"

definition setscheduler_loop ::
    "nat \<Rightarrow> 'x kops \<Rightarrow> task \<Rightarrow> s32 \<Rightarrow> int \<Rightarrow> bool \<Rightarrow> ('x kst, int option) state" where
  "setscheduler_loop fuel K p policy prio user = do {
     prev_class \<leftarrow> task_get p t_sched_class;
     irq \<leftarrow> gets (\<lambda>s. in_interrupt (services K) (k_ext s));
     if irq then do { log_event Sched_bug; ret None }
     else loop_m fuel (setscheduler_turn K p prev_class prio user) policy }"

text \<open>Nothing runs between the two looks at the policy here, so one turn is enough
  (\<open>setscheduler_one_turn\<close>). In an interrupt the kernel stops with \<open>BUG_ON\<close>: \<open>None\<close>.\<close>

definition sched_setscheduler_any ::
    "'x kops \<Rightarrow> task \<Rightarrow> s32 \<Rightarrow> int \<Rightarrow> bool \<Rightarrow> ('x kst, int option) state" where
  "sched_setscheduler_any K p policy prio user = setscheduler_loop 1 K p policy prio user"

definition sched_setscheduler :: "'x kops \<Rightarrow> task \<Rightarrow> s32 \<Rightarrow> int \<Rightarrow> ('x kst, int option) state" where
  "sched_setscheduler K p policy prio = sched_setscheduler_any K p policy prio True"

definition sched_setscheduler_nocheck :: "'x kops \<Rightarrow> task \<Rightarrow> s32 \<Rightarrow> int \<Rightarrow> ('x kst, int option) state" where
  "sched_setscheduler_nocheck K p policy prio = sched_setscheduler_any K p policy prio False"

subsection \<open>System calls\<close>

definition do_sched_setscheduler ::
    "'x kops \<Rightarrow> s32 \<Rightarrow> s32 \<Rightarrow> s32 option option \<Rightarrow> ('x kst, int option) state" where
  "do_sched_setscheduler K pid policy param =
     (if param = None \<or> sint pid < 0 then ret (Some (- EINVAL))
      else case the param of
        None \<Rightarrow> ret (Some (- EFAULT))
      | Some prio \<Rightarrow> do {
          p \<leftarrow> find_process_by_pid K pid;
          (case p of
             None \<Rightarrow> ret (Some (- ESRCH))
           | Some p \<Rightarrow> sched_setscheduler K p policy (sint prio)) })"

definition sys_sched_setscheduler ::
    "'x kops \<Rightarrow> s32 \<Rightarrow> s32 \<Rightarrow> s32 option option \<Rightarrow> ('x kst, int option) state" where
  "sys_sched_setscheduler K pid policy param =
     (if sint policy < 0 then ret (Some (- EINVAL)) else do_sched_setscheduler K pid policy param)"

definition sys_sched_setparam :: "'x kops \<Rightarrow> s32 \<Rightarrow> s32 option option \<Rightarrow> ('x kst, int option) state" where
  "sys_sched_setparam K pid param = do_sched_setscheduler K pid (- 1) param"

text \<open>\<open>retval\<close> is an \<open>int\<close>; the policy is an unsigned number to which the flag is or-ed.\<close>

definition sys_sched_getscheduler :: "'x kops \<Rightarrow> s32 \<Rightarrow> ('x kst, int) state" where
  "sys_sched_getscheduler K pid =
     (if sint pid < 0 then ret (- EINVAL)
      else do {
        log_event (Spin_lock Tasklist_lock);
        p \<leftarrow> find_process_by_pid K pid;
        retval \<leftarrow> (case p of
           None \<Rightarrow> ret (- ESRCH)
         | Some p \<Rightarrow> do {
             e \<leftarrow> gets (\<lambda>s. security_getscheduler (services K) p (k_ext s));
             t \<leftarrow> task_get p (\<lambda>t. t);
             ret (if e \<noteq> 0 then e
                  else sint (word_of_int (t_policy t) OR
                    (if t_sched_reset_on_fork t then SCHED_RESET_ON_FORK else 0))) });
        log_event (Spin_unlock Tasklist_lock);
        ret retval })"

text \<open>The user's buffer is \<open>None\<close> if the pointer is null, otherwise whether it can be written; the
  second component is what was written.\<close>

definition sys_sched_getparam :: "'x kops \<Rightarrow> s32 \<Rightarrow> bool option \<Rightarrow> ('x kst, int \<times> int option) state" where
  "sys_sched_getparam K pid param =
     (if param = None \<or> sint pid < 0 then ret (- EINVAL, None)
      else do {
        log_event (Spin_lock Tasklist_lock);
        p \<leftarrow> find_process_by_pid K pid;
        (case p of
           None \<Rightarrow> do { log_event (Spin_unlock Tasklist_lock); ret (- ESRCH, None) }
         | Some p \<Rightarrow> do {
             e \<leftarrow> gets (\<lambda>s. security_getscheduler (services K) p (k_ext s));
             prio \<leftarrow> task_get p t_rt_priority;
             log_event (Spin_unlock Tasklist_lock);
             ret (if e \<noteq> 0 then (e, None) else if the param then (0, Some prio) else (- EFAULT, None)) }) })"

definition sys_sched_get_priority_max :: "int \<Rightarrow> int" where
  "sys_sched_get_priority_max policy =
     (if policy = SCHED_FIFO \<or> policy = SCHED_RR then MAX_USER_RT_PRIO - 1
      else if policy = SCHED_NORMAL \<or> policy = SCHED_BATCH \<or> policy = SCHED_IDLE then 0
      else - EINVAL)"

definition sys_sched_get_priority_min :: "int \<Rightarrow> int" where
  "sys_sched_get_priority_min policy =
     (if policy = SCHED_FIFO \<or> policy = SCHED_RR then 1
      else if policy = SCHED_NORMAL \<or> policy = SCHED_BATCH \<or> policy = SCHED_IDLE then 0
      else - EINVAL)"

definition sys_sched_rr_get_interval ::
    "'x kops \<Rightarrow> s32 \<Rightarrow> bool \<Rightarrow> ('x kst, int \<times> (s32 \<times> s32) option) state" where
  "sys_sched_rr_get_interval K pid writable =
     (if sint pid < 0 then ret (- EINVAL, None)
      else do {
        log_event (Spin_lock Tasklist_lock);
        p \<leftarrow> find_process_by_pid K pid;
        (case p of
           None \<Rightarrow> do { log_event (Spin_unlock Tasklist_lock); ret (- ESRCH, None) }
         | Some p \<Rightarrow> do {
             e \<leftarrow> gets (\<lambda>s. security_getscheduler (services K) p (k_ext s));
             if e \<noteq> 0 then do { log_event (Spin_unlock Tasklist_lock); ret (e, None) }
             else do {
               cls \<leftarrow> task_get p t_sched_class;
               time_slice \<leftarrow> op_get_rr_interval (classes K) cls p;
               log_event (Spin_unlock Tasklist_lock);
               let t = jiffies_to_timespec (services K) time_slice;
               ret (if writable then (0, Some t) else (- EFAULT, None)) } }) })"

subsection \<open>What the scheduling classes leave alone\<close>

text \<open>The part of a task that is written by \<open>sched_mod.c\<close> only.\<close>

record policy_state =
  ps_on_rq :: bool
  ps_policy :: int
  ps_rt_priority :: int
  ps_static_prio :: int
  ps_normal_prio :: int
  ps_reset :: bool
  ps_rlim_nice :: u32
  ps_rlim_rtprio :: u32

definition policy_of :: "task_struct \<Rightarrow> policy_state" where
  "policy_of t = \<lparr>ps_on_rq = se_on_rq (t_se t), ps_policy = t_policy t, ps_rt_priority = t_rt_priority t,
     ps_static_prio = t_static_prio t, ps_normal_prio = t_normal_prio t, ps_reset = t_sched_reset_on_fork t,
     ps_rlim_nice = t_rlim_nice t, ps_rlim_rtprio = t_rlim_rtprio t\<rparr>"

definition policy_obs :: "'x kst \<Rightarrow> task \<Rightarrow> policy_state" where
  "policy_obs s p = policy_of (k_task s p)"

definition policy_ops_keep :: "('x kst \<Rightarrow> 'v) \<Rightarrow> 'x kops \<Rightarrow> bool" where
  "policy_ops_keep obs K \<longleftrightarrow> queue_ops_keep obs K \<and>
     (\<forall>c rq p b oldp. keeps obs (op_put_prev_task (classes K) c rq p) \<and>
        keeps obs (op_set_curr_task (classes K) c rq) \<and> keeps obs (op_switched_to (classes K) c rq p b) \<and>
        keeps obs (op_prio_changed (classes K) c rq p oldp b) \<and>
        (\<forall>f. op_switched_from (classes K) c = Some f \<longrightarrow> keeps obs (f rq p b)) \<and>
        keeps obs (rt_mutex_adjust_pi (others K) p))"

lemma policy_ops_keepD:
  assumes "policy_ops_keep obs K"
  shows "obs (exec (op_put_prev_task (classes K) c rq p) s) = obs s"
    and "obs (exec (op_set_curr_task (classes K) c rq) s) = obs s"
    and "obs (exec (op_switched_to (classes K) c rq p b) s) = obs s"
    and "obs (exec (op_prio_changed (classes K) c rq p oldp b) s) = obs s"
    and "op_switched_from (classes K) c = Some f \<Longrightarrow> obs (exec (f rq p b) s) = obs s"
    and "obs (exec (rt_mutex_adjust_pi (others K) p) s) = obs s"
    and "queue_ops_keep obs K"
  using assms unfolding policy_ops_keep_def keeps_def by blast+

lemma policy_obs_upd [simp]:
  "policy_obs (s\<lparr>k_rq := r\<rparr>) = policy_obs s" "policy_obs (s\<lparr>k_log := l\<rparr>) = policy_obs s"
  "policy_obs (s\<lparr>k_irqs_off := b\<rparr>) = policy_obs s" "policy_obs (s\<lparr>k_ext := x\<rparr>) = policy_obs s"
  "policy_obs (s\<lparr>k_current := c\<rparr>) = policy_obs s"
  "policy_obs (s\<lparr>k_irqs_off := b, k_log := l\<rparr>) = policy_obs s"
  "policy_obs (s\<lparr>k_task := g(p := t)\<rparr>) = (\<lambda>q. policy_of (g q))(p := policy_of t)"
  "(\<lambda>q. policy_of (k_task s q)) = policy_obs s"
  by (simp_all add: policy_obs_def fun_eq_iff)

lemma policy_fields:
  "se_on_rq (t_se (k_task s p)) = ps_on_rq (policy_obs s p)"
  "t_policy (k_task s p) = ps_policy (policy_obs s p)"
  "t_rt_priority (k_task s p) = ps_rt_priority (policy_obs s p)"
  "t_static_prio (k_task s p) = ps_static_prio (policy_obs s p)"
  "t_normal_prio (k_task s p) = ps_normal_prio (policy_obs s p)"
  "t_sched_reset_on_fork (k_task s p) = ps_reset (policy_obs s p)"
  "t_rlim_nice (k_task s p) = ps_rlim_nice (policy_obs s p)"
  "t_rlim_rtprio (k_task s p) = ps_rlim_rtprio (policy_obs s p)"
  by (simp_all add: policy_obs_def policy_of_def)

lemma policy_of_upd [simp]:
  "policy_of (t\<lparr>t_prio := i\<rparr>) = policy_of t" "policy_of (t\<lparr>t_sched_class := c\<rparr>) = policy_of t"
  "policy_of (t\<lparr>t_se := e\<rparr>) = (policy_of t)\<lparr>ps_on_rq := se_on_rq e\<rparr>"
  "policy_of (t\<lparr>t_policy := i\<rparr>) = (policy_of t)\<lparr>ps_policy := i\<rparr>"
  "policy_of (t\<lparr>t_rt_priority := i\<rparr>) = (policy_of t)\<lparr>ps_rt_priority := i\<rparr>"
  "policy_of (t\<lparr>t_static_prio := i\<rparr>) = (policy_of t)\<lparr>ps_static_prio := i\<rparr>"
  "policy_of (t\<lparr>t_normal_prio := i\<rparr>) = (policy_of t)\<lparr>ps_normal_prio := i\<rparr>"
  "policy_of (t\<lparr>t_sched_reset_on_fork := b\<rparr>) = (policy_of t)\<lparr>ps_reset := b\<rparr>"
  "policy_of (t\<lparr>t_need_resched := b\<rparr>) = policy_of t"
  "policy_of (k_task s p) = policy_obs s p"
  "(policy_of t)\<lparr>ps_on_rq := se_on_rq (t_se t)\<rparr> = policy_of t"
  "r\<lparr>ps_on_rq := ps_on_rq r\<rparr> = r"
  by (simp_all add: policy_obs_def policy_of_def)

lemma obs_set_load_weight [simp]: "policy_obs (exec (set_load_weight p) s) = policy_obs s"
  by (auto simp: set_load_weight_def policy_fields fun_eq_iff split: option.split)

lemma obs_update_rq_clock [simp]: "policy_obs (exec (update_rq_clock K c) s) = policy_obs s"
  by (simp add: update_rq_clock_def)

lemma obs_resched_task [simp]: "policy_obs (exec (resched_task p) s) = policy_obs s"
  by (simp add: resched_task_def fun_eq_iff)

lemma obs_set_on_rq:
  assumes "policy_ops_keep policy_obs K"
  shows "policy_obs (exec (enqueue_task K rq p b) s) = (policy_obs s)(p := (policy_obs s p)\<lparr>ps_on_rq := True\<rparr>)"
    and "policy_obs (exec (dequeue_task K rq p c) s) = (policy_obs s)(p := (policy_obs s p)\<lparr>ps_on_rq := False\<rparr>)"
    and "policy_obs (exec (activate_task K rq p b) s) = (policy_obs s)(p := (policy_obs s p)\<lparr>ps_on_rq := True\<rparr>)"
    and "policy_obs (exec (deactivate_task K rq p c) s) = (policy_obs s)(p := (policy_obs s p)\<lparr>ps_on_rq := False\<rparr>)"
proof -
  have flag: "policy_obs (set_on_rq p v s) = (policy_obs s)(p := (policy_obs s p)\<lparr>ps_on_rq := v\<rparr>)" for v
    and s :: "'a kst"
    by (simp add: set_on_rq_def)
  have stats: "policy_obs (exec (sleep_stats p) s) = policy_obs s"
    "policy_obs (exec (upd_se p (\<lambda>e. e\<lparr>se_start_runtime := se_sum_exec_runtime e\<rparr>)) s) = policy_obs s"
    for s :: "'a kst"
    by (simp_all add: sleep_stats_def policy_fields fun_eq_iff)
  note ops = policy_ops_keepD(7) [OF assms]
  show e: "policy_obs (exec (enqueue_task K rq p b) s) = (policy_obs s)(p := (policy_obs s p)\<lparr>ps_on_rq := True\<rparr>)"
    and d: "policy_obs (exec (dequeue_task K rq p c) s) = (policy_obs s)(p := (policy_obs s p)\<lparr>ps_on_rq := False\<rparr>)"
    for s :: "'a kst"
    by (simp_all add: enqueue_task_obs [OF ops] dequeue_task_obs [OF ops] flag stats del: kst_access)
  show "policy_obs (exec (activate_task K rq p b) s) = (policy_obs s)(p := (policy_obs s p)\<lparr>ps_on_rq := True\<rparr>)"
    and "policy_obs (exec (deactivate_task K rq p c) s) = (policy_obs s)(p := (policy_obs s p)\<lparr>ps_on_rq := False\<rparr>)"
    by (simp_all add: activate_task_def deactivate_task_def inc_nr_running_def dec_nr_running_def e d)
qed

lemma obs_check_class_changed:
  assumes "policy_ops_keep policy_obs K"
  shows "policy_obs (exec (check_class_changed K rq p c oldp b) s) = policy_obs s"
  by (simp add: check_class_changed_def policy_ops_keepD [OF assms] split: option.split)

subsection \<open>Setting policy and priority\<close>

definition set_policy :: "int \<Rightarrow> int \<Rightarrow> bool \<Rightarrow> policy_state \<Rightarrow> policy_state" where
  "set_policy policy prio reset r = r\<lparr>ps_policy := policy, ps_rt_priority := prio, ps_reset := reset,
     ps_normal_prio := (if rt_policy policy then MAX_RT_PRIO - 1 - prio else ps_static_prio r)\<rparr>"

lemma set_policy_on_rq [simp]:
  "(set_policy pol prio reset (r\<lparr>ps_on_rq := b\<rparr>))\<lparr>ps_on_rq := c\<rparr> = (set_policy pol prio reset r)\<lparr>ps_on_rq := c\<rparr>"
  "ps_on_rq (set_policy pol prio reset r) = ps_on_rq r"
  "(set_policy pol prio reset r)\<lparr>ps_on_rq := ps_on_rq r\<rparr> = set_policy pol prio reset r"
  by (simp_all add: set_policy_def)

lemma obs_setscheduler_raw:
  "policy_obs (exec (setscheduler_raw K rq p policy prio) s) =
    (if ps_on_rq (policy_obs s p) then policy_obs s
     else (policy_obs s)(p := set_policy policy prio (ps_reset (policy_obs s p)) (policy_obs s p)))"
  by (simp add: setscheduler_raw_def policy_fields set_policy_def normal_prio_def normal_prio_aux_def
      task_has_rt_policy_def fun_eq_iff)

lemma task_running_run [simp]:
  "exec (task_current c p) s = s" "exec (task_running c p) s = s"
  "result (task_running c p) s = result (task_current c p) s"
  by (simp_all add: task_running_def task_current_def)

lemma obs_setscheduler_change:
  assumes "policy_ops_keep policy_obs K"
  shows "policy_obs (exec (setscheduler_change K rq p c policy prio reset) s) =
    (policy_obs s)(p := set_policy policy prio reset (policy_obs s p))"
  by (simp add: setscheduler_change_def policy_fields policy_ops_keepD [OF assms] obs_set_on_rq [OF assms]
      obs_check_class_changed [OF assms] obs_setscheduler_raw fun_eq_iff set_policy_def)

text \<open>What the call was asked for, and the error it answers: both are functions of the state it
  starts in.\<close>

definition setscheduler_error :: "'x kops \<Rightarrow> task \<Rightarrow> s32 \<Rightarrow> int \<Rightarrow> bool \<Rightarrow> 'x kst \<Rightarrow> int" where
  "setscheduler_error K p policy prio user s = (case requested_policy policy (k_task s p) of
     None \<Rightarrow> - EINVAL
   | Some (pol, reset, _) \<Rightarrow> if \<not> valid_rt_priority pol prio (k_task s p) then - EINVAL
       else if user then result (setscheduler_user_error K p pol prio reset) s else 0)"

lemma user_error_run [simp]: "exec (setscheduler_user_error K p pol prio reset) s = s"
  by (simp add: setscheduler_user_error_def check_same_owner_def Let_def)

lemma requested_policy_old:
  "requested_policy policy t = Some (pol, reset, old) \<Longrightarrow> old = None \<or> old = Some (t_policy t)"
  by (auto simp: requested_policy_def Let_def split: if_splits)

lemma sched_setscheduler_any_run:
  fixes K :: "'x kops" and p :: task and policy :: s32 and prio :: int and user :: bool
  assumes "\<not> in_interrupt (services K) (k_ext s)"
  defines "e \<equiv> setscheduler_error K p policy prio user s"
  shows "result (sched_setscheduler_any K p policy prio user) s = Some e"
    and "e \<noteq> 0 \<Longrightarrow> exec (sched_setscheduler_any K p policy prio user) s = s"
    and "e = 0 \<Longrightarrow> \<exists>pol reset old. requested_policy policy (k_task s p) = Some (pol, reset, old) \<and>
      valid_rt_priority pol prio (k_task s p) \<and>
      (user \<longrightarrow> result (setscheduler_user_error K p pol prio reset) s = 0) \<and>
      (policy_ops_keep policy_obs K \<longrightarrow>
       policy_obs (exec (sched_setscheduler_any K p policy prio user) s) =
         (policy_obs s)(p := set_policy pol prio reset (policy_obs s p)))"
proof -
  let ?t = "k_task s p"
  note run = sched_setscheduler_any_def setscheduler_loop_def setscheduler_turn_def assms(1) e_def
    setscheduler_error_def
  show "result (sched_setscheduler_any K p policy prio user) s = Some e"
    and "e \<noteq> 0 \<Longrightarrow> exec (sched_setscheduler_any K p policy prio user) s = s"
    using requested_policy_old [of policy ?t]
    by (auto simp: run task_rq_lock_noirq_def task_rq_lock_noirq_loop_def split: option.splits prod.splits)
  assume "e = 0"
  then obtain pol reset old where r: "requested_policy policy ?t = Some (pol, reset, old)"
    and v: "valid_rt_priority pol prio ?t"
    and u: "user \<Longrightarrow> result (setscheduler_user_error K p pol prio reset) s = 0"
    by (auto simp: e_def setscheduler_error_def EINVAL_def split: option.splits if_splits)
  have "policy_obs (exec (sched_setscheduler_any K p policy prio user) s) =
      (policy_obs s)(p := set_policy pol prio reset (policy_obs s p))" if "policy_ops_keep policy_obs K"
    using requested_policy_old [OF r] r v u
    by (auto simp: run obs_setscheduler_change [OF that] policy_ops_keepD [OF that])
  with r v u show "\<exists>pol reset old. requested_policy policy ?t = Some (pol, reset, old) \<and>
      valid_rt_priority pol prio ?t \<and>
      (user \<longrightarrow> result (setscheduler_user_error K p pol prio reset) s = 0) \<and>
      (policy_ops_keep policy_obs K \<longrightarrow>
       policy_obs (exec (sched_setscheduler_any K p policy prio user) s) =
         (policy_obs s)(p := set_policy pol prio reset (policy_obs s p)))"
    by blast
qed

text \<open>C17. Changing policy and priority is all or nothing. Either the call answers an error and the state
  is the one before, or it answers 0 and the task has the policy and priority asked for (with
  a negative policy: the one it had), the flag for reset on fork as asked for, the priority in
  the range of the policy and the normal priority that follows from it; it is queued exactly
  if it was, and no other task's policy, priority or flag has changed.\<close>

theorem setscheduler_all_or_nothing:
  fixes K :: "'x kops" and s :: "'x kst" and policy :: s32 and p :: task and prio :: int and user :: bool
  assumes "policy_ops_keep policy_obs K" and "\<not> in_interrupt (services K) (k_ext s)"
  defines "s' \<equiv> exec (sched_setscheduler_any K p policy prio user) s"
    and "pol \<equiv> (if sint policy < 0 then t_policy (k_task s p) else sint (policy AND NOT SCHED_RESET_ON_FORK))"
    and "reset \<equiv> (if sint policy < 0 then t_sched_reset_on_fork (k_task s p)
      else policy AND SCHED_RESET_ON_FORK \<noteq> 0)"
  shows "\<exists>e. result (sched_setscheduler_any K p policy prio user) s = Some e \<and>
    (if e \<noteq> 0 then s' = s
     else let t = k_task s p; t' = k_task s' p in
       t_policy t' = pol \<and> t_rt_priority t' = prio \<and> t_sched_reset_on_fork t' = reset \<and>
       (if rt_policy pol then 1 \<le> prio \<and> prio \<le> 99 \<and> t_normal_prio t' = 99 - prio
        else prio = 0 \<and> t_normal_prio t' = t_static_prio t) \<and>
       se_on_rq (t_se t') = se_on_rq (t_se t) \<and> t_static_prio t' = t_static_prio t \<and>
       (\<forall>q. q \<noteq> p \<longrightarrow> policy_of (k_task s' q) = policy_of (k_task s q)))"
proof -
  note run = sched_setscheduler_any_run [OF assms(2), where p = p and policy = policy and prio = prio and user = user]
  let ?e = "setscheduler_error K p policy prio user s"
  show ?thesis
  proof (cases "?e = 0")
    case True
    from run(3) [OF this] assms(1) obtain pol' reset' old where
      r: "requested_policy policy (k_task s p) = Some (pol', reset', old)"
      and v: "valid_rt_priority pol' prio (k_task s p)"
      and o: "policy_obs s' = (policy_obs s)(p := set_policy pol' prio reset' (policy_obs s p))"
      unfolding s'_def by blast
    have [simp]: "pol' = pol" "reset' = reset"
      using r by (auto simp: requested_policy_def pol_def reset_def Let_def split: if_splits)
    have others: "\<forall>q. q \<noteq> p \<longrightarrow> policy_of (k_task s' q) = policy_of (k_task s q)"
      by (simp add: o)
    have new: "policy_obs s' p = set_policy pol prio reset (policy_obs s p)" by (simp add: o)
    have range: "if rt_policy pol then 1 \<le> prio \<and> prio \<le> 99 else prio = 0"
      using v by (cases "t_mm (k_task s p) = None") (auto simp: valid_rt_priority_def prio_consts)
    show ?thesis
      unfolding Let_def policy_fields new
      using run(1) True others range by (simp add: set_policy_def MAX_RT_PRIO_def)
  next
    case False
    with run(1,2) show ?thesis unfolding s'_def by simp
  qed
qed

lemma reset_flag_split:
  "(policy AND NOT SCHED_RESET_ON_FORK) OR
     (if policy AND SCHED_RESET_ON_FORK \<noteq> 0 then SCHED_RESET_ON_FORK else 0) = (policy :: s32)"
proof -
  have "SCHED_RESET_ON_FORK = push_bit 30 1" by (simp add: SCHED_RESET_ON_FORK_def)
  moreover have "bit (push_bit 30 1 :: s32) n \<longleftrightarrow> n = 30" for n
    unfolding bit_push_bit_iff bit_1_iff by auto
  ultimately have flag: "bit SCHED_RESET_ON_FORK n \<longleftrightarrow> n = 30" for n by simp
  have "policy AND SCHED_RESET_ON_FORK = (if bit policy 30 then SCHED_RESET_ON_FORK else 0)"
    by (rule bit_word_eqI) (auto simp: flag bit_simps)
  moreover have "(policy AND NOT SCHED_RESET_ON_FORK) OR (policy AND SCHED_RESET_ON_FORK) = policy"
    by (rule bit_word_eqI) (auto simp: bit_simps)
  ultimately show ?thesis by (auto simp: SCHED_RESET_ON_FORK_def split: if_splits)
qed

text \<open>C18. What was set can be read back: after a successful \<open>sched_setscheduler\<close> the calls
  \<open>sched_getscheduler\<close> and \<open>sched_getparam\<close> answer the policy word that was passed, flag included,
  and the priority.\<close>

theorem setscheduler_read_back:
  fixes K :: "'x kops" and s :: "'x kst"
  assumes ops: "policy_ops_keep policy_obs K" and irq: "\<not> in_interrupt (services K) (k_ext s)"
    and pid: "0 < sint pid" "\<And>y. find_task_by_vpid (services K) pid y = Some p"
    and allowed: "\<And>y. security_getscheduler (services K) p y = 0"
    and ok: "result (sys_sched_setscheduler K pid policy (Some (Some prio))) s = Some 0"
  defines "s' \<equiv> exec (sys_sched_setscheduler K pid policy (Some (Some prio))) s"
  shows "result (sys_sched_getscheduler K pid) s' = sint policy \<and>
    result (sys_sched_getparam K pid (Some True)) s' = (0, Some (sint prio))"
proof -
  have nz: "pid \<noteq> 0" using pid(1) by auto
  have pol: "0 \<le> sint policy"
    using ok by (auto simp: sys_sched_setscheduler_def EINVAL_def split: if_splits)
  have call: "sys_sched_setscheduler K pid policy (Some (Some prio)) =
      do { q \<leftarrow> find_process_by_pid K pid; (case q of None \<Rightarrow> ret (Some (- ESRCH))
        | Some q \<Rightarrow> sched_setscheduler_any K q policy (sint prio) True) }"
    using pol pid(1) by (simp add: sys_sched_setscheduler_def do_sched_setscheduler_def sched_setscheduler_def)
  let ?m = "sched_setscheduler_any K p policy (sint prio) True"
  have m: "result ?m s = Some 0" "s' = exec ?m s"
    using ok by (simp_all add: s'_def call find_process_by_pid_def pid nz)
  note run = sched_setscheduler_any_run [OF irq, where p = p and policy = policy and prio = "sint prio" and user = True]
  have "setscheduler_error K p policy (sint prio) True s = 0" using run(1) m(1) by simp
  from run(3) [OF this] ops obtain pl reset old where
    r: "requested_policy policy (k_task s p) = Some (pl, reset, old)"
    and o: "policy_obs s' = (policy_obs s)(p := set_policy pl (sint prio) reset (policy_obs s p))"
    unfolding m(2) by blast
  have [simp]: "pl = sint (policy AND NOT SCHED_RESET_ON_FORK)" "reset = (policy AND SCHED_RESET_ON_FORK \<noteq> 0)"
    using r pol by (auto simp: requested_policy_def Let_def split: if_splits)
  have "t_policy (k_task s' p) = sint (policy AND NOT SCHED_RESET_ON_FORK)"
    "t_sched_reset_on_fork (k_task s' p) \<longleftrightarrow> policy AND SCHED_RESET_ON_FORK \<noteq> 0"
    "t_rt_priority (k_task s' p) = sint prio"
    by (simp_all add: policy_fields o set_policy_def)
  then show ?thesis
    using pid(1) reset_flag_split [of policy]
    by (simp_all add: sys_sched_getscheduler_def sys_sched_getparam_def find_process_by_pid_def pid(2) allowed nz)
qed

subsection \<open>What an unprivileged task can do\<close>

definition set_nice :: "int \<Rightarrow> policy_state \<Rightarrow> policy_state" where
  "set_nice nice r = (if rt_policy (ps_policy r) then r\<lparr>ps_static_prio := NICE_TO_PRIO nice\<rparr>
     else r\<lparr>ps_static_prio := NICE_TO_PRIO nice, ps_normal_prio := NICE_TO_PRIO nice\<rparr>)"

definition nice_of :: "policy_state \<Rightarrow> int" where
  "nice_of r = PRIO_TO_NICE (ps_static_prio r)"

lemma nice_of_run: "TASK_NICE (k_task s p) = nice_of (policy_obs s p)"
  by (simp add: nice_of_def TASK_NICE_def policy_fields)

lemma nice_of_set [simp]: "nice_of (set_nice n r) = n"
  by (simp add: nice_of_def set_nice_def PRIO_TO_NICE_def NICE_TO_PRIO_def)

lemma set_nice_fields [simp]:
  "ps_policy (set_nice n r) = ps_policy r" "ps_rt_priority (set_nice n r) = ps_rt_priority r"
  "ps_reset (set_nice n r) = ps_reset r" "ps_rlim_nice (set_nice n r) = ps_rlim_nice r"
  "ps_rlim_rtprio (set_nice n r) = ps_rlim_rtprio r"
  by (simp_all add: set_nice_def)

lemma policy_of_renice [simp]:
  "policy_of (renice_task t) = (policy_of t)\<lparr>ps_normal_prio := normal_prio t\<rparr>"
  by (simp add: renice_task_def effective_prio_def Let_def policy_of_def)

lemma obs_set_user_nice:
  assumes "policy_ops_keep policy_obs K"
  shows "policy_obs (exec (set_user_nice K p nice) s) =
    (if nice_of (policy_obs s p) = nice \<or> nice < - 20 \<or> 19 < nice then policy_obs s
     else (policy_obs s)(p := set_nice nice (policy_obs s p)))"
proof (cases "nice_of (policy_obs s p) = nice \<or> nice < - 20 \<or> 19 < nice")
  case False
  then show ?thesis
    by (auto simp: set_user_nice_def nice_of_run policy_fields obs_set_on_rq [OF assms] set_nice_def
        task_has_rt_policy_def normal_prio_def normal_prio_aux_def fun_eq_iff)
qed (simp add: set_user_nice_def nice_of_run)

text \<open>The calls with which a task changes priorities, made by any task in any order.\<close>

datatype priority_call =
    Nice s32
  | Set_scheduler s32 s32 "s32 option option"
  | Set_param s32 "s32 option option"

fun make_call :: "'x kops \<Rightarrow> priority_call \<Rightarrow> ('x kst, unit) state" where
  "make_call K (Nice n) = do { _ \<leftarrow> sys_nice K n; skip }"
| "make_call K (Set_scheduler pid policy param) = do { _ \<leftarrow> sys_sched_setscheduler K pid policy param; skip }"
| "make_call K (Set_param pid param) = do { _ \<leftarrow> sys_sched_setparam K pid param; skip }"

definition priority_calls :: "'x kops \<Rightarrow> (task \<times> priority_call) list \<Rightarrow> ('x kst, unit) state" where
  "priority_calls K cs = for_each cs (\<lambda>(me, c). do {
     modify (\<lambda>s. s\<lparr>k_current := me\<rparr>);
     make_call K c })"

text \<open>What may become of the policy state of a task.\<close>

definition no_gain :: "policy_state \<Rightarrow> policy_state \<Rightarrow> bool" where
  "no_gain r r' \<longleftrightarrow> ps_rlim_nice r' = ps_rlim_nice r \<and> ps_rlim_rtprio r' = ps_rlim_rtprio r \<and>
     ps_rt_priority r' \<le> max (ps_rt_priority r) (uint (ps_rlim_rtprio r)) \<and>
     min (min 19 (nice_of r)) (20 - uint (ps_rlim_nice r)) \<le> nice_of r' \<and>
     (ps_reset r \<longrightarrow> ps_reset r') \<and>
     (rt_policy (ps_policy r') \<longrightarrow> rt_policy (ps_policy r) \<or> ps_rlim_rtprio r \<noteq> 0) \<and>
     (ps_policy r = SCHED_IDLE \<longrightarrow> ps_policy r' = SCHED_IDLE)"

lemma no_gain_refl [simp]: "no_gain r r"
  by (simp add: no_gain_def)

lemma no_gain_trans: "no_gain a b \<Longrightarrow> no_gain b c \<Longrightarrow> no_gain a c"
  unfolding no_gain_def le_max_iff_disj min_le_iff_disj
  by (elim conjE, intro conjI) (simp, simp, metis order.trans, metis order.trans, simp, metis, simp)

lemma no_gain_setscheduler:
  assumes "\<not> capable_sys_nice (services K) (k_current s) (k_ext s)"
    and "requested_policy policy (k_task s p) = Some (pol, reset, old)" "valid_rt_priority pol prio (k_task s p)"
    and "result (setscheduler_user_error K p pol prio reset) s = 0"
  shows "no_gain (policy_obs s p) (set_policy pol prio reset (policy_obs s p))"
proof -
  have "unprivileged_error (lock_sighand_ok (services K) p (k_ext s))
      (result (check_same_owner p) s) pol prio reset (k_task s p) = 0"
    using assms(1,4) by (auto simp: setscheduler_user_error_def Let_def check_same_owner_def split: if_splits)
  then have u: "rt_policy pol \<Longrightarrow> pol \<noteq> t_policy (k_task s p) \<Longrightarrow> t_rlim_rtprio (k_task s p) \<noteq> 0"
    "rt_policy pol \<Longrightarrow> prio \<le> t_rt_priority (k_task s p) \<or> prio \<le> uint (t_rlim_rtprio (k_task s p))"
    "t_policy (k_task s p) = SCHED_IDLE \<Longrightarrow> pol = SCHED_IDLE"
    "t_sched_reset_on_fork (k_task s p) \<Longrightarrow> reset"
    by (auto simp: unprivileged_error_def errno_defs split: if_splits)
  moreover have "\<not> rt_policy pol \<Longrightarrow> prio = 0"
    using assms(3) by (simp add: valid_rt_priority_def)
  moreover have "0 \<le> uint (t_rlim_rtprio (k_task s p))" by simp
  moreover have "nice_of (set_policy pol prio reset (policy_obs s p)) = nice_of (policy_obs s p)"
    by (simp add: nice_of_def set_policy_def)
  ultimately show ?thesis
    unfolding policy_fields by (cases "rt_policy pol") (auto simp: no_gain_def set_policy_def le_max_iff_disj)
qed

definition gains_nothing :: "'x kst \<Rightarrow> 'x kst \<Rightarrow> bool" where
  "gains_nothing s s' \<longleftrightarrow> (\<forall>p. no_gain (policy_obs s p) (policy_obs s' p))"

lemma gains_nothing_refl [simp]: "gains_nothing s s"
  by (simp add: gains_nothing_def)

lemma gains_nothing_trans: "gains_nothing a b \<Longrightarrow> gains_nothing b c \<Longrightarrow> gains_nothing a c"
  unfolding gains_nothing_def using no_gain_trans by blast

lemma gains_nothing_obs: "policy_obs s' = policy_obs s \<Longrightarrow> gains_nothing s s'"
  by (simp add: gains_nothing_def)

lemma sched_setscheduler_gains_nothing:
  assumes ops: "policy_ops_keep policy_obs K" and unpriv: "\<And>p y. \<not> capable_sys_nice (services K) p y"
  shows "gains_nothing s (exec (sched_setscheduler K p policy prio) s)"
proof (cases "in_interrupt (services K) (k_ext s)")
  case True
  then show ?thesis
    by (simp add: sched_setscheduler_def sched_setscheduler_any_def setscheduler_loop_def gains_nothing_obs)
next
  case False
  note run = sched_setscheduler_any_run [OF False, where p = p and policy = policy and prio = prio and user = True]
  show ?thesis
  proof (cases "setscheduler_error K p policy prio True s = 0")
    case True
    from run(3) [OF this] ops obtain pol reset old where
      r: "requested_policy policy (k_task s p) = Some (pol, reset, old)" "valid_rt_priority pol prio (k_task s p)"
        "result (setscheduler_user_error K p pol prio reset) s = 0"
      and o: "policy_obs (exec (sched_setscheduler K p policy prio) s) =
        (policy_obs s)(p := set_policy pol prio reset (policy_obs s p))"
      unfolding sched_setscheduler_def by blast
    show ?thesis
      using no_gain_setscheduler [OF unpriv r] by (simp add: gains_nothing_def o)
  next
    case False
    then show ?thesis using run(2) by (simp add: sched_setscheduler_def)
  qed
qed

lemma sys_nice_gains_nothing:
  assumes ops: "policy_ops_keep policy_obs K" and unpriv: "\<And>p y. \<not> capable_sys_nice (services K) p y"
  shows "gains_nothing s (exec (sys_nice K n) s)"
proof -
  let ?p = "k_current s" and ?r = "policy_obs s (k_current s)"
  define inc where "inc = (if 40 < (if sint n < - 40 then - 40 else sint n) then 40
    else (if sint n < - 40 then - 40 else sint n))"
  define nice where "nice = (if 19 < (if nice_of ?r + inc < - 20 then - 20 else nice_of ?r + inc) then 19
    else (if nice_of ?r + inc < - 20 then - 20 else nice_of ?r + inc))"
  have "exec (sys_nice K n) s =
      (if inc < 0 \<and> \<not> (word_of_int (20 - nice) :: u32) \<le> ps_rlim_nice ?r then s
       else if security_setnice (services K) ?p nice (k_ext s) \<noteq> 0 then s
       else exec (set_user_nice K ?p nice) s)"
    unfolding sys_nice_def can_nice_def Let_def exec_bind exec_gets result_gets kst_access nice_of_run
      result_bind result_ret policy_fields inc_def [symmetric] nice_def [symmetric]
    by (simp add: unpriv)
  then have "exec (sys_nice K n) s = s \<or> (inc < 0 \<longrightarrow> (word_of_int (20 - nice) :: u32) \<le> ps_rlim_nice ?r) \<and>
      exec (sys_nice K n) s = exec (set_user_nice K ?p nice) s"
    by presburger
  moreover have "no_gain ?r (set_nice nice ?r)"
    if "inc < 0 \<longrightarrow> (word_of_int (20 - nice) :: u32) \<le> ps_rlim_nice ?r" "- 20 \<le> nice" "nice \<le> 19"
  proof -
    have "uint (word_of_int (20 - nice) :: u32) = 20 - nice"
      using that(2,3) by (simp only: uint_word_of_int_eq) (simp add: take_bit_int_eq_self)
    then have "inc < 0 \<Longrightarrow> 20 - nice \<le> uint (ps_rlim_nice ?r)"
      using that(1) by (simp add: word_le_def)
    moreover have "\<not> inc < 0 \<Longrightarrow> nice_of ?r \<le> nice \<or> nice = 19"
      by (auto simp: nice_def)
    ultimately show ?thesis
      using that(3) by (cases "inc < 0") (auto simp: no_gain_def min_le_iff_disj le_max_iff_disj)
  qed
  ultimately show ?thesis
    by (auto simp: gains_nothing_def obs_set_user_nice [OF ops])
qed

text \<open>C16. Without \<open>CAP_SYS_NICE\<close> nobody gets ahead. However many calls of \<open>nice\<close>, \<open>sched_setscheduler\<close> and
  \<open>sched_setparam\<close> are made, by whichever tasks and with whatever arguments: no task's real-time
  priority rises above its own old one and its resource limit, no nice value falls below the old
  one (19 at most) and the limit, no task enters a real-time policy against a limit of 0, none
  leaves \<open>SCHED_IDLE\<close>, and no flag for reset on fork is taken back.\<close>

theorem unprivileged_calls_gain_nothing:
  fixes K :: "'x kops" and s :: "'x kst" and p :: task and cs :: "(task \<times> priority_call) list"
  assumes ops: "policy_ops_keep policy_obs K" and unpriv: "\<And>p y. \<not> capable_sys_nice (services K) p y"
  defines "t \<equiv> k_task s p" and "t' \<equiv> k_task (exec (priority_calls K cs) s) p"
  shows "t_rt_priority t' \<le> max (t_rt_priority t) (uint (t_rlim_rtprio t)) \<and>
    min (min 19 (TASK_NICE t)) (20 - uint (t_rlim_nice t)) \<le> TASK_NICE t' \<and>
    (task_has_rt_policy t' \<longrightarrow> task_has_rt_policy t \<or> t_rlim_rtprio t \<noteq> 0) \<and>
    (t_policy t = SCHED_IDLE \<longrightarrow> t_policy t' = SCHED_IDLE) \<and>
    (t_sched_reset_on_fork t \<longrightarrow> t_sched_reset_on_fork t')"
proof -
  note gains = sys_nice_gains_nothing [OF ops unpriv] sched_setscheduler_gains_nothing [OF ops unpriv]
  have call: "gains_nothing s (exec (make_call K c) s)" for c and s :: "'x kst"
    by (cases c) (simp_all add: gains sys_sched_setscheduler_def sys_sched_setparam_def
      do_sched_setscheduler_def find_process_by_pid_def split: option.split)
  have step: "gains_nothing s (exec ((\<lambda>(me, c). do { modify (\<lambda>s. s\<lparr>k_current := me\<rparr>); make_call K c }) x) s)"
    for x and s :: "'x kst"
    by (cases x) (simp add: gains_nothing_trans [OF gains_nothing_obs call])
  have "gains_nothing s (exec (priority_calls K cs) s)"
    unfolding priority_calls_def
    by (rule wp_for_each_inv) (simp, erule gains_nothing_trans, rule step)
  then have "no_gain (policy_obs s p) (policy_obs (exec (priority_calls K cs) s) p)"
    by (simp add: gains_nothing_def)
  then show ?thesis
    unfolding t_def t'_def task_has_rt_policy_def nice_of_run policy_fields by (simp add: no_gain_def)
qed

subsection \<open>Concrete runs\<close>

lemma demo_policy_ops: "policy_ops_keep obs demo_kops"
  using demo_queue_ops [of obs] by (simp add: policy_ops_keep_def keeps_def demo_kops_def idle_classes_def)

lemma demo_services [simp]:
  "\<not> in_interrupt (services demo_kops) y" "\<not> capable_sys_nice (services demo_kops) q y"
  "lock_sighand_ok (services demo_kops) q y" "security_setscheduler (services demo_kops) q y = 0"
  "security_getscheduler (services demo_kops) q y = 0" "security_setnice (services demo_kops) q i y = 0"
  "find_task_by_vpid (services demo_kops) w y = (if unat w < 100 then Some (unat w) else None)"
  by (simp_all add: demo_kops_def quiet_services_def)

theorem setscheduler_all_or_nothing_witness:
  "t_policy (k_task (exec (sched_setscheduler_any demo_kops 2 0x40000001 10 False) (blank_kst ())) 2) = SCHED_FIFO \<and>
   t_normal_prio (k_task (exec (sched_setscheduler_any demo_kops 2 0x40000001 10 False) (blank_kst ())) 2) = 89"
proof -
  let ?s = "blank_kst ()" and ?m = "sched_setscheduler_any demo_kops 2 0x40000001 10 False"
  have "result ?m ?s = Some 0"
    using sched_setscheduler_any_run(1) [where K = demo_kops and s = ?s and p = 2 and policy = "0x40000001"
        and prio = 10 and user = False]
    by (simp add: setscheduler_error_def requested_policy_def SCHED_RESET_ON_FORK_def policy_consts
        valid_rt_priority_def rt_policy_def prio_consts)
  with setscheduler_all_or_nothing [OF demo_policy_ops, where s = ?s and p = 2 and policy = "0x40000001"
      and prio = 10 and user = False]
  show ?thesis
    by (simp_all add: Let_def SCHED_RESET_ON_FORK_def policy_consts rt_policy_def)
qed

theorem setscheduler_read_back_witness:
  "result (sys_sched_getscheduler demo_kops 2)
     (exec (sys_sched_setscheduler demo_kops 2 0x40000003 (Some (Some 0))) (blank_kst ())) = 0x40000003"
proof -
  have "result (sys_sched_setscheduler demo_kops 2 0x40000003 (Some (Some 0))) (blank_kst ()) = Some 0"
    using sched_setscheduler_any_run(1) [where K = demo_kops and s = "blank_kst ()" and p = 2
        and policy = "0x40000003" and prio = 0 and user = True]
    by (simp add: setscheduler_error_def requested_policy_def SCHED_RESET_ON_FORK_def policy_consts
        valid_rt_priority_def rt_policy_def prio_consts sys_sched_setscheduler_def do_sched_setscheduler_def
        find_process_by_pid_def sched_setscheduler_def setscheduler_user_error_def unprivileged_error_def
        check_same_owner_def blank_kst_def blank_task_def)
  from setscheduler_read_back [OF demo_policy_ops _ _ _ _ this, where p = 2] show ?thesis by simp
qed

theorem unprivileged_calls_gain_nothing_witness:
  "t_rt_priority (k_task (exec (priority_calls demo_kops [(1, Set_scheduler 2 1 (Some (Some 50))), (2, Nice (- 5))])
     (blank_kst ())) 2) \<le> 0"
  using unprivileged_calls_gain_nothing [OF demo_policy_ops, where s = "blank_kst ()" and p = 2
      and cs = "[(1, Set_scheduler 2 1 (Some (Some 50))), (2, Nice (- 5))]"]
  by (simp add: blank_kst_def blank_task_def)

end
