(* ===== verification/Sched_affinity.thy ===== *)
theory Sched_affinity
  imports Sched_params Sched_balance
begin

text \<open>
  \<open>sched_mod.c\<close>, lines 3116 to 3155, 6445 to 6690, 7046 to 7240 and 10857 to 10950: which CPUs a task may run on,
  and how it gets there. The migration thread of a CPU serves a list of requests; the task
  that made a request sleeps on its completion. A request is a variable of the function that
  makes it; its number is passed as \<open>req\<close>. \<open>None\<close> as an answer: the code does not return
  (fuel, or a crash).
\<close>

definition NO_MEMORY :: int where "NO_MEMORY = 12"
definition RCU_MIGRATION_IDLE :: nat where "RCU_MIGRATION_IDLE = 0"
definition RCU_MIGRATION_NEED_QS :: nat where "RCU_MIGRATION_NEED_QS = 1"
definition RCU_MIGRATION_GOT_QS :: nat where "RCU_MIGRATION_GOT_QS = 2"
definition RCU_MIGRATION_MUST_SYNC :: nat where "RCU_MIGRATION_MUST_SYNC = 3"

definition cpumask_any_and :: "cpumask \<Rightarrow> cpumask \<Rightarrow> cpu" where
  "cpumask_any_and a b = cpumask_first (a \<inter> b)"

subsection \<open>Asking the migration thread\<close>

text \<open>From the point where the request is queued: unlock, wake the thread, wait.\<close>

definition wait_for_migration ::
    "nat \<Rightarrow> 'x kops \<Rightarrow> nat \<Rightarrow> cpu \<Rightarrow> bool \<Rightarrow> ('x kst, unit option) state" where
  "wait_for_migration fuel K req rq flags = do {
     mt \<leftarrow> rq_get rq rq_migration_thread;
     (case mt of
        None \<Rightarrow> do { log_event Sched_bug; ret None }
      | Some mt \<Rightarrow> do {
          log_event (Get_task mt);
          task_rq_unlock rq flags;
          thread \<leftarrow> rq_get rq rq_migration_thread;
          wake_thread K thread;
          log_event (Put_task mt);
          wait_for_completion fuel K req }) }"

definition sched_migrate_task :: "nat \<Rightarrow> 'x kops \<Rightarrow> nat \<Rightarrow> task \<Rightarrow> cpu \<Rightarrow> ('x kst, unit option) state" where
  "sched_migrate_task fuel K req p dest_cpu = do {
     (rq, flags) \<leftarrow> task_rq_lock p;
     allowed \<leftarrow> task_get p (\<lambda>t. dest_cpu \<in> t_cpus_allowed t);
     active \<leftarrow> gets (\<lambda>s. dest_cpu \<in> k_active s);
     if \<not> allowed \<or> \<not> active then do { task_rq_unlock rq flags; ret (Some ()) }
     else do {
       queued \<leftarrow> migrate_task p dest_cpu req;
       if queued then wait_for_migration fuel K req rq flags
       else do { task_rq_unlock rq flags; ret (Some ()) } } }"

definition sched_exec :: "nat \<Rightarrow> 'x kops \<Rightarrow> nat \<Rightarrow> ('x kst, unit option) state" where
  "sched_exec fuel K req = do {
     log_event Preempt_disable;
     this_cpu \<leftarrow> gets k_this_cpu;
     me \<leftarrow> gets k_current;
     cls \<leftarrow> task_get me t_sched_class;
     new_cpu \<leftarrow> op_select_task_rq (classes K) cls me SD_BALANCE_EXEC 0;
     log_event Preempt_enable;
     if new_cpu \<noteq> this_cpu then do {
       me' \<leftarrow> gets k_current;
       sched_migrate_task fuel K req me' new_cpu }
     else ret (Some ()) }"

definition set_cpus_allowed_ptr ::
    "nat \<Rightarrow> 'x kops \<Rightarrow> nat \<Rightarrow> task \<Rightarrow> cpumask \<Rightarrow> ('x kst, int option) state" where
  "set_cpus_allowed_ptr fuel K req p new_mask = do {
     (rq, flags) \<leftarrow> task_rq_lock p;
     online \<leftarrow> gets k_online;
     me \<leftarrow> gets k_current;
     t \<leftarrow> task_get p (\<lambda>t. t);
     if new_mask \<inter> online = {} then do { task_rq_unlock rq flags; ret (Some (- EINVAL)) }
     else if t_flags t AND PF_THREAD_BOUND \<noteq> 0 \<and> p \<noteq> me \<and> t_cpus_allowed t \<noteq> new_mask
     then do { task_rq_unlock rq flags; ret (Some (- EINVAL)) }
     else do {
       (case op_set_cpus_allowed (classes K) (t_sched_class t) of
          Some f \<Rightarrow> f p new_mask
        | None \<Rightarrow> do {
            upd_task p (\<lambda>t. t\<lparr>t_cpus_allowed := new_mask\<rparr>);
            upd_task p (\<lambda>t. t\<lparr>t_nr_cpus_allowed := cpumask_weight new_mask\<rparr>) });
       cpu \<leftarrow> task_get p t_cpu;
       if cpu \<in> new_mask then do { task_rq_unlock rq flags; ret (Some 0) }
       else do {
         queued \<leftarrow> migrate_task p (cpumask_any_and online new_mask) req;
         if queued then and_then (wait_for_migration fuel K req rq flags) (\<lambda>_. ret (Some 0))
         else do { task_rq_unlock rq flags; ret (Some 0) } } } }"

subsection \<open>Moving a task\<close>

text \<open>\<open>__migrate_task\<close>: whether the task is gone from the source CPU.\<close>

definition migrate_task_now :: "'x kops \<Rightarrow> task \<Rightarrow> cpu \<Rightarrow> cpu \<Rightarrow> ('x kst, bool) state" where
  "migrate_task_now K p src_cpu dest_cpu = do {
     active \<leftarrow> gets (\<lambda>s. dest_cpu \<in> k_active s);
     if \<not> active then ret False
     else do {
       double_rq_lock K src_cpu dest_cpu;
       cpu \<leftarrow> task_get p t_cpu;
       allowed \<leftarrow> task_get p (\<lambda>t. dest_cpu \<in> t_cpus_allowed t);
       if cpu \<noteq> src_cpu then do { double_rq_unlock src_cpu dest_cpu; ret True }
       else if \<not> allowed then do { double_rq_unlock src_cpu dest_cpu; ret False }
       else do {
         on_rq \<leftarrow> task_get p (\<lambda>t. se_on_rq (t_se t));
         when_m on_rq (deactivate_task K src_cpu p False);
         set_task_cpu p dest_cpu;
         when_m on_rq (do {
           activate_task K dest_cpu p False;
           check_preempt_curr K dest_cpu p 0 });
         double_rq_unlock src_cpu dest_cpu;
         ret True } } }"

subsection \<open>The migration thread\<close>

text \<open>A request: a task to move or, without a task, a quiescent state for RCU.\<close>

definition answer_request :: "'x kops \<Rightarrow> cpu \<Rightarrow> nat \<Rightarrow> ('x kst, unit) state" where
  "answer_request K cpu req = do {
     r \<leftarrow> gets (\<lambda>s. k_req s req);
     (case mr_task r of
        Some p \<Rightarrow> do {
          spin_unlock (Rq_lock cpu);
          _ \<leftarrow> migrate_task_now K p cpu (mr_dest_cpu r);
          skip }
      | None \<Rightarrow> do {
          badcpu \<leftarrow> gets k_this_cpu;
          if cpu = badcpu then do {
            upd_req req (\<lambda>r. r\<lparr>mr_dest_cpu := RCU_MIGRATION_GOT_QS\<rparr>);
            spin_unlock (Rq_lock cpu) }
          else do {
            upd_req req (\<lambda>r. r\<lparr>mr_dest_cpu := RCU_MIGRATION_MUST_SYNC\<rparr>);
            spin_unlock (Rq_lock cpu);
            log_event Warn } }) }"

definition serve_request :: "'x kops \<Rightarrow> cpu \<Rightarrow> nat \<Rightarrow> ('x kst, unit) state" where
  "serve_request K cpu req = do {
     answer_request K cpu req;
     local_irq_enable;
     complete K req }"

definition migration_turn :: "'x kops \<Rightarrow> cpu \<Rightarrow> ('x kst, unit + unit) state" where
  "migration_turn K cpu = do {
     me \<leftarrow> gets k_current;
     stop \<leftarrow> gets (\<lambda>s. kthread_should_stop (services K) me (k_ext s));
     if stop then ret (Inr ())
     else do {
       spin_lock_irq (Rq_lock cpu);
       online \<leftarrow> gets (\<lambda>s. cpu \<in> k_online s);
       if \<not> online then do { spin_unlock_irq (Rq_lock cpu); ret (Inr ()) }
       else do {
         balance \<leftarrow> rq_get cpu rq_active_balance;
         when_m balance (do {
           active_load_balance K cpu;
           upd_rq cpu (\<lambda>r. r\<lparr>rq_active_balance := False\<rparr>) });
         queue \<leftarrow> rq_get cpu rq_migration_queue;
         (case queue of
            [] \<Rightarrow> do {
              spin_unlock_irq (Rq_lock cpu);
              call_schedule (others K);
              upd_task me (\<lambda>t. t\<lparr>t_state := TASK_INTERRUPTIBLE\<rparr>);
              ret (Inl ()) }
          | req # rest \<Rightarrow> do {
              upd_rq cpu (\<lambda>r. r\<lparr>rq_migration_queue := rest\<rparr>);
              serve_request K cpu req;
              ret (Inl ()) }) } } }"

definition migration_thread :: "nat \<Rightarrow> 'x kops \<Rightarrow> cpu \<Rightarrow> ('x kst, int option) state" where
  "migration_thread fuel K cpu = do {
     me \<leftarrow> gets k_current;
     thread \<leftarrow> rq_get cpu rq_migration_thread;
     if thread \<noteq> Some me then do { log_event Sched_bug; ret None }
     else do {
       upd_task me (\<lambda>t. t\<lparr>t_state := TASK_INTERRUPTIBLE\<rparr>);
       and_then (loop_m fuel (\<lambda>_. migration_turn K cpu) ()) (\<lambda>_. do {
         upd_task me (\<lambda>t. t\<lparr>t_state := TASK_RUNNING\<rparr>);
         ret (Some 0) }) } }"

subsection \<open>Quiescent states on demand\<close>

text \<open>\<open>rcu_req cpu\<close> is the number of the per-CPU request. A turn of the loop that tries to get the mutex:
  \<open>Inr (Some False)\<close> is a return, \<open>Inr (Some True)\<close> having the mutex. While \<open>udelay\<close> waits the other
  CPUs run.\<close>

definition expedited_lock_turn :: "'x kops \<Rightarrow> s32 \<Rightarrow> nat \<Rightarrow> ('x kst, nat + bool) state" where
  "expedited_lock_turn K snap trycount = do {
     got \<leftarrow> service (mutex_trylock (services K));
     if got then ret (Inr True)
     else do {
       log_event Put_online_cpus;
       if \<not> trycount < 10 then do { log_event Synchronize_sched; ret (Inr False) }
       else do {
         cpu_relax (others K);
         count \<leftarrow> gets k_rcu_count;
         if 0 < sint (count - snap) then ret (Inr False)
         else do { log_event Get_online_cpus; ret (Inl (Suc trycount)) } } } }"

definition expedited_request :: "'x kops \<Rightarrow> (cpu \<Rightarrow> nat) \<Rightarrow> cpu \<Rightarrow> ('x kst, unit) state" where
  "expedited_request K rcu_req cpu = do {
     init_completion (rcu_req cpu);
     upd_req (rcu_req cpu) (\<lambda>r. r\<lparr>mr_task := None\<rparr>);
     upd_req (rcu_req cpu) (\<lambda>r. r\<lparr>mr_dest_cpu := RCU_MIGRATION_NEED_QS\<rparr>);
     flags \<leftarrow> spin_lock_irqsave (Rq_lock cpu);
     upd_rq cpu (\<lambda>r. r\<lparr>rq_migration_queue := rcu_req cpu # rq_migration_queue r\<rparr>);
     spin_unlock_irqrestore (Rq_lock cpu) flags;
     thread \<leftarrow> rq_get cpu rq_migration_thread;
     wake_thread K thread }"

fun expedited_wait ::
    "nat \<Rightarrow> 'x kops \<Rightarrow> (cpu \<Rightarrow> nat) \<Rightarrow> cpu list \<Rightarrow> bool \<Rightarrow> ('x kst, bool option) state" where
  "expedited_wait fuel K rcu_req [] need = ret (Some need)"
| "expedited_wait fuel K rcu_req (cpu # cpus) need = do {
     modify (\<lambda>s. s\<lparr>k_rcu_state := int cpu\<rparr>);
     and_then (wait_for_completion fuel K (rcu_req cpu)) (\<lambda>_. do {
       flags \<leftarrow> spin_lock_irqsave (Rq_lock cpu);
       must \<leftarrow> gets (\<lambda>s. mr_dest_cpu (k_req s (rcu_req cpu)) = RCU_MIGRATION_MUST_SYNC);
       upd_req (rcu_req cpu) (\<lambda>r. r\<lparr>mr_dest_cpu := RCU_MIGRATION_IDLE\<rparr>);
       spin_unlock_irqrestore (Rq_lock cpu) flags;
       expedited_wait fuel K rcu_req cpus (need \<or> must) }) }"

definition synchronize_sched_expedited ::
    "nat \<Rightarrow> 'x kops \<Rightarrow> (cpu \<Rightarrow> nat) \<Rightarrow> ('x kst, unit option) state" where
  "synchronize_sched_expedited fuel K rcu_req = do {
     snap \<leftarrow> gets (\<lambda>s. k_rcu_count s + 1);
     log_event Get_online_cpus;
     and_then (loop_m 11 (expedited_lock_turn K snap) 0) (\<lambda>got.
       if \<not> got then ret (Some ())
       else do {
         modify (\<lambda>s. s\<lparr>k_rcu_state := - 2\<rparr>);
         cpus \<leftarrow> gets (\<lambda>s. [c \<leftarrow> possible_cpus. c \<in> k_online s]);
         for_each cpus (expedited_request K rcu_req);
         cpus' \<leftarrow> gets (\<lambda>s. [c \<leftarrow> possible_cpus. c \<in> k_online s]);
         and_then (expedited_wait fuel K rcu_req cpus' False) (\<lambda>need. do {
           modify (\<lambda>s. s\<lparr>k_rcu_state := - 1\<rparr>);
           log_event Put_online_cpus;
           when_m need (log_event Synchronize_sched);
           ret (Some ()) }) }) }"

subsection \<open>The system calls for affinity\<close>

text \<open>Between \<open>alloc_cpumask_var\<close> and the end; the answer is the return value.\<close>

definition setaffinity_apply ::
    "nat \<Rightarrow> 'x kops \<Rightarrow> nat \<Rightarrow> task \<Rightarrow> cpumask \<Rightarrow> ('x kst, int option) state" where
  "setaffinity_apply fuel K req p in_mask = do {
     same \<leftarrow> check_same_owner p;
     me \<leftarrow> gets k_current;
     capable \<leftarrow> gets (\<lambda>s. capable_sys_nice (services K) me (k_ext s));
     e \<leftarrow> gets (\<lambda>s. security_setscheduler (services K) p (k_ext s));
     if \<not> same \<and> \<not> capable then ret (Some (- EPERM))
     else if e \<noteq> 0 then ret (Some e)
     else do {
       allowed \<leftarrow> gets (\<lambda>s. cpuset_cpus_allowed (services K) p (k_ext s));
       r \<leftarrow> loop_m fuel (\<lambda>new_mask. do {
         r \<leftarrow> set_cpus_allowed_ptr fuel K req p new_mask;
         allowed' \<leftarrow> gets (\<lambda>s. cpuset_cpus_allowed (services K) p (k_ext s));
         ret (if r = Some 0 \<and> \<not> new_mask \<subseteq> allowed' then Inl allowed' else Inr r) }) (in_mask \<inter> allowed);
       ret (case r of None \<Rightarrow> None | Some r' \<Rightarrow> r') } }"

definition sched_setaffinity ::
    "nat \<Rightarrow> 'x kops \<Rightarrow> nat \<Rightarrow> s32 \<Rightarrow> cpumask \<Rightarrow> ('x kst, int option) state" where
  "sched_setaffinity fuel K req pid in_mask = do {
     log_event Get_online_cpus;
     log_event (Spin_lock Tasklist_lock);
     p \<leftarrow> find_process_by_pid K pid;
     (case p of
        None \<Rightarrow> do {
          log_event (Spin_unlock Tasklist_lock);
          log_event Put_online_cpus;
          ret (Some (- ESRCH)) }
      | Some p \<Rightarrow> do {
          log_event (Get_task p);
          log_event (Spin_unlock Tasklist_lock);
          first \<leftarrow> service (alloc_cpumask_var (services K));
          second \<leftarrow> (if first then service (alloc_cpumask_var (services K)) else ret False);
          and_then (if \<not> second then ret (Some (- NO_MEMORY)) else setaffinity_apply fuel K req p in_mask)
          (\<lambda>retval. do {
            log_event (Put_task p);
            log_event Put_online_cpus;
            ret (Some retval) }) }) }"

text \<open>A mask is one long of 32 bits in memory, with the most significant byte first. The user's
  memory is the list of bytes that can be read there; a short one leaves the rest cleared.\<close>

definition cpumask_size :: nat where "cpumask_size = 4"

definition mask_of_bytes :: "u8 list \<Rightarrow> cpumask" where
  "mask_of_bytes bs = set [k \<leftarrow> [0..<32]. bit (bs ! (3 - k div 8)) (k mod 8)]"

definition bytes_of_mask :: "cpumask \<Rightarrow> u8 list" where
  "bytes_of_mask m = map (\<lambda>i. horner_sum of_bool 2 (map (\<lambda>j. 8 * (3 - i) + j \<in> m) [0..<8])) [0..<4]"

definition get_user_cpu_mask :: "u8 list \<Rightarrow> u32 \<Rightarrow> cpumask option" where
  "get_user_cpu_mask user len =
     (let n = min (unat len) cpumask_size
      in if length user < n then None
         else Some (mask_of_bytes (take n user @ replicate (cpumask_size - n) 0)))"

definition sys_sched_setaffinity ::
    "nat \<Rightarrow> 'x kops \<Rightarrow> nat \<Rightarrow> s32 \<Rightarrow> u32 \<Rightarrow> u8 list \<Rightarrow> ('x kst, int option) state" where
  "sys_sched_setaffinity fuel K req pid len user = do {
     ok \<leftarrow> service (alloc_cpumask_var (services K));
     if \<not> ok then ret (Some (- NO_MEMORY))
     else (case get_user_cpu_mask user len of
       None \<Rightarrow> ret (Some (- EFAULT))
     | Some new_mask \<Rightarrow> sched_setaffinity fuel K req pid new_mask) }"

definition sched_getaffinity :: "'x kops \<Rightarrow> s32 \<Rightarrow> ('x kst, int \<times> cpumask) state" where
  "sched_getaffinity K pid = do {
     log_event Get_online_cpus;
     log_event (Spin_lock Tasklist_lock);
     p \<leftarrow> find_process_by_pid K pid;
     r \<leftarrow> (case p of
        None \<Rightarrow> ret (- ESRCH, {})
      | Some p \<Rightarrow> gets (\<lambda>s. let e = security_getscheduler (services K) p (k_ext s)
          in if e \<noteq> 0 then (e, {}) else (0, t_cpus_allowed (k_task s p) \<inter> k_online s)));
     log_event (Spin_unlock Tasklist_lock);
     log_event Put_online_cpus;
     ret r }"

text \<open>The second component: the bytes written to the user's memory.\<close>

definition sys_sched_getaffinity ::
    "'x kops \<Rightarrow> s32 \<Rightarrow> u32 \<Rightarrow> bool \<Rightarrow> ('x kst, int \<times> u8 list) state" where
  "sys_sched_getaffinity K pid len writable =
     (if unat len < cpumask_size then ret (- EINVAL, [])
      else do {
        ok \<leftarrow> service (alloc_cpumask_var (services K));
        if \<not> ok then ret (- NO_MEMORY, [])
        else do {
          (e, mask) \<leftarrow> sched_getaffinity K pid;
          ret (if e \<noteq> 0 then (e, [])
               else if \<not> writable then (- EFAULT, [])
               else (int cpumask_size, bytes_of_mask mask)) } })"

subsection \<open>Where a task may run\<close>

lemma obs_double_lock [simp]:
  "nr_obs (exec (double_rq_lock K c d) s) = nr_obs s" "place_obs (exec (double_rq_lock K c d) s) = place_obs s"
  "nr_obs (exec (double_rq_unlock c d) s) = nr_obs s" "place_obs (exec (double_rq_unlock c d) s) = place_obs s"
  "k_task (exec (double_rq_lock K c d) s) = k_task s" "k_task (exec (double_rq_unlock c d) s) = k_task s"
  by (auto simp: double_rq_lock_def double_rq_unlock_def update_rq_clock_def nr_obs_def place_obs_def fun_eq_iff)

lemma contributes_task: "k_task s p = k_task t p \<Longrightarrow> contributes s p = contributes t p"
  by (simp add: contributes_def)

text \<open>The migration thread moves a task exactly if that is still asked for. If the destination is not
  active, or the task is on the source CPU and may not run on the destination, the answer is
  no; if the task has left the source CPU already, the answer is yes; in these cases no task
  changes its CPU and no count changes. Otherwise the task belongs to the destination, a
  queued task is counted there and no longer at the source, and the sum of the uninterruptible
  counts of the two is kept.\<close>

theorem migrate_task_now_effect:
  fixes K :: "'x kops" and s :: "'x kst" and p :: task and src :: cpu and dest :: cpu
  assumes "queue_ops_keep count_obs K" and "src \<noteq> dest"
  defines "s' \<equiv> exec (migrate_task_now K p src dest) s" and "moved \<equiv> result (migrate_task_now K p src dest) s"
    and "run \<equiv> \<lambda>s c. rq_nr_running (k_rq s c)" and "un \<equiv> \<lambda>s c. rq_nr_uninterruptible (k_rq s c)"
    and "n \<equiv> if se_on_rq (t_se (k_task s p)) then 1 else 0"
  shows "if dest \<notin> k_active s \<or> t_cpu (k_task s p) = src \<and> dest \<notin> t_cpus_allowed (k_task s p)
    then \<not> moved \<and> (\<forall>c. run s' c = run s c \<and> un s' c = un s c) \<and> (\<forall>q. t_cpu (k_task s' q) = t_cpu (k_task s q))
    else if t_cpu (k_task s p) \<noteq> src
    then moved \<and> (\<forall>c. run s' c = run s c \<and> un s' c = un s c) \<and> (\<forall>q. t_cpu (k_task s' q) = t_cpu (k_task s q))
    else moved \<and> t_cpu (k_task s' p) = dest \<and> (\<forall>q. q \<noteq> p \<longrightarrow> t_cpu (k_task s' q) = t_cpu (k_task s q)) \<and>
      run s' src = run s src - n \<and> run s' dest = run s dest + n \<and>
      un s' src + un s' dest = un s src + un s dest \<and>
      (\<forall>c. c \<noteq> src \<longrightarrow> c \<noteq> dest \<longrightarrow> run s' c = run s c \<and> un s' c = un s c)"
proof (cases "dest \<in> k_active s \<and> t_cpu (k_task s p) = src \<and> dest \<in> t_cpus_allowed (k_task s p)")
  case False
  then have "moved \<longleftrightarrow> dest \<in> k_active s \<and> t_cpu (k_task s p) \<noteq> src"
    and "nr_obs s' = nr_obs s" "place_obs s' = place_obs s"
    by (auto simp: moved_def s'_def migrate_task_now_def)
  with False show ?thesis by (auto simp: run_def un_def count_fields)
next
  case True
  define s0 where "s0 = exec (double_rq_lock K src dest) s"
  define q where "q = se_on_rq (t_se (k_task s p))"
  define s1 where "s1 = exec (when_m q (deactivate_task K src p False)) s0"
  define s2 where "s2 = exec (set_task_cpu p dest) s1"
  define s3 where "s3 = exec (when_m q (do { activate_task K dest p False; check_preempt_curr K dest p 0 })) s2"
  note act = obs_activate [OF assms(1)]
  have c: "contributes s2 p = contributes s p" and c0: "contributes s0 p = contributes s p"
    by (simp_all add: contributes_def task_contributes_to_load_def count_fields s2_def s1_def s0_def
        obs_set_task_cpu act)
  have nr: "nr_obs s3 = (if q then (nr_obs s)(src := (fst (nr_obs s src) - 1, snd (nr_obs s src) + contributes s p),
      dest := (fst (nr_obs s dest) + 1, snd (nr_obs s dest) - contributes s p)) else nr_obs s)"
    using assms(2) c c0 by (cases q) (simp_all add: check_preempt_curr_def count_keepD [OF assms(1)] s3_def act
        s2_def obs_set_task_cpu s1_def s0_def fun_eq_iff)
  have pl: "place_obs s3 = (place_obs s)(p := (fst (place_obs s p), fst (snd (place_obs s p)), dest))"
    by (simp add: check_preempt_curr_def count_keepD [OF assms(1)] s3_def act
        s2_def obs_set_task_cpu s1_def s0_def)
  have "moved" "s' = exec (double_rq_unlock src dest) s3"
    using True by (simp_all add: moved_def s'_def migrate_task_now_def s3_def s2_def s1_def s0_def q_def)
  with True assms(2) nr pl show ?thesis
    by (simp add: run_def un_def n_def q_def [symmetric] count_fields)
qed

text \<open>A new affinity mask is installed or refused. It is refused, and nothing about the tasks
  changes, if it has no CPU that is online, or if it is not the present mask of another task
  that is bound to its CPU. Otherwise, for a class without an operation of its own, the task
  has the mask and the number of its CPUs, and if it need not be waited for (it is
  neither queued nor running, or its CPU is in the mask) the call answers 0 and the task belongs to
  a CPU of the mask.\<close>

theorem set_cpus_allowed_effect:
  fixes K :: "'x kops" and s :: "'x kst" and p :: task and mask :: cpumask and fuel :: nat and req :: nat
  assumes "op_set_cpus_allowed (classes K) (t_sched_class (k_task s p)) = None"
  defines "t \<equiv> k_task s p" and "s' \<equiv> exec (set_cpus_allowed_ptr fuel K req p mask) s"
    and "answer \<equiv> result (set_cpus_allowed_ptr fuel K req p mask) s"
  shows "if mask \<inter> k_online s = {} \<or>
      t_flags t AND PF_THREAD_BOUND \<noteq> 0 \<and> p \<noteq> k_current s \<and> t_cpus_allowed t \<noteq> mask
    then answer = Some (- EINVAL) \<and> k_task s' = k_task s
    else t_cpu t \<in> mask \<or> \<not> se_on_rq (t_se t) \<and> rq_curr (k_rq s (t_cpu t)) \<noteq> p \<longrightarrow>
      answer = Some 0 \<and> t_cpus_allowed (k_task s' p) = mask \<and>
      t_nr_cpus_allowed (k_task s' p) = cpumask_weight mask \<and>
      t_cpu (k_task s' p) = (if t_cpu t \<in> mask then t_cpu t else cpumask_any_and (k_online s) mask)"
  using assms(1) by (auto simp: s'_def answer_def t_def set_cpus_allowed_ptr_def migrate_task_def task_running_def
      task_current_def set_task_cpu_def set_task_cpu_raw_def)

lemma cpumask_first_in: "m \<inter> {0..<NR_CPUS} \<noteq> {} \<Longrightarrow> cpumask_first m \<in> m"
proof -
  assume "m \<inter> {0..<NR_CPUS} \<noteq> {}"
  then obtain c where "c \<in> m" "c < NR_CPUS" by auto
  then have "c \<in> set [i \<leftarrow> possible_cpus. i \<in> m]" by (simp add: possible_cpus_def)
  then obtain a as where e: "[i \<leftarrow> possible_cpus. i \<in> m] = a # as"
    by (cases "[i \<leftarrow> possible_cpus. i \<in> m]") auto
  then have "a \<in> set [i \<leftarrow> possible_cpus. i \<in> m]" by (simp only: e list.set_intros)
  then have "a \<in> m" by simp
  then show ?thesis by (simp add: cpumask_first_def e)
qed

subsection \<open>The migration thread serves its queue\<close>

definition serve_obs :: "cpu \<Rightarrow> 'x kst \<Rightarrow> nat list \<times> bool \<times> (nat \<Rightarrow> u32) \<times> cpumask" where
  "serve_obs cpu s = (rq_migration_queue (k_rq s cpu), rq_active_balance (k_rq s cpu), k_done s, k_online s)"

lemma serve_blind [simp]: "wake_blind (serve_obs cpu)"
  by (simp add: wake_blind_def serve_obs_def)

lemma serve_moves:
  assumes "queue_ops_keep (serve_obs cpu) K"
  shows "serve_obs cpu (exec (migrate_task_now K p c d) s) = serve_obs cpu s"
proof -
  have "keeps (serve_obs cpu) (migrate_task_now K p c d)"
    unfolding migrate_task_now_def
    by (intro keeps_intros blind_moves [OF serve_blind] blind_queue_ops [OF serve_blind assms])
  then show ?thesis by (rule keepsD)
qed

lemma serve_wake:
  assumes "wake_keeps (serve_obs cpu) K"
  shows "serve_obs cpu (exec (wake_up_common K x mode nr f) s) = serve_obs cpu s"
proof -
  have "serve_obs cpu (exec (wake_loop K mode f nr ws) s) = serve_obs cpu s" for nr ws s
    using assms by (induction ws arbitrary: nr s) (simp_all add: wake_keeps_def keeps_def)
  then show ?thesis by (simp add: wake_up_common_def)
qed

lemma serve_complete:
  assumes "wake_keeps (serve_obs cpu) K"
  shows "serve_obs cpu (exec (complete K x) s) =
    (rq_migration_queue (k_rq s cpu), rq_active_balance (k_rq s cpu), (k_done s)(x := k_done s x + 1), k_online s)"
proof -
  have o: "serve_obs cpu (u\<lparr>k_irqs_off := b, k_log := l\<rparr>) = serve_obs cpu u" for u :: "'a kst" and b l
    by (simp add: serve_obs_def)
  show ?thesis
    by (simp add: complete_def upd_done_def o serve_wake [OF assms]) (simp add: serve_obs_def)
qed

lemma serve_request_obs:
  assumes "wake_keeps (serve_obs cpu) K" and "queue_ops_keep (serve_obs cpu) K"
  shows "serve_obs cpu (exec (serve_request K cpu x) s) =
    (rq_migration_queue (k_rq s cpu), rq_active_balance (k_rq s cpu), (k_done s)(x := k_done s x + 1), k_online s)"
proof -
  have "serve_obs cpu (exec (answer_request K cpu x) s) = serve_obs cpu s"
    by (cases "mr_task (k_req s x)")
      (simp_all add: answer_request_def serve_moves [OF assms(2)], simp_all add: serve_obs_def upd_req_def)
  then show ?thesis
    by (simp add: serve_request_def serve_complete [OF assms(1)]) (simp add: serve_obs_def)
qed

text \<open>The task a migration moves, seen through the places of the tasks.\<close>

lemma migrate_now_place:
  fixes p :: task and src dest :: cpu
  assumes "queue_ops_keep count_obs K"
  defines "moves \<equiv> \<lambda>s. dest \<in> k_active s \<and> t_cpu (k_task s p) = src \<and> dest \<in> t_cpus_allowed (k_task s p)"
  shows "moves s \<Longrightarrow> result (migrate_task_now K p src dest) s"
    and "place_obs (exec (migrate_task_now K p src dest) s) =
      (if moves s then (place_obs s)(p := (fst (place_obs s p), fst (snd (place_obs s p)), dest)) else place_obs s)"
  by (auto simp: moves_def migrate_task_now_def obs_activate [OF assms(1)] obs_set_task_cpu
      check_preempt_curr_def count_keepD [OF assms(1)])

text \<open>What it is to have answered a request, between the state in which the thread took it and the one
  in which it completes it: a task that is still on this CPU and may run on the active CPU asked for
  belongs to that CPU, and nothing else has moved; a request without a task has been told whether
  the thread runs on its own CPU.\<close>

definition answered :: "cpu \<Rightarrow> nat \<Rightarrow> 'x kst \<Rightarrow> 'x kst \<Rightarrow> bool" where
  "answered cpu x s t \<longleftrightarrow> (let r = k_req s x; dest = mr_dest_cpu r; at = \<lambda>s p. t_cpu (k_task s p) in
     case mr_task r of
       Some p \<Rightarrow> at t = (if dest \<in> k_active s \<and> at s p = cpu \<and> dest \<in> t_cpus_allowed (k_task s p)
         then (at s)(p := dest) else at s)
     | None \<Rightarrow> at t = at s \<and>
         mr_dest_cpu (k_req t x) = (if cpu = k_this_cpu s then RCU_MIGRATION_GOT_QS else RCU_MIGRATION_MUST_SYNC))"

lemma answered_cong:
  assumes "k_req s' = k_req s" "k_active s' = k_active s" "k_task s' = k_task s" "k_this_cpu s' = k_this_cpu s"
    and "k_task t' = k_task t" "k_req t' = k_req t"
  shows "answered cpu x s' t' = answered cpu x s t"
  unfolding answered_def Let_def assms ..

lemma answer_request_answered:
  assumes "queue_ops_keep count_obs K"
  shows "answered cpu x s (exec (answer_request K cpu x) s)"
proof (cases "mr_task (k_req s x)")
  case None
  then show ?thesis by (simp add: answered_def answer_request_def upd_req_def)
next
  case (Some p)
  let ?d = "mr_dest_cpu (k_req s x)"
  let ?u = "exec (spin_unlock (Rq_lock cpu)) s"
  have e: "exec (answer_request K cpu x) s = exec (migrate_task_now K p cpu ?d) ?u"
    by (simp add: answer_request_def Some)
  have "place_obs ?u = place_obs s" by (simp add: place_obs_def fun_eq_iff)
  then show ?thesis
    unfolding answered_def Let_def Some option.case e count_fields migrate_now_place(2) [OF assms(1)]
    by (simp add: fun_eq_iff)
qed

text \<open>One turn, on a CPU that is online, with a request waiting and no balancing asked for.\<close>

lemma migration_turn_serves:
  fixes K :: "'x kops" and s :: "'x kst"
  assumes keep: "wake_keeps (serve_obs cpu) K" "queue_ops_keep (serve_obs cpu) K" "queue_ops_keep count_obs K"
    and go: "\<And>me y. \<not> kthread_should_stop (services K) me y"
    and s: "serve_obs cpu s = (req # rest, False, d, online)" "cpu \<in> online"
  defines "s' \<equiv> exec (migration_turn K cpu) s"
  shows "result (migration_turn K cpu) s = Inl ()"
    and "serve_obs cpu s' = (rest, False, d(req := d req + 1), online)"
    and "\<exists>t. answered cpu req s t \<and> s' = exec (complete K req) t"
proof -
  let ?u = "s\<lparr>k_irqs_off := True, k_log := k_log s @ [Irq_off, Spin_lock (Rq_lock cpu)],
    k_rq := (k_rq s)(cpu := (k_rq s cpu)\<lparr>rq_migration_queue := rest\<rparr>)\<rparr>"
  have f: "rq_migration_queue (k_rq s cpu) = req # rest" "\<not> rq_active_balance (k_rq s cpu)" "k_done s = d"
    "k_online s = online"
    using s(1) by (simp_all add: serve_obs_def)
  have turn: "s' = exec (serve_request K cpu req) ?u"
    using f s(2) go by (simp add: s'_def migration_turn_def)
  show "result (migration_turn K cpu) s = Inl ()"
    using f s(2) go by (simp add: migration_turn_def)
  show "serve_obs cpu s' = (rest, False, d(req := d req + 1), online)"
    using f unfolding turn by (simp add: serve_request_obs [OF keep(1,2)])
  let ?t = "exec local_irq_enable (exec (answer_request K cpu req) ?u)"
  have "answered cpu req ?u (exec (answer_request K cpu req) ?u)"
    by (rule answer_request_answered [OF keep(3)])
  then have "answered cpu req s ?t" by (subst (asm) answered_cong [of ?u s _ ?t]) simp_all
  moreover have "s' = exec (complete K req) ?t" by (simp add: turn serve_request_def)
  ultimately show "\<exists>t. answered cpu req s t \<and> s' = exec (complete K req) t" by blast
qed

lemma loop_m_turns:
  assumes "\<And>i. i < k \<Longrightarrow> result (body ()) (exec (loop_m i (\<lambda>_. body ()) ()) s) = Inl ()"
  shows "exec (loop_m (Suc k) (\<lambda>_. body ()) ()) s = exec (body ()) (exec (loop_m k (\<lambda>_. body ()) ()) s)"
  using assms
proof (induction k arbitrary: s)
  case 0
  then show ?case by (simp split: sum.split)
next
  case (Suc k)
  have r: "result (body ()) s = Inl ()" using Suc.prems [of 0] by simp
  have "result (body ()) (exec (loop_m i (\<lambda>_. body ()) ()) (exec (body ()) s)) = Inl ()" if "i < k" for i
    using Suc.prems [of "Suc i"] that r by simp
  from Suc.IH [OF this] show ?case using r by simp
qed

text \<open>C19. The migration thread serves its queue. On an online CPU, as long as the thread is not stopped
  and no balancing is asked of it: after k turns (k up to the number of requests) the first k requests
  of the queue are gone, exactly their completions have been completed, each once, and every turn
  has answered the request at the head of the queue before completing it: a task that was still on this
  CPU, and was allowed on the destination while that is active, belongs to the destination, no other
  task has moved, and a request without a task is told whether the thread runs on its CPU. (Requests
  are put at the head of the queue, so that the newest is served first. Neither wake-ups nor queue
  operations touch the queue, the counts, the online CPUs and the places of the tasks.)\<close>

theorem migration_thread_serves:
  fixes K :: "'x kops" and s :: "'x kst" and cpu :: cpu and reqs :: "nat list"
  assumes keep: "wake_keeps (serve_obs cpu) K" "queue_ops_keep (serve_obs cpu) K" "queue_ops_keep count_obs K"
    and go: "\<And>me y. \<not> kthread_should_stop (services K) me y"
    and "cpu \<in> k_online s" "\<not> rq_active_balance (k_rq s cpu)"
    and "rq_migration_queue (k_rq s cpu) = reqs" "distinct reqs" "k \<le> length reqs"
  defines "turns \<equiv> \<lambda>k. exec (loop_m k (\<lambda>_. migration_turn K cpu) ()) s"
  shows "rq_migration_queue (k_rq (turns k) cpu) = drop k reqs \<and>
    (\<forall>x. k_done (turns k) x = (if x \<in> set (take k reqs) then k_done s x + 1 else k_done s x)) \<and>
    (\<forall>i < k. \<exists>t. answered cpu (reqs ! i) (turns i) t \<and> turns (Suc i) = exec (complete K (reqs ! i)) t)"
proof -
  define done_after where "done_after = (\<lambda>k x. if x \<in> set (take k reqs) then k_done s x + 1 else k_done s x)"
  have "serve_obs cpu (turns k) = (drop k reqs, False, done_after k, k_online s) \<and>
    (\<forall>i < k. result (migration_turn K cpu) (turns i) = Inl ()) \<and>
    (\<forall>i < k. \<exists>t. answered cpu (reqs ! i) (turns i) t \<and> turns (Suc i) = exec (complete K (reqs ! i)) t)"
    if "k \<le> length reqs" for k
    using that
  proof (induction k)
    case 0
    then show ?case using assms(5-7) by (simp add: turns_def serve_obs_def done_after_def)
  next
    case (Suc k)
    have IH: "serve_obs cpu (turns k) = (reqs ! k # drop (Suc k) reqs, False, done_after k, k_online s)"
      "\<And>i. i < k \<Longrightarrow> result (migration_turn K cpu) (turns i) = Inl ()"
      "\<forall>i < k. \<exists>t. answered cpu (reqs ! i) (turns i) t \<and> turns (Suc i) = exec (complete K (reqs ! i)) t"
      using Suc by (simp_all add: Cons_nth_drop_Suc)
    have nx: "turns (Suc k) = exec (migration_turn K cpu) (turns k)"
      using loop_m_turns [of k "\<lambda>_. migration_turn K cpu" s] IH(2) by (simp add: turns_def)
    note turn = migration_turn_serves [OF keep go IH(1) assms(5), folded nx]
    have "reqs ! k \<notin> set (take k reqs)"
      using Suc.prems assms(8) by (simp add: in_set_conv_nth nth_eq_iff_index_eq)
    then have "(done_after k)(reqs ! k := done_after k (reqs ! k) + 1) = done_after (Suc k)"
      using Suc.prems by (auto simp: done_after_def take_Suc_conv_app_nth)
    then show ?case using turn IH(2,3) by (auto simp: less_Suc_eq)
  qed
  from this [OF assms(9)] show ?thesis by (simp add: serve_obs_def done_after_def)
qed

subsection \<open>Masks in user memory\<close>

lemma bytes_of_mask_nth:
  "i < 4 \<Longrightarrow> j < 8 \<Longrightarrow> bit (bytes_of_mask m ! i) j \<longleftrightarrow> 8 * (3 - i) + j \<in> m"
  by (simp add: bytes_of_mask_def bit_horner_sum_bit_word_iff)

text \<open>A mask that \<open>sched_getaffinity\<close> writes is read back by \<open>sched_setaffinity\<close> as the same set of
  CPUs, whatever the length of the buffer, as long as it holds a long.\<close>

theorem affinity_mask_roundtrip:
  assumes "4 \<le> unat len"
  shows "get_user_cpu_mask (bytes_of_mask m @ rest) len = Some (m \<inter> {0..<32})"
proof -
  have l: "length (bytes_of_mask m) = 4" by (simp add: bytes_of_mask_def)
  have "k \<in> mask_of_bytes (bytes_of_mask m) \<longleftrightarrow> k \<in> m \<inter> {0..<32}" for k
  proof (cases "k < 32")
    case True
    then have "3 - k div 8 < 4" "8 * (3 - (3 - k div 8)) + k mod 8 = k" by auto
    then show ?thesis
      using bytes_of_mask_nth [of "3 - k div 8" "k mod 8" m] True by (simp add: mask_of_bytes_def)
  qed (simp add: mask_of_bytes_def)
  then have "mask_of_bytes (bytes_of_mask m) = m \<inter> {0..<32}" by blast
  then show ?thesis
    using assms l by (simp add: get_user_cpu_mask_def cpumask_size_def Let_def min_def)
qed

text \<open>Without the capability a task can only place its own user's tasks: for any other
  process \<open>sched_setaffinity\<close> answers an error and leaves all tasks and runqueues as they are.\<close>

theorem setaffinity_of_strangers_refused:
  fixes K :: "'x kops" and s :: "'x kst" and fuel :: nat and req :: nat and m :: cpumask and pid :: s32
  assumes "\<And>q y. \<not> capable_sys_nice (services K) q y"
    and "\<And>y. find_task_by_vpid (services K) pid y = Some p" and "pid \<noteq> 0"
    and "t_euid (k_task s (k_current s)) \<noteq> t_euid (k_task s p)"
    and "t_euid (k_task s (k_current s)) \<noteq> t_uid (k_task s p)"
  defines "s' \<equiv> exec (sched_setaffinity fuel K req pid m) s"
  shows "result (sched_setaffinity fuel K req pid m) s \<in> {Some (- EPERM), Some (- NO_MEMORY)} \<and>
    k_task s' = k_task s \<and> k_rq s' = k_rq s"
  using assms(3-5) unfolding s'_def
  by (auto simp: sched_setaffinity_def find_process_by_pid_def assms(1,2) setaffinity_apply_def
      check_same_owner_def)

subsection \<open>Concrete runs\<close>

theorem migrate_task_now_effect_witness:
  "result (migrate_task_now demo_kops 2 0 1) (blank_kst ()) \<and>
   rq_nr_running (k_rq (exec (migrate_task_now demo_kops 2 0 1) (blank_kst ())) 1) =
     (if se_on_rq blank_se then 2 else 1)"
  using migrate_task_now_effect [OF demo_queue_ops, of 0 1 "blank_kst ()" 2]
  by (simp add: blank_kst_def blank_task_def blank_rq_def split: if_splits)

theorem set_cpus_allowed_effect_witness:
  "t_cpus_allowed (k_task (exec (set_cpus_allowed_ptr 0 demo_kops 7 2 {0}) (blank_kst ())) 2) = {0}"
proof -
  have "op_set_cpus_allowed (classes demo_kops) (t_sched_class (k_task (blank_kst ()) 2)) = None"
    by (simp add: demo_kops_def idle_classes_def)
  from set_cpus_allowed_effect [OF this, of "{0}" 0 7] show ?thesis
    by (simp add: blank_kst_def blank_task_def split: if_splits)
qed

text \<open>Two requests: number 5 asks for task 2 to go to CPU 1, number 6 has no task.\<close>

definition demo_requests :: "unit kst" where
  "demo_requests = (blank_kst ())\<lparr>k_rq := (\<lambda>_. blank_rq\<lparr>rq_migration_queue := [5, 6]\<rparr>),
     k_req := (\<lambda>x. \<lparr>mr_task = (if x = 5 then Some 2 else None), mr_dest_cpu = 1\<rparr>)\<rparr>"

theorem migration_thread_serves_witness:
  "k_done (exec (loop_m 2 (\<lambda>_. migration_turn demo_kops 0) ()) demo_requests) 6 = 1 \<and>
   (\<exists>t. t_cpu (k_task t 2) = 1 \<and>
     exec (loop_m 1 (\<lambda>_. migration_turn demo_kops 0) ()) demo_requests = exec (complete demo_kops 5) t)"
proof -
  have go: "\<not> kthread_should_stop (services demo_kops) me y" for me y
    by (simp add: demo_kops_def quiet_services_def)
  have s: "0 \<in> k_online demo_requests" "\<not> rq_active_balance (k_rq demo_requests 0)"
    "rq_migration_queue (k_rq demo_requests 0) = [5, 6]" "distinct [5, 6 :: nat]" "2 \<le> length [5, 6 :: nat]"
    by (simp_all add: demo_requests_def blank_kst_def blank_rq_def)
  note r = migration_thread_serves [OF demo_wake_keeps [OF serve_blind] demo_queue_ops demo_queue_ops go s]
  have "answered 0 5 demo_requests t \<Longrightarrow> t_cpu (k_task t 2) = 1" for t
    by (simp add: answered_def demo_requests_def blank_kst_def blank_task_def fun_eq_iff)
  moreover obtain t where "answered 0 5 demo_requests t"
    "exec (loop_m 1 (\<lambda>_. migration_turn demo_kops 0) ()) demo_requests = exec (complete demo_kops 5) t"
    using r [THEN conjunct2, THEN conjunct2, rule_format, of 0] by auto
  ultimately show ?thesis using r by (auto simp: demo_requests_def blank_kst_def)
qed

theorem affinity_mask_roundtrip_witness:
  "get_user_cpu_mask (bytes_of_mask {0, 1} @ [9]) 5 = Some ({0, 1} \<inter> {0..<32})"
  by (rule affinity_mask_roundtrip) simp

definition demo_stranger :: "unit kst" where
  "demo_stranger = (blank_kst ())\<lparr>k_task := (\<lambda>p. blank_task\<lparr>t_euid := of_nat p, t_uid := of_nat p\<rparr>)\<rparr>"

theorem setaffinity_of_strangers_refused_witness:
  "k_task (exec (sched_setaffinity 0 demo_kops 7 2 {0}) demo_stranger) = k_task demo_stranger"
  using setaffinity_of_strangers_refused [where K = demo_kops and pid = 2 and p = 2 and s = demo_stranger
      and fuel = 0 and req = 7 and m = "{0}"]
  by (simp add: demo_stranger_def blank_kst_def)

end
