(* ===== verification/Sched_hotplug.thy ===== *)
theory Sched_hotplug
  imports Sched_affinity
begin

text \<open>
  \<open>sched_mod.c\<close>, lines 6982 to 7057, 7244 to 7440 and 7610 to 7770: idle tasks, and what happens to the tasks, the counters
  and the requests of a CPU that comes or goes. Fuel bounds the loops that may go on for ever
  (moving a task off a dead CPU is tried until it succeeds).
\<close>

definition INIT_MM :: nat where "INIT_MM = 0"

subsection \<open>Idle tasks and tuning\<close>

definition init_idle_bootup_task :: "task \<Rightarrow> ('x kst, unit) state" where
  "init_idle_bootup_task idle = upd_task idle (\<lambda>t. t\<lparr>t_sched_class := Idle_sched_class\<rparr>)"

definition init_idle :: "'x kops \<Rightarrow> task \<Rightarrow> cpu \<Rightarrow> ('x kst, unit) state" where
  "init_idle K idle cpu = do {
     flags \<leftarrow> spin_lock_irqsave (Rq_lock cpu);
     sched_fork_init idle;
     now \<leftarrow> service (sched_clock (services K));
     upd_se idle (\<lambda>e. e\<lparr>se_exec_start := now\<rparr>);
     upd_task idle (\<lambda>t. t\<lparr>t_normal_prio := MAX_PRIO\<rparr>);
     upd_task idle (\<lambda>t. t\<lparr>t_prio := MAX_PRIO\<rparr>);
     upd_task idle (\<lambda>t. t\<lparr>t_cpus_allowed := {cpu}\<rparr>);
     set_task_cpu_raw idle cpu;
     upd_rq cpu (\<lambda>r. r\<lparr>rq_idle := idle\<rparr>);
     upd_rq cpu (\<lambda>r. r\<lparr>rq_curr := idle\<rparr>);
     spin_unlock_irqrestore (Rq_lock cpu) flags;
     upd_task idle (\<lambda>t. t\<lparr>t_preempt_count := 0\<rparr>);
     upd_task idle (\<lambda>t. t\<lparr>t_sched_class := Idle_sched_class\<rparr>) }"

fun ilog2 :: "nat \<Rightarrow> nat" where
  "ilog2 n = (if n < 2 then 0 else Suc (ilog2 (n div 2)))"

declare ilog2.simps [simp del]

definition granularity_limit :: u32 where "granularity_limit = 200000000"

definition sched_init_granularity :: "('x kst, unit) state" where
  "sched_init_granularity = modify (\<lambda>s.
     let factor = 1 + of_nat (ilog2 (cpumask_weight (k_online s))) :: u32;
         y = k_sysctl s;
         limited = (\<lambda>v. if granularity_limit < v then granularity_limit else v)
     in s\<lparr>k_sysctl := y\<lparr>
       sysctl_sched_min_granularity := limited (sysctl_sched_min_granularity y * factor),
       sysctl_sched_latency := limited (sysctl_sched_latency y * factor),
       sysctl_sched_wakeup_granularity := sysctl_sched_wakeup_granularity y * factor,
       sysctl_sched_shares_ratelimit := sysctl_sched_shares_ratelimit y * factor\<rparr>\<rparr>)"

subsection \<open>Moving tasks off a dead CPU\<close>

definition migrate_task_irq :: "'x kops \<Rightarrow> task \<Rightarrow> cpu \<Rightarrow> cpu \<Rightarrow> ('x kst, bool) state" where
  "migrate_task_irq K p src_cpu dest_cpu = do {
     local_irq_disable;
     moved \<leftarrow> migrate_task_now K p src_cpu dest_cpu;
     local_irq_enable;
     ret moved }"

text \<open>There is one node (no NUMA). The destination: an allowed online CPU of the node, else any allowed online CPU, else the
  task's affinity is reset to what its cpuset allows. \<open>NR_CPUS\<close> stands for no CPU at all.\<close>

definition nr_node_ids :: nat where "nr_node_ids = 1"

definition cpu_to_node :: "cpu \<Rightarrow> nat" where "cpu_to_node cpu = 0"

definition choose_dest_cpu :: "'x kops \<Rightarrow> cpu \<Rightarrow> task \<Rightarrow> ('x kst, cpu) state" where
  "choose_dest_cpu K dead_cpu p = do {
     node \<leftarrow> gets (\<lambda>s. cpumask_of_node (services K) (cpu_to_node dead_cpu) (k_ext s));
     online \<leftarrow> gets k_online;
     allowed \<leftarrow> task_get p t_cpus_allowed;
     let near = cpumask_first (node \<inter> online \<inter> allowed);
     if near < NR_CPUS then ret near
     else let dest = cpumask_any_and allowed online in
       if dest < NR_CPUS then ret dest
       else do {
         all \<leftarrow> gets (\<lambda>s. cpuset_cpus_allowed_locked (services K) p (k_ext s));
         upd_task p (\<lambda>t. t\<lparr>t_cpus_allowed := all\<rparr>);
         ret (cpumask_any_and online all) } }"

definition move_task_off_dead_cpu :: "nat \<Rightarrow> 'x kops \<Rightarrow> cpu \<Rightarrow> task \<Rightarrow> ('x kst, unit option) state" where
  "move_task_off_dead_cpu fuel K dead_cpu p = loop_m fuel (\<lambda>_. do {
     dest_cpu \<leftarrow> choose_dest_cpu K dead_cpu p;
     moved \<leftarrow> migrate_task_irq K p dead_cpu dest_cpu;
     ret (if moved then Inr () else Inl ()) }) ()"

definition migrate_nr_uninterruptible :: "'x kops \<Rightarrow> cpu \<Rightarrow> ('x kst, unit) state" where
  "migrate_nr_uninterruptible K rq_src = do {
     rq_dest \<leftarrow> gets (\<lambda>s. cpumask_first (k_online s));
     flags \<leftarrow> local_irq_save;
     double_rq_lock K rq_src rq_dest;
     n \<leftarrow> rq_get rq_src rq_nr_uninterruptible;
     upd_rq rq_dest (\<lambda>r. r\<lparr>rq_nr_uninterruptible := rq_nr_uninterruptible r + n\<rparr>);
     upd_rq rq_src (\<lambda>r. r\<lparr>rq_nr_uninterruptible := 0\<rparr>);
     double_rq_unlock rq_src rq_dest;
     local_irq_restore flags }"

fun for_each_m :: "'a list \<Rightarrow> ('a \<Rightarrow> ('s, unit option) state) \<Rightarrow> ('s, unit option) state" where
  "for_each_m [] f = ret (Some ())"
| "for_each_m (x # xs) f = and_then (f x) (\<lambda>_. for_each_m xs f)"

definition migrate_live_tasks :: "nat \<Rightarrow> 'x kops \<Rightarrow> cpu \<Rightarrow> ('x kst, unit option) state" where
  "migrate_live_tasks fuel K src_cpu = do {
     log_event (Spin_lock Tasklist_lock);
     threads \<leftarrow> gets (\<lambda>s. all_threads (services K) (k_ext s));
     and_then (for_each_m threads (\<lambda>p. do {
       me \<leftarrow> gets k_current;
       cpu \<leftarrow> task_get p t_cpu;
       if p = me then ret (Some ())
       else if cpu = src_cpu then move_task_off_dead_cpu fuel K src_cpu p
       else ret (Some ()) })) (\<lambda>_. do {
     log_event (Spin_unlock Tasklist_lock);
     ret (Some ()) }) }"

definition sched_idle_next :: "'x kops \<Rightarrow> ('x kst, unit) state" where
  "sched_idle_next K = do {
     this_cpu \<leftarrow> gets k_this_cpu;
     p \<leftarrow> rq_get this_cpu rq_idle;
     online \<leftarrow> gets (\<lambda>s. this_cpu \<in> k_online s);
     if online then log_event Sched_bug else do {
       flags \<leftarrow> spin_lock_irqsave (Rq_lock this_cpu);
       setscheduler_raw K this_cpu p SCHED_FIFO (MAX_RT_PRIO - 1);
       update_rq_clock K this_cpu;
       activate_task K this_cpu p False;
       spin_unlock_irqrestore (Rq_lock this_cpu) flags } }"

definition idle_task_exit :: "('x kst, unit) state" where
  "idle_task_exit = do {
     me \<leftarrow> gets k_current;
     mm \<leftarrow> task_get me t_active_mm;
     online \<leftarrow> gets (\<lambda>s. k_this_cpu s \<in> k_online s);
     if online then log_event Sched_bug
     else do {
       when_m (mm \<noteq> Some INIT_MM) (log_event (Switch_mm mm INIT_MM me));
       (case mm of Some m \<Rightarrow> log_event (Mmdrop m) | None \<Rightarrow> log_event Sched_bug) } }"

definition migrate_dead :: "nat \<Rightarrow> 'x kops \<Rightarrow> cpu \<Rightarrow> task \<Rightarrow> ('x kst, unit option) state" where
  "migrate_dead fuel K dead_cpu p = do {
     t \<leftarrow> task_get p (\<lambda>t. t);
     if t_exit_state t = 0 \<or> t_state t = TASK_DEAD then do { log_event Sched_bug; ret None }
     else do {
       log_event (Get_task p);
       spin_unlock_irq (Rq_lock dead_cpu);
       and_then (move_task_off_dead_cpu fuel K dead_cpu p) (\<lambda>_. do {
         spin_lock_irq (Rq_lock dead_cpu);
         log_event (Put_task p);
         ret (Some ()) }) } }"

definition migrate_dead_tasks :: "nat \<Rightarrow> 'x kops \<Rightarrow> cpu \<Rightarrow> ('x kst, unit option) state" where
  "migrate_dead_tasks fuel K dead_cpu = do {
     r \<leftarrow> loop_m fuel (\<lambda>_. do {
       nr \<leftarrow> rq_get dead_cpu rq_nr_running;
       if nr = 0 then ret (Inr (Some ()))
       else do {
         update_rq_clock K dead_cpu;
         next_task \<leftarrow> pick_next_task K dead_cpu;
         (case next_task of
            None \<Rightarrow> ret (Inr None)
          | Some p \<Rightarrow> do {
              cls \<leftarrow> task_get p t_sched_class;
              op_put_prev_task (classes K) cls dead_cpu p;
              r \<leftarrow> migrate_dead fuel K dead_cpu p;
              ret (case r of Some _ \<Rightarrow> Inl () | None \<Rightarrow> Inr None) }) } }) ();
     ret (case r of None \<Rightarrow> None | Some r' \<Rightarrow> r') }"

definition calc_global_load_remove :: "cpu \<Rightarrow> ('x kst, unit) state" where
  "calc_global_load_remove rq = do {
     a \<leftarrow> rq_get rq rq_calc_load_active;
     modify (\<lambda>s. s\<lparr>k_calc_load_tasks := k_calc_load_tasks s - a\<rparr>);
     upd_rq rq (\<lambda>r. r\<lparr>rq_calc_load_active := 0\<rparr>) }"

subsection \<open>CPUs come and go\<close>

text \<open>Setting the root domain's online mask for a runqueue that has none would follow a null pointer.\<close>

definition upd_rd :: "nat option \<Rightarrow> (root_domain \<Rightarrow> root_domain) \<Rightarrow> ('x kst, unit) state" where
  "upd_rd rd f = (case rd of
     None \<Rightarrow> log_event Sched_bug
   | Some d \<Rightarrow> modify (\<lambda>s. s\<lparr>k_rd := (k_rd s)(d := f (k_rd s d))\<rparr>))"

definition set_rq_online :: "'x kops \<Rightarrow> cpu \<Rightarrow> ('x kst, unit) state" where
  "set_rq_online K rq = do {
     online \<leftarrow> rq_get rq rq_online;
     when_m (\<not> online) (do {
       rd \<leftarrow> rq_get rq rq_rd;
       upd_rd rd (\<lambda>d. d\<lparr>rd_online := insert rq (rd_online d)\<rparr>);
       upd_rq rq (\<lambda>r. r\<lparr>rq_online := True\<rparr>);
       for_each (for_each_class K) (\<lambda>c.
         case op_rq_online (classes K) c of Some f \<Rightarrow> f rq | None \<Rightarrow> skip) }) }"

definition set_rq_offline :: "'x kops \<Rightarrow> cpu \<Rightarrow> ('x kst, unit) state" where
  "set_rq_offline K rq = do {
     online \<leftarrow> rq_get rq rq_online;
     when_m online (do {
       for_each (for_each_class K) (\<lambda>c.
         case op_rq_offline (classes K) c of Some f \<Rightarrow> f rq | None \<Rightarrow> skip);
       rd \<leftarrow> rq_get rq rq_rd;
       upd_rd rd (\<lambda>d. d\<lparr>rd_online := rd_online d - {rq}\<rparr>);
       upd_rq rq (\<lambda>r. r\<lparr>rq_online := False\<rparr>) }) }"

text \<open>The actions of the notifier, one definition each. A frozen CPU is treated alike.\<close>

definition cpu_up_prepare :: "nat \<Rightarrow> 'x kops \<Rightarrow> cpu \<Rightarrow> ('x kst, notify option) state" where
  "cpu_up_prepare fuel K cpu = do {
     p \<leftarrow> kthread_create (others K) cpu;
     (case p of
        None \<Rightarrow> ret (Some NOTIFY_BAD)
      | Some p \<Rightarrow> and_then (kthread_bind fuel K p cpu) (\<lambda>_. do {
          (rq, flags) \<leftarrow> task_rq_lock p;
          setscheduler_raw K rq p SCHED_FIFO (MAX_RT_PRIO - 1);
          task_rq_unlock rq flags;
          log_event (Get_task p);
          upd_rq cpu (\<lambda>r. r\<lparr>rq_migration_thread := Some p\<rparr>);
          u \<leftarrow> gets k_calc_load_update;
          upd_rq rq (\<lambda>r. r\<lparr>rq_calc_load_update := u\<rparr>);
          ret (Some NOTIFY_OK) })) }"

definition cpu_comes_online :: "'x kops \<Rightarrow> cpu \<Rightarrow> ('x kst, unit) state" where
  "cpu_comes_online K cpu = do {
     thread \<leftarrow> rq_get cpu rq_migration_thread;
     wake_thread K thread;
     flags \<leftarrow> spin_lock_irqsave (Rq_lock cpu);
     rd \<leftarrow> rq_get cpu rq_rd;
     (case rd of
        None \<Rightarrow> skip
      | Some d \<Rightarrow> do {
          known \<leftarrow> gets (\<lambda>s. cpu \<in> rd_span (k_rd s d));
          if \<not> known then log_event Sched_bug else set_rq_online K cpu });
     spin_unlock_irqrestore (Rq_lock cpu) flags }"

text \<open>Stopping the migration thread and giving back the reference to it.\<close>

definition drop_migration_thread :: "'x kops \<Rightarrow> cpu \<Rightarrow> ('x kst, unit) state" where
  "drop_migration_thread K cpu = do {
     thread \<leftarrow> rq_get cpu rq_migration_thread;
     (case thread of
        None \<Rightarrow> log_event Sched_bug
      | Some p \<Rightarrow> do {
          kthread_stop (others K) p;
          log_event (Put_task p) });
     upd_rq cpu (\<lambda>r. r\<lparr>rq_migration_thread := None\<rparr>) }"

definition cpu_up_canceled :: "nat \<Rightarrow> 'x kops \<Rightarrow> cpu \<Rightarrow> ('x kst, unit option) state" where
  "cpu_up_canceled fuel K cpu = do {
     thread \<leftarrow> rq_get cpu rq_migration_thread;
     (case thread of
        None \<Rightarrow> ret (Some ())
      | Some p \<Rightarrow> do {
          dest \<leftarrow> gets (\<lambda>s. cpumask_first (k_online s));
          and_then (kthread_bind fuel K p dest) (\<lambda>_. do {
            drop_migration_thread K cpu;
            ret (Some ()) }) }) }"

text \<open>The idle task of the dead CPU, which \<open>sched_idle_next\<close> queued, goes back to idle.\<close>

definition retire_idle_task :: "'x kops \<Rightarrow> cpu \<Rightarrow> ('x kst, unit) state" where
  "retire_idle_task K cpu = do {
     update_rq_clock K cpu;
     idle \<leftarrow> rq_get cpu rq_idle;
     deactivate_task K cpu idle False;
     upd_task idle (\<lambda>t. t\<lparr>t_static_prio := MAX_PRIO\<rparr>);
     setscheduler_raw K cpu idle SCHED_NORMAL 0;
     upd_task idle (\<lambda>t. t\<lparr>t_sched_class := Idle_sched_class\<rparr>) }"

definition wake_requestors :: "nat \<Rightarrow> 'x kops \<Rightarrow> cpu \<Rightarrow> ('x kst, unit option) state" where
  "wake_requestors fuel K cpu = do {
     spin_lock_irq (Rq_lock cpu);
     and_then (loop_m fuel (\<lambda>_. do {
       queue \<leftarrow> rq_get cpu rq_migration_queue;
       (case queue of
          [] \<Rightarrow> ret (Inr ())
        | req # rest \<Rightarrow> do {
            upd_rq cpu (\<lambda>r. r\<lparr>rq_migration_queue := rest\<rparr>);
            spin_unlock_irq (Rq_lock cpu);
            complete K req;
            spin_lock_irq (Rq_lock cpu);
            ret (Inl ()) }) }) ()) (\<lambda>_. do {
     spin_unlock_irq (Rq_lock cpu);
     ret (Some ()) }) }"

definition cpu_is_dead :: "nat \<Rightarrow> 'x kops \<Rightarrow> cpu \<Rightarrow> ('x kst, unit option) state" where
  "cpu_is_dead fuel K cpu =
     and_then (migrate_live_tasks fuel K cpu) (\<lambda>_. do {
       drop_migration_thread K cpu;
       spin_lock_irq (Rq_lock cpu);
       retire_idle_task K cpu;
       and_then (migrate_dead_tasks fuel K cpu) (\<lambda>_. do {
         spin_unlock_irq (Rq_lock cpu);
         migrate_nr_uninterruptible K cpu;
         nr \<leftarrow> rq_get cpu rq_nr_running;
         if nr \<noteq> 0 then do { log_event Sched_bug; ret None }
         else do {
           calc_global_load_remove cpu;
           wake_requestors fuel K cpu } }) })"

definition cpu_dies :: "'x kops \<Rightarrow> cpu \<Rightarrow> ('x kst, unit) state" where
  "cpu_dies K cpu = do {
     flags \<leftarrow> spin_lock_irqsave (Rq_lock cpu);
     rd \<leftarrow> rq_get cpu rq_rd;
     (case rd of
        None \<Rightarrow> skip
      | Some d \<Rightarrow> do {
          known \<leftarrow> gets (\<lambda>s. cpu \<in> rd_span (k_rd s d));
          if \<not> known then log_event Sched_bug else set_rq_offline K cpu });
     spin_unlock_irqrestore (Rq_lock cpu) flags }"

definition migration_call :: "nat \<Rightarrow> 'x kops \<Rightarrow> cpu_action \<Rightarrow> cpu \<Rightarrow> ('x kst, notify option) state" where
  "migration_call fuel K action cpu = (case action of
     CPU_UP_PREPARE \<Rightarrow> cpu_up_prepare fuel K cpu
   | CPU_ONLINE \<Rightarrow> do { cpu_comes_online K cpu; ret (Some NOTIFY_OK) }
   | CPU_UP_CANCELED \<Rightarrow> and_then (cpu_up_canceled fuel K cpu) (\<lambda>_. ret (Some NOTIFY_OK))
   | CPU_DEAD \<Rightarrow> and_then (cpu_is_dead fuel K cpu) (\<lambda>_. ret (Some NOTIFY_OK))
   | CPU_DYING \<Rightarrow> do { cpu_dies K cpu; ret (Some NOTIFY_OK) }
   | _ \<Rightarrow> ret (Some NOTIFY_OK))"

definition migration_init :: "nat \<Rightarrow> 'x kops \<Rightarrow> ('x kst, int option) state" where
  "migration_init fuel K = do {
     cpu \<leftarrow> gets k_this_cpu;
     err \<leftarrow> migration_call fuel K CPU_UP_PREPARE cpu;
     if err = Some NOTIFY_BAD then do { log_event Sched_bug; ret None }
     else and_then (migration_call fuel K CPU_ONLINE cpu) (\<lambda>_. ret (Some 0)) }"

definition update_runtime :: "'x kops \<Rightarrow> cpu_action \<Rightarrow> cpu \<Rightarrow> ('x kst, notify) state" where
  "update_runtime K action cpu =
     (if action = CPU_DOWN_PREPARE then do { disable_runtime (others K) cpu; ret NOTIFY_OK }
      else if action = CPU_DOWN_FAILED \<or> action = CPU_ONLINE
      then do { enable_runtime (others K) cpu; ret NOTIFY_OK }
      else ret NOTIFY_DONE)"

lemma cpumask_first_cases: "cpumask_first m < NR_CPUS \<and> cpumask_first m \<in> m \<or> cpumask_first m = NR_CPUS \<and> m \<inter> {0..<NR_CPUS} = {}"
proof (cases "[i \<leftarrow> possible_cpus. i \<in> m]")
  case Nil
  then have "m \<inter> {0..<NR_CPUS} = {}" by (auto simp: possible_cpus_def filter_empty_conv)
  with Nil show ?thesis by (simp add: cpumask_first_def)
next
  case (Cons a as)
  then have "a \<in> set [i \<leftarrow> possible_cpus. i \<in> m]" by (simp only: list.set_intros)
  then have "a < NR_CPUS" "a \<in> m" by (simp_all add: possible_cpus_def)
  with Cons show ?thesis by (simp add: cpumask_first_def)
qed

subsection \<open>The idle task of a dead CPU\<close>

lemma obs_retire:
  assumes "policy_ops_keep policy_obs K"
  defines "p \<equiv> \<lambda>s cpu. rq_idle (k_rq s cpu)"
  shows "policy_obs (exec (retire_idle_task K cpu) s) (p s cpu) =
    set_policy SCHED_NORMAL 0 (ps_reset (policy_obs s (p s cpu)))
      ((policy_obs s (p s cpu))\<lparr>ps_on_rq := False, ps_static_prio := MAX_PRIO\<rparr>)"
proof -
  have c: "rq_idle (k_rq (exec (update_rq_clock K cpu) s) cpu) = p s cpu"
    by (simp add: update_rq_clock_def p_def)
  show ?thesis
    by (simp add: retire_idle_task_def c obs_set_on_rq [OF assms(1)] obs_setscheduler_raw)
qed

text \<open>The last step of a CPU's death reads outside the weight tables: the idle task gets the static
  priority \<open>MAX_PRIO\<close>, one above the legal ones, and then the normal policy, for which the
  load weight is looked up at index 40 of 40.\<close>

theorem dead_idle_task_reads_past_tables:
  fixes K :: "'x kops" and s :: "'x kst" and cpu :: cpu
  assumes "policy_ops_keep policy_obs K"
  defines "t' \<equiv> k_task (exec (retire_idle_task K cpu) s) (rq_idle (k_rq s cpu))"
  shows "\<not> task_has_rt_policy t' \<and> t_policy t' \<noteq> SCHED_IDLE \<and>
    nat (t_static_prio t' - MAX_RT_PRIO) = length prio_to_weight \<and> load_weight_of t' = None"
  unfolding load_weight_of_def task_has_rt_policy_def t'_def policy_fields obs_retire [OF assms(1)]
  by (simp add: set_policy_def policy_consts rt_policy_def prio_consts table_at_def prio_to_weight_def)

subsection \<open>Counters and tasks\<close>

text \<open>The count of uninterruptible tasks that a dead CPU leaves behind moves to an online CPU: the
  sum over all CPUs is what it was, and the dead CPU's count is 0.\<close>

theorem uninterruptible_count_survives:
  fixes K :: "'x kops" and s :: "'x kst" and src :: cpu
  assumes "src \<notin> k_online s" and "k_online s \<inter> {0..<NR_CPUS} \<noteq> {}" and "src < NR_CPUS"
  defines "un \<equiv> \<lambda>s c. rq_nr_uninterruptible (k_rq s c)" and "s' \<equiv> exec (migrate_nr_uninterruptible K src) s"
  shows "un s' src = 0 \<and> (\<Sum>c < NR_CPUS. un s' c) = (\<Sum>c < NR_CPUS. un s c)"
proof -
  let ?d = "cpumask_first (k_online s)"
  have d: "?d \<in> k_online s" using cpumask_first_in [OF assms(2)] .
  then have ne: "?d \<noteq> src" using assms(1) by metis
  have lt: "?d < NR_CPUS" using cpumask_first_cases [of "k_online s"] assms(2) by auto
  have upd: "un s' = (un s)(?d := un s ?d + un s src, src := 0)"
    using ne by (auto simp: un_def s'_def migrate_nr_uninterruptible_def double_rq_lock_def double_rq_unlock_def
        update_rq_clock_def fun_eq_iff)
  let ?C = "{..<NR_CPUS} - {?d} - {src}"
  have split: "(\<Sum>c < NR_CPUS. f c) = f ?d + (f src + sum f ?C)" for f :: "nat \<Rightarrow> u32"
    using lt ne assms(3) by (simp add: sum.remove [of "{..<NR_CPUS}" ?d] sum.remove [of "{..<NR_CPUS} - {?d}" src])
  have "sum (un s') ?C = sum (un s) ?C" by (rule sum.cong) (auto simp: upd)
  then show ?thesis using ne by (simp add: split upd)
qed

lemma choose_dest:
  fixes K :: "'x kops" and s :: "'x kst" and dead :: cpu and p :: task
  assumes "k_online s \<subseteq> {0..<NR_CPUS}" and "k_online s \<inter> cpuset_cpus_allowed_locked (services K) p (k_ext s) \<noteq> {}"
  defines "s' \<equiv> exec (choose_dest_cpu K dead p) s" and "d \<equiv> result (choose_dest_cpu K dead p) s"
  shows "d \<in> k_online s" "d \<in> t_cpus_allowed (k_task s' p)" "d < NR_CPUS"
    "t_cpu (k_task s' p) = t_cpu (k_task s p)" "k_active s' = k_active s" "k_online s' = k_online s"
proof -
  show "t_cpu (k_task s' p) = t_cpu (k_task s p)" "k_active s' = k_active s" "k_online s' = k_online s"
    by (simp_all add: s'_def choose_dest_cpu_def Let_def)
  show "d \<in> k_online s" "d \<in> t_cpus_allowed (k_task s' p)" "d < NR_CPUS"
    using cpumask_first_cases [of "cpumask_of_node (services K) (cpu_to_node dead) (k_ext s) \<inter> k_online s \<inter> t_cpus_allowed (k_task s p)"]
      cpumask_first_cases [of "t_cpus_allowed (k_task s p) \<inter> k_online s"]
      cpumask_first_cases [of "k_online s \<inter> cpuset_cpus_allowed_locked (services K) p (k_ext s)"] assms(1,2)
    by (auto simp: d_def s'_def choose_dest_cpu_def Let_def cpumask_any_and_def)
qed

text \<open>C20. A task is moved off a dead CPU by the first attempt if every online CPU is active and its
  cpuset allows an online CPU: afterwards it belongs to a CPU that is online. (The queue operations of
  a class leave the tasks' CPUs and the counts of the runqueues alone.)\<close>

theorem dead_cpu_task_moved:
  fixes K :: "'x kops" and s :: "'x kst" and p :: task and dead :: cpu
  assumes "queue_ops_keep count_obs K" and "t_cpu (k_task s p) = dead"
    and "k_online s \<subseteq> {0..<NR_CPUS}" and "k_online s \<subseteq> k_active s"
    and "k_online s \<inter> cpuset_cpus_allowed_locked (services K) p (k_ext s) \<noteq> {}"
  shows "result (move_task_off_dead_cpu (Suc n) K dead p) s = Some () \<and>
    t_cpu (k_task (exec (move_task_off_dead_cpu (Suc n) K dead p) s) p) \<in> k_online s"
proof -
  note d = choose_dest [OF assms(3,5), of dead]
  let ?s = "exec (choose_dest_cpu K dead p) s" and ?d = "result (choose_dest_cpu K dead p) s"
  let ?t = "?s\<lparr>k_irqs_off := True, k_log := k_log ?s @ [Irq_off]\<rparr>"
  have t: "?d \<in> k_active ?t" "t_cpu (k_task ?t p) = dead" "?d \<in> t_cpus_allowed (k_task ?t p)"
    using d assms(2,4) by auto
  note m = migrate_now_place [OF assms(1), where p = p and src = dead and dest = ?d and s = ?t]
  show ?thesis
    using m t d(1) by (simp add: move_task_off_dead_cpu_def migrate_task_irq_def count_fields)
qed

text \<open>It is tried for ever if no online CPU is active: \<open>__migrate_task\<close> asks for active CPUs,
  the choice is made among the online ones.\<close>

theorem dead_cpu_task_stuck:
  fixes K :: "'x kops" and s :: "'x kst" and p :: task and dead :: cpu
  assumes "k_online s \<inter> k_active s = {}" and "NR_CPUS \<notin> k_active s"
  shows "result (move_task_off_dead_cpu fuel K dead p) s = None"
  using assms
proof (induction fuel arbitrary: s)
  case (Suc fuel)
  let ?s = "exec (choose_dest_cpu K dead p) s" and ?d = "result (choose_dest_cpu K dead p) s"
  let ?t = "exec (migrate_task_irq K p dead ?d) ?s"
  have k: "k_active ?s = k_active s" "k_online ?s = k_online s"
    by (simp_all add: choose_dest_cpu_def Let_def)
  have "?d \<notin> k_active s"
    using Suc.prems cpumask_first_cases [of "cpumask_of_node (services K) (cpu_to_node dead) (k_ext s) \<inter> k_online s \<inter> t_cpus_allowed (k_task s p)"]
      cpumask_first_cases [of "t_cpus_allowed (k_task s p) \<inter> k_online s"]
      cpumask_first_cases [of "k_online s \<inter> cpuset_cpus_allowed_locked (services K) p (k_ext s)"]
    by (auto simp: choose_dest_cpu_def Let_def cpumask_any_and_def)
  then have "\<not> result (migrate_task_irq K p dead ?d) ?s" "k_online ?t = k_online s" "k_active ?t = k_active s"
    by (simp_all add: migrate_task_irq_def migrate_task_now_def k)
  then show ?case
    using Suc.IH [of ?t] Suc.prems by (simp add: move_task_off_dead_cpu_def)
qed (simp add: move_task_off_dead_cpu_def)

text \<open>Nobody waits for ever on a dead CPU's migration thread: every request that is left in its
  queue is completed, once, and the queue is empty afterwards.\<close>

theorem dead_cpu_requests_completed:
  fixes K :: "'x kops" and s :: "'x kst"
  assumes keep: "wake_keeps (serve_obs cpu) K"
    and "rq_migration_queue (k_rq s cpu) = reqs" "distinct reqs" "length reqs < fuel"
  defines "s' \<equiv> exec (wake_requestors fuel K cpu) s"
  shows "result (wake_requestors fuel K cpu) s = Some () \<and> rq_migration_queue (k_rq s' cpu) = [] \<and>
    (\<forall>x. k_done s' x = (if x \<in> set reqs then k_done s x + 1 else k_done s x))"
proof -
  define body where "body = (\<lambda>_ :: unit. do {
       queue \<leftarrow> rq_get cpu rq_migration_queue;
       (case queue of
          [] \<Rightarrow> ret (Inr ())
        | req # rest \<Rightarrow> do {
            upd_rq cpu (\<lambda>r. r\<lparr>rq_migration_queue := rest\<rparr>);
            spin_unlock_irq (Rq_lock cpu);
            complete K req;
            spin_lock_irq (Rq_lock cpu);
            ret (Inl ()) }) } :: ('x kst, unit + unit) state)"
  have loop: "result (loop_m fuel body ()) u = Some () \<and>
      rq_migration_queue (k_rq (exec (loop_m fuel body ()) u) cpu) = [] \<and>
      (\<forall>x. k_done (exec (loop_m fuel body ()) u) x = (if x \<in> set reqs then k_done u x + 1 else k_done u x))"
    if "rq_migration_queue (k_rq u cpu) = reqs" "distinct reqs" "length reqs < fuel" for u :: "'x kst" and fuel reqs
    using that
  proof (induction reqs arbitrary: u fuel)
    case Nil
    then show ?case by (cases fuel) (simp_all add: body_def)
  next
    case (Cons req rest)
    then obtain n where n: "fuel = Suc n" "length rest < n" by (cases fuel) auto
    let ?v = "u\<lparr>k_rq := (k_rq u)(cpu := (k_rq u cpu)\<lparr>rq_migration_queue := rest\<rparr>),
      k_irqs_off := False, k_log := k_log u @ [Spin_unlock (Rq_lock cpu), Irq_on]\<rparr>"
    let ?c = "exec (complete K req) ?v"
    have run: "result (body ()) u = Inl ()" "exec (body ()) u = ?c\<lparr>k_irqs_off := True,
        k_log := k_log ?c @ [Irq_off, Spin_lock (Rq_lock cpu)]\<rparr>"
      using Cons.prems(1) by (simp_all add: body_def)
    have "serve_obs cpu ?c = (rest, rq_active_balance (k_rq u cpu), (k_done u)(req := k_done u req + 1), k_online u)"
      by (simp add: serve_complete [OF keep])
    then have c: "rq_migration_queue (k_rq ?c cpu) = rest" "k_done ?c = (k_done u)(req := k_done u req + 1)"
      by (simp_all add: serve_obs_def)
    show ?case
      using Cons.IH [of "exec (body ()) u" n] Cons.prems n c by (simp add: run)
  qed
  let ?u = "exec (spin_lock_irq (Rq_lock cpu)) s"
  have "result (loop_m fuel body ()) ?u = Some () \<and>
      rq_migration_queue (k_rq (exec (loop_m fuel body ()) ?u) cpu) = [] \<and>
      (\<forall>x. k_done (exec (loop_m fuel body ()) ?u) x = (if x \<in> set reqs then k_done ?u x + 1 else k_done ?u x))"
    using assms(2-4) by (intro loop) simp_all
  then show ?thesis
    by (simp add: s'_def wake_requestors_def body_def [symmetric])
qed

subsection \<open>Concrete runs\<close>

theorem dead_idle_task_reads_past_tables_witness:
  "load_weight_of (k_task (exec (retire_idle_task demo_kops 1) (blank_kst ())) (rq_idle (k_rq (blank_kst ()) 1))) = None"
  using dead_idle_task_reads_past_tables [OF demo_policy_ops, of 1 "blank_kst ()"] by simp

definition demo_unplugged :: "unit kst" where
  "demo_unplugged = (blank_kst ())\<lparr>k_online := {0}, k_active := {0},
     k_task := (\<lambda>p. blank_task\<lparr>t_cpu := 1, t_cpus_allowed := {1}\<rparr>),
     k_rq := (\<lambda>c. blank_rq\<lparr>rq_nr_uninterruptible := (if c = 1 then 3 else - 2), rq_migration_queue := [5, 6]\<rparr>)\<rparr>"

theorem uninterruptible_count_survives_witness:
  "(\<Sum>c < NR_CPUS. rq_nr_uninterruptible (k_rq (exec (migrate_nr_uninterruptible demo_kops 1) demo_unplugged) c)) =
   (\<Sum>c < NR_CPUS. rq_nr_uninterruptible (k_rq demo_unplugged c))"
proof -
  have "1 \<notin> k_online demo_unplugged" "k_online demo_unplugged \<inter> {0..<NR_CPUS} \<noteq> {}" "1 < NR_CPUS"
    by (simp_all add: demo_unplugged_def NR_CPUS_def)
  from uninterruptible_count_survives [OF this] show ?thesis by blast
qed

theorem dead_cpu_task_moved_witness:
  "t_cpu (k_task (exec (move_task_off_dead_cpu 1 demo_kops 1 2) demo_unplugged) 2) \<in> k_online demo_unplugged"
proof -
  have "t_cpu (k_task demo_unplugged 2) = 1" "k_online demo_unplugged \<subseteq> {0..<NR_CPUS}"
    "k_online demo_unplugged \<subseteq> k_active demo_unplugged"
    by (simp_all add: demo_unplugged_def NR_CPUS_def)
  moreover have "k_online demo_unplugged \<inter> cpuset_cpus_allowed_locked (services demo_kops) 2 (k_ext demo_unplugged) \<noteq> {}"
    by (simp add: demo_unplugged_def demo_kops_def quiet_services_def)
  ultimately show ?thesis
    using dead_cpu_task_moved [OF demo_queue_ops, of demo_unplugged 2 1 0] by simp
qed

theorem dead_cpu_task_stuck_witness:
  "result (move_task_off_dead_cpu 1000 demo_kops 1 2) (demo_unplugged\<lparr>k_active := {1}\<rparr>) = None"
  by (rule dead_cpu_task_stuck) (simp_all add: demo_unplugged_def NR_CPUS_def)

theorem dead_cpu_requests_completed_witness:
  "result (wake_requestors 3 demo_kops 1) demo_unplugged = Some () \<and>
   k_done (exec (wake_requestors 3 demo_kops 1) demo_unplugged) 6 = 1"
  using dead_cpu_requests_completed [OF demo_wake_keeps [OF serve_blind], where cpu = 1 and s = demo_unplugged
      and reqs = "[5, 6]" and fuel = 3]
  by (simp add: demo_unplugged_def blank_kst_def)

end
