(* ===== verification/Sched_tunables.thy ===== *)
theory Sched_tunables
  imports Sched_hotplug "HOL-Library.Sublist"
begin

text \<open>
  \<open>sched_mod.c\<close>: what can be tuned at run time. The debug features (lines 668 to 790), the
  \<open>sysctl\<close> tables of the scheduling domains (7442 to 7605), and the bandwidth of the real-time class
  (10359 to 10415). The names of the features are in \<open>sched_features.h\<close> and are an argument.
\<close>

definition EBUSY :: int where "EBUSY = 16"

subsection \<open>Features\<close>

definition feature_on :: "u32 \<Rightarrow> nat \<Rightarrow> bool" where
  "feature_on f i \<longleftrightarrow> f AND push_bit i 1 \<noteq> 0"

primrec show_features :: "u32 \<Rightarrow> nat \<Rightarrow> string list \<Rightarrow> string" where
  "show_features f i [] = []"
| "show_features f i (name # names) =
     (if \<not> feature_on f i then ''NO_'' else []) @ name @ '' '' @ show_features f (Suc i) names"

definition sched_feat_show :: "string list \<Rightarrow> ('x kst, string) state" where
  "sched_feat_show names = gets (\<lambda>s. show_features (sysctl_sched_features (k_sysctl s)) 0 names @ [CHR 0x0A])"

text \<open>\<open>strncmp (a, b, length b)\<close> finds no difference if \<open>a\<close> begins with \<open>b\<close>.\<close>

definition begins_with :: "string \<Rightarrow> string \<Rightarrow> bool" where
  "begins_with a b \<longleftrightarrow> take (length b) a = b"

primrec find_feature :: "nat \<Rightarrow> string list \<Rightarrow> string \<Rightarrow> nat option" where
  "find_feature i [] str = None"
| "find_feature i (name # names) str =
     (if begins_with str name then Some i else find_feature (Suc i) names str)"

text \<open>\<open>user\<close> is what the process offers, \<open>None\<close> if it cannot be read; the answer is the result and
  the new position in the file.\<close>

definition sched_feat_write ::
    "string list \<Rightarrow> string option \<Rightarrow> nat \<Rightarrow> nat \<Rightarrow> ('x kst, int \<times> nat) state" where
  "sched_feat_write names user cnt0 pos = (let cnt = (if 63 < cnt0 then 63 else cnt0) in
     case user of
       None \<Rightarrow> ret (- EFAULT, pos)
     | Some u \<Rightarrow>
         let buf = take cnt u;
             neg = begins_with buf ''NO_'';
             str = (if neg then drop 3 buf else buf)
         in case find_feature 0 names str of
              None \<Rightarrow> ret (- EINVAL, pos)
            | Some i \<Rightarrow> do {
                modify (\<lambda>s. s\<lparr>k_sysctl := (k_sysctl s)\<lparr>sysctl_sched_features :=
                  (if neg then sysctl_sched_features (k_sysctl s) AND NOT (push_bit i 1)
                   else sysctl_sched_features (k_sysctl s) OR push_bit i 1)\<rparr>\<rparr>);
                ret (int cnt, pos + cnt) })"

subsection \<open>Tables of the domains\<close>

text \<open>How many blocks of a kind a log has allocated and not freed.\<close>

definition held :: "memory \<Rightarrow> sched_event list \<Rightarrow> int" where
  "held m l = int (count_list l (Alloc m)) - int (count_list l (Free m))"

definition ctl_terminator :: ctl_entry where
  "ctl_terminator = Ctl_entry None 0 None False"

definition sd_alloc_ctl_entry :: "'x kops \<Rightarrow> nat \<Rightarrow> ('x kst, ctl_entry list option) state" where
  "sd_alloc_ctl_entry K n = do {
     ok \<leftarrow> service (kmalloc_ok (services K));
     if ok then do { log_event (Alloc Ctl_table); ret (Some (replicate n ctl_terminator)) }
     else ret None }"

definition kstrdup :: "'x kops \<Rightarrow> string \<Rightarrow> ('x kst, string option) state" where
  "kstrdup K str = do {
     ok \<leftarrow> service (kmalloc_ok (services K));
     if ok then do { log_event (Alloc Ctl_name); ret (Some str) } else ret None }"

text \<open>The walk stops at an entry without a mode; running off the table is a bug.\<close>

fun sd_free_ctl_entry :: "ctl_entry list \<Rightarrow> ('x kst, unit) state" where
  "sd_free_ctl_entry [] = log_event Sched_bug"
| "sd_free_ctl_entry (Ctl_entry name mode None file # es) =
     (if mode = 0 then log_event (Free Ctl_table)
      else do {
        when_m (\<not> file \<and> name \<noteq> None) (log_event (Free Ctl_name));
        sd_free_ctl_entry es })"
| "sd_free_ctl_entry (Ctl_entry name mode (Some child) file # es) =
     (if mode = 0 then log_event (Free Ctl_table)
      else do {
        sd_free_ctl_entry child;
        when_m (\<not> file \<and> name \<noteq> None) (log_event (Free Ctl_name));
        sd_free_ctl_entry es })"

definition set_table_entry :: "nat \<Rightarrow> string \<Rightarrow> nat \<Rightarrow> ctl_entry list \<Rightarrow> ctl_entry list" where
  "set_table_entry i name mode table = table[i := Ctl_entry (Some name) mode None True]"

definition domain_files :: "(string \<times> nat) list" where
  "domain_files = [(''min_interval'', 420), (''max_interval'', 420), (''busy_idx'', 420), (''idle_idx'', 420),
     (''newidle_idx'', 420), (''wake_idx'', 420), (''forkexec_idx'', 420), (''busy_factor'', 420),
     (''imbalance_pct'', 420), (''cache_nice_tries'', 420), (''flags'', 420), (''name'', 292)]"

definition sd_alloc_ctl_domain_table :: "'x kops \<Rightarrow> nat \<Rightarrow> ('x kst, ctl_entry list option) state" where
  "sd_alloc_ctl_domain_table K sd = do {
     table \<leftarrow> sd_alloc_ctl_entry K 13;
     (case table of
        None \<Rightarrow> ret None
      | Some t \<Rightarrow> ret (Some (fold (\<lambda>(i, name, mode). set_table_entry i name mode)
          (enumerate 0 domain_files) t))) }"

text \<open>Filling a table with one directory for each element of a list.\<close>

fun decimal :: "nat \<Rightarrow> string" where
  "decimal n = (if n < 10 then [char_of (48 + n)] else decimal (n div 10) @ [char_of (48 + n mod 10)])"

declare decimal.simps [simp del]

primrec fill_directories ::
    "'x kops \<Rightarrow> ('a \<Rightarrow> ('x kst, ctl_entry list option) state) \<Rightarrow> nat \<Rightarrow> (string \<times> 'a) list \<Rightarrow>
     ctl_entry list \<Rightarrow> ('x kst, ctl_entry list) state" where
  "fill_directories K mk i [] table = ret table"
| "fill_directories K mk i (d # ds) table = do {
     name \<leftarrow> kstrdup K (fst d);
     child \<leftarrow> mk (snd d);
     fill_directories K mk (Suc i) ds (table[i := Ctl_entry name 365 child False]) }"

definition sd_alloc_ctl_cpu_table :: "'x kops \<Rightarrow> cpu \<Rightarrow> ('x kst, ctl_entry list option) state" where
  "sd_alloc_ctl_cpu_table K cpu = do {
     sds \<leftarrow> for_each_domain cpu;
     table \<leftarrow> sd_alloc_ctl_entry K (length sds + 1);
     (case table of
        None \<Rightarrow> ret None
      | Some t \<Rightarrow> do {
          t' \<leftarrow> fill_directories K (sd_alloc_ctl_domain_table K) 0
            (map (\<lambda>(i, sd). (''domain'' @ decimal i, sd)) (enumerate 0 sds)) t;
          ret (Some t') }) }"

text \<open>Registering may fail for lack of memory.\<close>

definition register_sched_domain_sysctl :: "'x kops \<Rightarrow> ('x kst, unit) state" where
  "register_sched_domain_sysctl K = do {
     cpus \<leftarrow> gets (\<lambda>s. [i \<leftarrow> possible_cpus. i \<in> k_online s]);
     table \<leftarrow> sd_alloc_ctl_entry K (length cpus + 1);
     busy \<leftarrow> gets (\<lambda>s. k_ctl_child s \<noteq> None);
     when_m busy (log_event Warn);
     modify (\<lambda>s. s\<lparr>k_ctl_child := table\<rparr>);
     (case table of
        None \<Rightarrow> skip
      | Some t \<Rightarrow> do {
          t' \<leftarrow> fill_directories K (sd_alloc_ctl_cpu_table K) 0
            (map (\<lambda>i. (''cpu'' @ decimal i, i)) cpus) t;
          modify (\<lambda>s. s\<lparr>k_ctl_child := Some t'\<rparr>);
          registered \<leftarrow> gets k_ctl_registered;
          when_m registered (log_event Warn);
          ok \<leftarrow> service (kmalloc_ok (services K));
          modify (\<lambda>s. s\<lparr>k_ctl_registered := ok\<rparr>) }) }"

definition unregister_sched_domain_sysctl :: "('x kst, unit) state" where
  "unregister_sched_domain_sysctl = do {
     modify (\<lambda>s. s\<lparr>k_ctl_registered := False\<rparr>);
     child \<leftarrow> gets k_ctl_child;
     (case child of
        None \<Rightarrow> skip
      | Some t \<Rightarrow> do {
          sd_free_ctl_entry t;
          modify (\<lambda>s. s\<lparr>k_ctl_child := None\<rparr>) }) }"

subsection \<open>Bandwidth of the real-time class\<close>

definition upd_rt :: "cpu \<Rightarrow> (rt_rq \<Rightarrow> rt_rq) \<Rightarrow> ('x kst, unit) state" where
  "upd_rt c f = upd_rq c (\<lambda>r. r\<lparr>rq_rt := f (rq_rt r)\<rparr>)"

definition init_rt_bandwidth :: "u64 \<Rightarrow> u64 \<Rightarrow> ('x kst, unit) state" where
  "init_rt_bandwidth period runtime =
     modify (\<lambda>s. s\<lparr>k_def_rt_bandwidth := \<lparr>rtb_period = period, rtb_runtime = runtime\<rparr>\<rparr>)"

definition sched_rt_global_constraints :: "('x kst, int) state" where
  "sched_rt_global_constraints = do {
     y \<leftarrow> gets k_sysctl;
     if sysctl_sched_rt_period y \<le> 0 then ret (- EINVAL)
     else if sysctl_sched_rt_runtime y = 0 then ret (- EBUSY)
     else do {
       flags \<leftarrow> spin_lock_irqsave Rt_bandwidth_lock;
       for_each possible_cpus (\<lambda>i. do {
         spin_lock (Rt_runtime_lock i);
         runtime \<leftarrow> gets (\<lambda>s. global_rt_runtime (k_sysctl s));
         upd_rt i (\<lambda>r. r\<lparr>rt_runtime := runtime\<rparr>);
         spin_unlock (Rt_runtime_lock i) });
       spin_unlock_irqrestore Rt_bandwidth_lock flags;
       ret 0 } }"

definition read_rt_sysctl :: "rt_sysctl \<Rightarrow> sysctls \<Rightarrow> u32" where
  "read_rt_sysctl table y = (case table of
     Sched_rt_period \<Rightarrow> sysctl_sched_rt_period y | Sched_rt_runtime \<Rightarrow> sysctl_sched_rt_runtime y)"

definition store_rt_sysctl :: "rt_sysctl \<Rightarrow> u32 \<Rightarrow> sysctls \<Rightarrow> sysctls" where
  "store_rt_sysctl table v y = (case table of
     Sched_rt_period \<Rightarrow> y\<lparr>sysctl_sched_rt_period := v\<rparr>
   | Sched_rt_runtime \<Rightarrow> y\<lparr>sysctl_sched_rt_runtime := v\<rparr>)"

definition sched_rt_handler :: "'x kops \<Rightarrow> rt_sysctl \<Rightarrow> bool \<Rightarrow> ('x kst, int) state" where
  "sched_rt_handler K table write = do {
     log_event (Spin_lock Rt_handler_mutex);
     old_period \<leftarrow> gets (\<lambda>s. sysctl_sched_rt_period (k_sysctl s));
     old_runtime \<leftarrow> gets (\<lambda>s. sysctl_sched_rt_runtime (k_sysctl s));
     old \<leftarrow> gets (\<lambda>s. read_rt_sysctl table (k_sysctl s));
     (r, v) \<leftarrow> service (proc_dointvec (services K) table write old);
     modify (\<lambda>s. s\<lparr>k_sysctl := store_rt_sysctl table v (k_sysctl s)\<rparr>);
     r' \<leftarrow> (if r = 0 \<and> write then do {
       r' \<leftarrow> sched_rt_global_constraints;
       (if r' \<noteq> 0
        then modify (\<lambda>s. s\<lparr>k_sysctl := (k_sysctl s)\<lparr>sysctl_sched_rt_period := old_period,
          sysctl_sched_rt_runtime := old_runtime\<rparr>\<rparr>)
        else do {
          modify (\<lambda>s. s\<lparr>k_def_rt_bandwidth := (k_def_rt_bandwidth s)\<lparr>rtb_runtime :=
            global_rt_runtime (k_sysctl s)\<rparr>\<rparr>);
          modify (\<lambda>s. s\<lparr>k_def_rt_bandwidth := (k_def_rt_bandwidth s)\<lparr>rtb_period :=
            global_rt_period (k_sysctl s)\<rparr>\<rparr>) });
       ret r' } else ret r);
     log_event (Spin_unlock Rt_handler_mutex);
     ret r' }"

subsection \<open>Features can be written back\<close>

text \<open>What is relied on of the names in \<open>sched_features.h\<close>: none is the beginning of another, none begins
  with \<open>NO_\<close> or is a beginning of it, all fit into the buffer, and there is a bit for each.\<close>

definition feature_names_ok :: "string list \<Rightarrow> bool" where
  "feature_names_ok names \<longleftrightarrow> length names \<le> 32 \<and>
     (\<forall>n \<in> set names. length n \<le> 60 \<and> \<not> prefix n ''NO_'' \<and> \<not> prefix ''NO_'' n) \<and>
     (\<forall>i < length names. \<forall>j < length names. prefix (names ! i) (names ! j) \<longrightarrow> i = j)"

lemma begins_with_prefix: "begins_with a b \<longleftrightarrow> prefix b a"
  by (metis append_eq_conv_conj append_take_drop_id begins_with_def prefix_def)

lemma find_feature_unique:
  assumes "i < length names" and "prefix (names ! i) str"
    and "\<And>j. j < i \<Longrightarrow> \<not> prefix (names ! j) str"
  shows "find_feature k names str = Some (k + i)"
  using assms
proof (induction names arbitrary: i k)
  case (Cons n ns)
  show ?case
  proof (cases i)
    case 0
    with Cons.prems show ?thesis by (simp add: begins_with_prefix)
  next
    case (Suc i')
    have "\<not> prefix n str" using Cons.prems(3) [of 0] Suc by simp
    moreover have "find_feature (Suc k) ns str = Some (Suc k + i')"
      using Cons.prems Suc by (intro Cons.IH) force+
    ultimately show ?thesis using Suc by (simp add: begins_with_prefix)
  qed
qed simp

lemma find_feature_name:
  assumes ok: "feature_names_ok names" and i: "i < length names"
  shows "find_feature 0 names (names ! i) = Some i"
proof -
  have "\<not> prefix (names ! j) (names ! i)" if "j < i" for j
  proof -
    have "j < length names" "j \<noteq> i" using that i by simp_all
    then show ?thesis using ok i unfolding feature_names_ok_def by blast
  qed
  from find_feature_unique [OF i prefix_order.refl this, of 0] show ?thesis by simp
qed

definition token :: "bool \<Rightarrow> string \<Rightarrow> string" where
  "token v name = (if v then name else ''NO_'' @ name)"

definition tokens :: "u32 \<Rightarrow> nat \<Rightarrow> string list \<Rightarrow> string list" where
  "tokens f k names = map (\<lambda>(i, n). token (feature_on f i) n) (enumerate k names)"

lemma show_features_tokens:
  "show_features f k names = concat (map (\<lambda>t. t @ '' '') (tokens f k names))"
  by (induction names arbitrary: k) (simp_all add: tokens_def token_def)

lemma feature_on_bit: "feature_on f i \<longleftrightarrow> bit f i"
  by (auto simp: feature_on_def bit_iff_and_push_bit_not_eq_0)

definition set_feature :: "bool \<Rightarrow> nat \<Rightarrow> u32 \<Rightarrow> u32" where
  "set_feature v i f = (if v then f OR push_bit i 1 else f AND NOT (push_bit i 1))"

lemma bit_set_feature:
  "i < 32 \<Longrightarrow> bit (set_feature v i f) j = (if j = i then v else bit f j)"
  by (auto simp: set_feature_def bit_simps)
    (use bit_imp_le_length [of f j] in simp)

lemma write_token:
  fixes v :: bool and s :: "'x kst"
  assumes ok: "feature_names_ok names" and i: "i < length names"
  defines "t \<equiv> token v (names ! i)"
  shows "run_state (sched_feat_write names (Some t) (length t) pos) s =
    ((int (length t), pos + length t),
     s\<lparr>k_sysctl := (k_sysctl s)\<lparr>sysctl_sched_features := set_feature v i (sysctl_sched_features (k_sysctl s))\<rparr>\<rparr>)"
proof -
  have n: "names ! i \<in> set names" using i by simp
  then have len: "length t \<le> 63" using ok by (auto simp: t_def token_def feature_names_ok_def)
  have neg: "begins_with t ''NO_'' \<longleftrightarrow> \<not> v"
    using ok n by (auto simp: t_def token_def feature_names_ok_def begins_with_prefix)
  have f: "find_feature 0 names (if v then t else drop 3 t) = Some i"
    using find_feature_name [OF ok i] by (simp add: t_def token_def)
  show ?thesis
  proof (cases v)
    case True
    with len neg f show ?thesis by (simp add: sched_feat_write_def Let_def set_feature_def)
  next
    case False
    with len neg f show ?thesis by (simp add: sched_feat_write_def Let_def set_feature_def)
  qed
qed

definition write_all :: "string list \<Rightarrow> string list \<Rightarrow> ('x kst, unit) state" where
  "write_all names ts = for_each ts (\<lambda>t. do { _ \<leftarrow> sched_feat_write names (Some t) (length t) 0; skip })"

lemma write_all_run:
  fixes s :: "'x kst"
  assumes "feature_names_ok names" and "names = ns0 @ ns"
  shows "exec (write_all names (tokens f (length ns0) ns)) s =
    s\<lparr>k_sysctl := (k_sysctl s)\<lparr>sysctl_sched_features :=
      fold (\<lambda>i. set_feature (bit f i) i) [length ns0..<length names] (sysctl_sched_features (k_sysctl s))\<rparr>\<rparr>"
  using assms(2)
proof (induction ns arbitrary: ns0 s)
  case Nil
  then show ?case by (simp add: write_all_def tokens_def)
next
  case (Cons n ns)
  have i: "length ns0 < length names" "names ! length ns0 = n" using Cons.prems by simp_all
  have w: "exec (sched_feat_write names (Some t) (length t) 0) s =
      s\<lparr>k_sysctl := (k_sysctl s)\<lparr>sysctl_sched_features :=
        set_feature (bit f (length ns0)) (length ns0) (sysctl_sched_features (k_sysctl s))\<rparr>\<rparr>"
    if "t = token (bit f (length ns0)) n" for t
    using write_token [OF assms(1) i(1), unfolded i(2), of "bit f (length ns0)" 0 s] that by (simp add: exec_def)
  have IH: "exec (write_all names (tokens f (Suc (length ns0)) ns)) s' =
    s'\<lparr>k_sysctl := (k_sysctl s')\<lparr>sysctl_sched_features :=
      fold (\<lambda>i. set_feature (bit f i) i) [Suc (length ns0)..<length names] (sysctl_sched_features (k_sysctl s'))\<rparr>\<rparr>" for s' :: "'x kst"
    using Cons.IH [of "ns0 @ [n]" s'] Cons.prems by simp
  show ?case
    using IH i(1) by (simp add: write_all_def tokens_def feature_on_bit w upt_conv_Cons)
qed

lemma bit_fold_set_feature:
  "n \<le> 32 \<Longrightarrow> bit (fold (\<lambda>i. set_feature (bit f i) i) [0..<n] g) j = (if j < n then bit f j else bit g j)"
  by (induction n) (auto simp: bit_set_feature less_Suc_eq)

text \<open>C32. What \<open>sched_feat_show\<close> prints is a list of words, and writing these words back one by one, whatever
  the features are by then, restores every feature that has a name; the unnamed bits and the rest
  of the state stay as they are.\<close>

theorem features_roundtrip:
  assumes "feature_names_ok names"
  shows "let f = sysctl_sched_features (k_sysctl s0);
      t' = exec (write_all names (tokens f 0 names)) t
    in result (sched_feat_show names) s0 = concat (map (\<lambda>w. w @ '' '') (tokens f 0 names)) @ [CHR 0x0A] \<and>
      (\<forall>i. bit (sysctl_sched_features (k_sysctl t')) i =
        (if i < length names then bit f i else bit (sysctl_sched_features (k_sysctl t)) i)) \<and>
      t' = t\<lparr>k_sysctl := (k_sysctl t)\<lparr>sysctl_sched_features := sysctl_sched_features (k_sysctl t')\<rparr>\<rparr>"
proof -
  have n: "length names \<le> 32" using assms by (simp add: feature_names_ok_def)
  note w = write_all_run [OF assms, of "[]" names "sysctl_sched_features (k_sysctl s0)" t, simplified]
  show ?thesis
    unfolding Let_def w using n
    by (simp add: sched_feat_show_def show_features_tokens bit_fold_set_feature)
qed

definition demo_features :: "string list" where
  "demo_features = [''LB_BIAS'', ''HRTICK'', ''SYNC_WAKEUPS'']"

lemma demo_features_ok: "feature_names_ok demo_features"
  by (simp add: feature_names_ok_def demo_features_def All_less_Suc numeral_3_eq_3)

theorem features_roundtrip_witness:
  "let t' = exec (write_all demo_features [''LB_BIAS'', ''NO_HRTICK'', ''SYNC_WAKEUPS''])
       ((blank_kst ())\<lparr>k_sysctl := (k_sysctl (blank_kst ()))\<lparr>sysctl_sched_features := 10\<rparr>\<rparr>)
   in bit (sysctl_sched_features (k_sysctl t')) 0 \<and> \<not> bit (sysctl_sched_features (k_sysctl t')) 1 \<and>
      bit (sysctl_sched_features (k_sysctl t')) 2 \<and> bit (sysctl_sched_features (k_sysctl t')) 3"
proof -
  define s0 :: "unit kst" where
    "s0 = (blank_kst ())\<lparr>k_sysctl := (k_sysctl (blank_kst ()))\<lparr>sysctl_sched_features := 5\<rparr>\<rparr>"
  define t :: "unit kst" where
    "t = (blank_kst ())\<lparr>k_sysctl := (k_sysctl (blank_kst ()))\<lparr>sysctl_sched_features := 10\<rparr>\<rparr>"
  have f: "sysctl_sched_features (k_sysctl s0) = 5" "sysctl_sched_features (k_sysctl t) = 10"
    by (simp_all add: s0_def t_def)
  have b: "bit (5 :: u32) 0" "\<not> bit (5 :: u32) 1" "bit (5 :: u32) 2" "bit (10 :: u32) 3"
    by simp_all
  have w: "tokens 5 0 demo_features = [''LB_BIAS'', ''NO_HRTICK'', ''SYNC_WAKEUPS'']"
    by (simp add: tokens_def token_def demo_features_def feature_on_bit)
  show ?thesis
    using features_roundtrip [OF demo_features_ok, of s0 t] b
    unfolding f w Let_def t_def [symmetric] by (simp add: demo_features_def)
qed

subsection \<open>Tables are given back\<close>

lemma held_simps [simp]:
  "held m [] = 0"
  "held m (l @ l') = held m l + held m l'"
  "held m (e # l) = (if e = Alloc m then 1 else if e = Free m then - 1 else 0) + held m l"
  by (simp_all add: held_def)

text \<open>An operation allocates what \<open>own\<close> says of its result.\<close>

definition allocates :: "('x kst, 'a) state \<Rightarrow> ('a \<Rightarrow> memory \<Rightarrow> int) \<Rightarrow> bool" where
  "allocates op own \<longleftrightarrow>
     (\<forall>s k. held k (k_log (exec op s)) = held k (k_log s) + own (result op s) k)"

lemma allocatesD: "allocates op own \<Longrightarrow> held k (k_log (exec op s)) = held k (k_log s) + own (result op s) k"
  by (simp add: allocates_def)

fun freed :: "ctl_entry list \<Rightarrow> sched_event list" where
  "freed [] = [Sched_bug]"
| "freed (Ctl_entry name mode None file # es) =
     (if mode = 0 then [Free Ctl_table]
      else (if \<not> file \<and> name \<noteq> None then [Free Ctl_name] else []) @ freed es)"
| "freed (Ctl_entry name mode (Some child) file # es) =
     (if mode = 0 then [Free Ctl_table]
      else freed child @ (if \<not> file \<and> name \<noteq> None then [Free Ctl_name] else []) @ freed es)"

lemma sd_free_exec [simp]: "exec (sd_free_ctl_entry t) s = s\<lparr>k_log := k_log s @ freed t\<rparr>"
  by (induction t arbitrary: s rule: sd_free_ctl_entry.induct) simp_all

definition freed_entry :: "ctl_entry \<Rightarrow> sched_event list" where
  "freed_entry e = (case ce_child e of None \<Rightarrow> [] | Some c \<Rightarrow> freed c) @
     (if \<not> ce_file e \<and> ce_name e \<noteq> None then [Free Ctl_name] else [])"

lemma freed_filled:
  "\<forall>e \<in> set es. ce_mode e \<noteq> 0 \<Longrightarrow> 0 < n \<Longrightarrow>
   freed (es @ replicate n ctl_terminator) = concat (map freed_entry es) @ [Free Ctl_table]"
proof (induction es)
  case Nil
  then show ?case by (cases n) (simp_all add: ctl_terminator_def)
next
  case (Cons e es)
  obtain nm md ch f where e: "e = Ctl_entry nm md ch f" by (cases e)
  show ?case using Cons by (cases ch) (simp_all add: e freed_entry_def)
qed

text \<open>What a table that may not exist holds.\<close>

definition table_memory :: "ctl_entry list option \<Rightarrow> memory \<Rightarrow> int" where
  "table_memory t k = (case t of None \<Rightarrow> 0 | Some t \<Rightarrow> - held k (freed t))"

definition name_memory :: "string option \<Rightarrow> memory \<Rightarrow> int" where
  "name_memory n k = (if n \<noteq> None \<and> k = Ctl_name then 1 else 0)"

lemma alloc_entry_run:
  "exec (sd_alloc_ctl_entry K n) s =
     s\<lparr>k_ext := snd (kmalloc_ok (services K) (k_ext s)),
       k_log := k_log s @ (if fst (kmalloc_ok (services K) (k_ext s)) then [Alloc Ctl_table] else [])\<rparr>"
  "result (sd_alloc_ctl_entry K n) s =
     (if fst (kmalloc_ok (services K) (k_ext s)) then Some (replicate n ctl_terminator) else None)"
  by (simp_all add: sd_alloc_ctl_entry_def)

lemma kstrdup_run:
  "exec (kstrdup K str) s =
     s\<lparr>k_ext := snd (kmalloc_ok (services K) (k_ext s)),
       k_log := k_log s @ (if fst (kmalloc_ok (services K) (k_ext s)) then [Alloc Ctl_name] else [])\<rparr>"
  "result (kstrdup K str) s = (if fst (kmalloc_ok (services K) (k_ext s)) then Some str else None)"
  by (simp_all add: kstrdup_def)

lemma kstrdup_allocates: "allocates (kstrdup K str) name_memory"
  by (simp add: allocates_def kstrdup_run name_memory_def)

lemma domain_table_filled:
  "fold (\<lambda>(i, name, mode). set_table_entry i name mode) (enumerate 0 domain_files) (replicate 13 ctl_terminator) =
   map (\<lambda>(n, m). Ctl_entry (Some n) m None True) domain_files @ [ctl_terminator]"
  by (simp add: domain_files_def set_table_entry_def eval_nat_numeral)

lemma domain_table_allocates: "allocates (sd_alloc_ctl_domain_table K sd) table_memory"
proof -
  have f: "freed (map (\<lambda>(n, m). Ctl_entry (Some n) m None True) domain_files @ [ctl_terminator]) =
      [Free Ctl_table]"
    using freed_filled [of "map (\<lambda>(n, m). Ctl_entry (Some n) m None True) domain_files" 1]
    by (auto simp: domain_files_def freed_entry_def)
  show ?thesis
    by (simp add: allocates_def sd_alloc_ctl_domain_table_def alloc_entry_run table_memory_def
        domain_table_filled f del: replicate.simps)
qed

lemma fill_allocates:
  fixes s :: "'x kst"
  assumes mk: "\<And>x. allocates (mk x) table_memory"
    and "table = pre @ replicate (length ds + k) ctl_terminator" and "length pre = i"
  shows "\<exists>es. result (fill_directories K mk i ds table) s = pre @ es @ replicate k ctl_terminator \<and>
    (\<forall>e \<in> set es. ce_mode e \<noteq> 0) \<and>
    (\<forall>c. held c (k_log (exec (fill_directories K mk i ds table) s)) =
       held c (k_log s) - held c (concat (map freed_entry es)))"
  using assms(2,3)
proof (induction ds arbitrary: i pre table s)
  case Nil
  then show ?case by simp
next
  case (Cons d ds)
  define name where "name = result (kstrdup K (fst d)) s"
  define s1 where "s1 = exec (kstrdup K (fst d)) s"
  define child where "child = result (mk (snd d)) s1"
  define s2 where "s2 = exec (mk (snd d)) s1"
  define e where "e = Ctl_entry name 365 child False"
  have t: "table[i := e] = (pre @ [e]) @ replicate (length ds + k) ctl_terminator"
    using Cons.prems by (simp add: list_update_append)
  from Cons.IH [OF t, of "Suc i" s2] Cons.prems(2) obtain es where
    es: "result (fill_directories K mk (Suc i) ds (table[i := e])) s2 = (pre @ [e]) @ es @ replicate k ctl_terminator"
      "\<forall>e \<in> set es. ce_mode e \<noteq> 0"
      "\<And>c. held c (k_log (exec (fill_directories K mk (Suc i) ds (table[i := e])) s2)) =
         held c (k_log s2) - held c (concat (map freed_entry es))"
    by auto
  have h: "held c (k_log s2) = held c (k_log s) - held c (freed_entry e)" for c
    using allocatesD [OF mk, of c "snd d" s1] allocatesD [OF kstrdup_allocates, of c K "fst d" s]
    by (auto simp: s1_def [symmetric] s2_def [symmetric] name_def [symmetric] child_def [symmetric]
        table_memory_def name_memory_def freed_entry_def e_def split: option.splits)
  have run: "result (fill_directories K mk i (d # ds) table) s =
      result (fill_directories K mk (Suc i) ds (table[i := e])) s2"
    "exec (fill_directories K mk i (d # ds) table) s = exec (fill_directories K mk (Suc i) ds (table[i := e])) s2"
    by (simp_all add: e_def name_def child_def s2_def s1_def)
  show ?case
    unfolding run using es h by (intro exI [of _ "e # es"]) (simp add: e_def)
qed

lemma filled_allocates:
  assumes mk: "\<And>x. allocates (mk x) table_memory"
  shows "allocates (do {
      table \<leftarrow> sd_alloc_ctl_entry K (length ds + 1);
      (case table of None \<Rightarrow> ret None
       | Some t \<Rightarrow> do { t' \<leftarrow> fill_directories K mk 0 ds t; ret (Some t') }) }) table_memory"
  unfolding allocates_def
proof (intro allI)
  fix s :: "'b kst" and k
  define s1 where "s1 = exec (sd_alloc_ctl_entry K (length ds + 1)) s"
  obtain es where es: "result (fill_directories K mk 0 ds (replicate (length ds + 1) ctl_terminator)) s1 =
        es @ replicate 1 ctl_terminator" "\<forall>e \<in> set es. ce_mode e \<noteq> 0"
      "\<And>c. held c (k_log (exec (fill_directories K mk 0 ds (replicate (length ds + 1) ctl_terminator)) s1)) =
       held c (k_log s1) - held c (concat (map freed_entry es))"
    using fill_allocates [of mk "replicate (length ds + 1) ctl_terminator" "[]" ds 1 0 K s1] mk by auto
  show "held k (k_log (exec (do {
      table \<leftarrow> sd_alloc_ctl_entry K (length ds + 1);
      (case table of None \<Rightarrow> ret None
       | Some t \<Rightarrow> do { t' \<leftarrow> fill_directories K mk 0 ds t; ret (Some t') }) }) s)) =
    held k (k_log s) + table_memory (result (do {
      table \<leftarrow> sd_alloc_ctl_entry K (length ds + 1);
      (case table of None \<Rightarrow> ret None
       | Some t \<Rightarrow> do { t' \<leftarrow> fill_directories K mk 0 ds t; ret (Some t') }) }) s) k"
    using es freed_filled [OF es(2), of 1]
    by (cases "fst (kmalloc_ok (services K) (k_ext s))")
      (simp_all add: alloc_entry_run s1_def table_memory_def)
qed

lemma allocates_gets: "(\<And>x. allocates (f x) own) \<Longrightarrow> allocates (State_Monad.bind (gets g) f) own"
  by (simp add: allocates_def)

lemma cpu_table_allocates: "allocates (sd_alloc_ctl_cpu_table K cpu) table_memory"
proof -
  have l: "length (map (\<lambda>(i, sd). (''domain'' @ decimal i, sd)) (enumerate 0 sds)) = length sds" for sds :: "nat list"
    by simp
  have f: "allocates (do {
      table \<leftarrow> sd_alloc_ctl_entry K (length sds + 1);
      (case table of None \<Rightarrow> ret None
       | Some t \<Rightarrow> do {
           t' \<leftarrow> fill_directories K (sd_alloc_ctl_domain_table K) 0
             (map (\<lambda>(i, sd). (''domain'' @ decimal i, sd)) (enumerate 0 sds)) t;
           ret (Some t') }) }) table_memory" for sds
    using filled_allocates [where K = K and mk = "sd_alloc_ctl_domain_table K"
        and ds = "map (\<lambda>(i, sd). (''domain'' @ decimal i, sd)) (enumerate 0 sds)", OF domain_table_allocates]
    unfolding l .
  show ?thesis
    unfolding sd_alloc_ctl_cpu_table_def for_each_domain_def by (intro allocates_gets f)
qed

lemma register_run:
  fixes s :: "'x kst" and K :: "'x kops"
  defines "s' \<equiv> exec (register_sched_domain_sysctl K) s"
  shows "held k (k_log s') = held k (k_log s) + table_memory (k_ctl_child s') k"
proof -
  define cpus where "cpus = [i \<leftarrow> possible_cpus. i \<in> k_online s]"
  define ds where "ds = map (\<lambda>i. (''cpu'' @ decimal i, i)) cpus"
  define s1 where "s1 = exec (sd_alloc_ctl_entry K (length cpus + 1)) s"
  define warn where "warn = (if k_ctl_child s1 \<noteq> None then [Warn] else [])"
  define s2 where "s2 = s1\<lparr>k_log := k_log s1 @ warn,
    k_ctl_child := Some (replicate (length cpus + 1) ctl_terminator)\<rparr>"
  define t where "t = replicate (length cpus + 1) ctl_terminator"
  have len: "length ds = length cpus" by (simp add: ds_def)
  obtain es where es: "result (fill_directories K (sd_alloc_ctl_cpu_table K) 0 ds t) s2 = es @ replicate 1 ctl_terminator"
      "\<forall>e \<in> set es. ce_mode e \<noteq> 0"
      "held k (k_log (exec (fill_directories K (sd_alloc_ctl_cpu_table K) 0 ds t) s2)) =
       held k (k_log s2) - held k (concat (map freed_entry es))"
    using fill_allocates [of "sd_alloc_ctl_cpu_table K" t "[]" ds 1 0 K s2] cpu_table_allocates
    by (auto simp: t_def len)
  show ?thesis
  proof (cases "fst (kmalloc_ok (services K) (k_ext s))")
    case False
    then show ?thesis
      by (simp add: s'_def register_sched_domain_sysctl_def alloc_entry_run table_memory_def)
  next
    case True
    define s3 where "s3 = exec (fill_directories K (sd_alloc_ctl_cpu_table K) 0 ds t) s2"
    have fold_t: "replicate (Suc (length cpus)) ctl_terminator = t" by (simp add: t_def)
    have fold_ds: "map (\<lambda>i. (CHR ''c'' # CHR ''p'' # CHR ''u'' # decimal i, i)) cpus = ds" by (simp add: ds_def)
    have s': "held k (k_log s') = held k (k_log s3)"
      "k_ctl_child s' = Some (result (fill_directories K (sd_alloc_ctl_cpu_table K) 0 ds t) s2)"
      using True
      by (simp_all add: s'_def register_sched_domain_sysctl_def alloc_entry_run s3_def s2_def s1_def warn_def
          cpus_def [symmetric] fold_ds fold_t Let_def del: replicate.simps)
    have "held k (k_log s2) = held k (k_log s) + (if k = Ctl_table then 1 else 0)"
      using True by (simp add: s2_def s1_def warn_def alloc_entry_run)
    then show ?thesis
      using s' es freed_filled [OF es(2), of 1] by (simp add: s3_def table_memory_def)
  qed
qed

lemma unregister_run:
  "exec unregister_sched_domain_sysctl s = s\<lparr>k_ctl_registered := False, k_ctl_child := None,
     k_log := k_log s @ (case k_ctl_child s of None \<Rightarrow> [] | Some t \<Rightarrow> freed t)\<rparr>"
  by (simp add: unregister_sched_domain_sysctl_def split: option.split)

text \<open>C30. The \<open>sysctl\<close> tables of the scheduling domains: whatever allocations fail while they are
  built, unregistering them gives back exactly what registering took, and leaves nothing
  registered.\<close>

theorem domain_tables_given_back:
  "let s' = exec unregister_sched_domain_sysctl (exec (register_sched_domain_sysctl K) s)
   in held k (k_log s') = held k (k_log s) \<and> k_ctl_child s' = None \<and> \<not> k_ctl_registered s'"
  using register_run [of k K s]
  by (simp add: Let_def unregister_run table_memory_def split: option.splits)

subsection \<open>The bandwidth follows the settings\<close>

text \<open>The settings are valid and every runqueue and the default bandwidth have the values they stand for.\<close>

definition bandwidth_agrees :: "'x kst \<Rightarrow> bool" where
  "bandwidth_agrees s \<longleftrightarrow>
     sysctl_sched_rt_period (k_sysctl s) \<noteq> 0 \<and> sysctl_sched_rt_runtime (k_sysctl s) \<noteq> 0 \<and>
     rtb_period (k_def_rt_bandwidth s) = global_rt_period (k_sysctl s) \<and>
     rtb_runtime (k_def_rt_bandwidth s) = global_rt_runtime (k_sysctl s) \<and>
     (\<forall>c \<in> set possible_cpus. rt_runtime (rq_rt (k_rq s c)) = global_rt_runtime (k_sysctl s))"

definition set_runtimes :: "u64 \<Rightarrow> cpu list \<Rightarrow> (cpu \<Rightarrow> rq) \<Rightarrow> cpu \<Rightarrow> rq" where
  "set_runtimes v cs q c = (if c \<in> set cs then (q c)\<lparr>rq_rt := (rq_rt (q c))\<lparr>rt_runtime := v\<rparr>\<rparr> else q c)"

lemma runtimes_run:
  "\<exists>l. exec (for_each cs (\<lambda>i. do {
       spin_lock (Rt_runtime_lock i);
       runtime \<leftarrow> gets (\<lambda>s. global_rt_runtime (k_sysctl s));
       upd_rt i (\<lambda>r. r\<lparr>rt_runtime := runtime\<rparr>);
       spin_unlock (Rt_runtime_lock i) })) s =
     s\<lparr>k_rq := set_runtimes (global_rt_runtime (k_sysctl s)) cs (k_rq s), k_log := l\<rparr>"
proof (induction cs arbitrary: s)
  case Nil
  have "set_runtimes v [] q = q" for v q by (simp add: set_runtimes_def fun_eq_iff)
  then show ?case by (intro exI [of _ "k_log s"]) simp
next
  case (Cons c cs)
  have e: "set_runtimes v cs (q(c := (q c)\<lparr>rq_rt := (rq_rt (q c))\<lparr>rt_runtime := v\<rparr>\<rparr>)) =
      set_runtimes v (c # cs) q" for v q
    by (auto simp: set_runtimes_def fun_eq_iff)
  define s1 where "s1 = s\<lparr>k_rq := (k_rq s)(c := (k_rq s c)\<lparr>rq_rt := (rq_rt (k_rq s c))
      \<lparr>rt_runtime := global_rt_runtime (k_sysctl s)\<rparr>\<rparr>),
    k_log := k_log s @ [Spin_lock (Rt_runtime_lock c), Spin_unlock (Rt_runtime_lock c)]\<rparr>"
  obtain l where "exec (for_each cs (\<lambda>i. do {
       spin_lock (Rt_runtime_lock i);
       runtime \<leftarrow> gets (\<lambda>s. global_rt_runtime (k_sysctl s));
       upd_rt i (\<lambda>r. r\<lparr>rt_runtime := runtime\<rparr>);
       spin_unlock (Rt_runtime_lock i) })) s1 =
     s1\<lparr>k_rq := set_runtimes (global_rt_runtime (k_sysctl s1)) cs (k_rq s1), k_log := l\<rparr>"
    using Cons [of s1] by blast
  then show ?case by (intro exI [of _ l]) (simp add: upd_rt_def s1_def e)
qed

lemma constraints_run:
  "\<exists>l. run_state sched_rt_global_constraints s =
     (if sysctl_sched_rt_period (k_sysctl s) = 0 then (- EINVAL, s\<lparr>k_log := l\<rparr>)
      else if sysctl_sched_rt_runtime (k_sysctl s) = 0 then (- EBUSY, s\<lparr>k_log := l\<rparr>)
      else (0, s\<lparr>k_rq := set_runtimes (global_rt_runtime (k_sysctl s)) possible_cpus (k_rq s), k_log := l\<rparr>))"
proof -
  obtain l where l: "exec (for_each possible_cpus (\<lambda>i. do {
       spin_lock (Rt_runtime_lock i);
       runtime \<leftarrow> gets (\<lambda>s. global_rt_runtime (k_sysctl s));
       upd_rt i (\<lambda>r. r\<lparr>rt_runtime := runtime\<rparr>);
       spin_unlock (Rt_runtime_lock i) })) (s\<lparr>k_irqs_off := True, k_log := k_log s @ [Irq_off, Spin_lock Rt_bandwidth_lock]\<rparr>) =
     (s\<lparr>k_irqs_off := True, k_log := k_log s @ [Irq_off, Spin_lock Rt_bandwidth_lock]\<rparr>)
       \<lparr>k_rq := set_runtimes (global_rt_runtime (k_sysctl s)) possible_cpus (k_rq s), k_log := l\<rparr>"
    using runtimes_run [of possible_cpus "s\<lparr>k_irqs_off := True, k_log := k_log s @ [Irq_off, Spin_lock Rt_bandwidth_lock]\<rparr>"]
    by auto
  show ?thesis
    using l unfolding run_pair sched_rt_global_constraints_def
    by (intro exI [of _ "if sysctl_sched_rt_period (k_sysctl s) = 0 \<or> sysctl_sched_rt_runtime (k_sysctl s) = 0
      then k_log s else l @ [Spin_unlock Rt_bandwidth_lock, Irq_restore (k_irqs_off s)]"]) simp
qed

definition rt_verdict :: "sysctls \<Rightarrow> int" where
  "rt_verdict y = (if sysctl_sched_rt_period y = 0 then - EINVAL
     else if sysctl_sched_rt_runtime y = 0 then - EBUSY else 0)"

lemma rt_verdict_0: "rt_verdict y = 0 \<longleftrightarrow> sysctl_sched_rt_period y \<noteq> 0 \<and> sysctl_sched_rt_runtime y \<noteq> 0"
  by (simp add: rt_verdict_def EINVAL_def EBUSY_def)

lemma constraints_verdict:
  "\<exists>l. run_state sched_rt_global_constraints s = (rt_verdict (k_sysctl s),
     if rt_verdict (k_sysctl s) = 0
     then s\<lparr>k_rq := set_runtimes (global_rt_runtime (k_sysctl s)) possible_cpus (k_rq s), k_log := l\<rparr>
     else s\<lparr>k_log := l\<rparr>)"
  using constraints_run [of s] by (auto simp: rt_verdict_def EINVAL_def EBUSY_def)

lemma restore_sysctl:
  "(store_rt_sysctl table v y)\<lparr>sysctl_sched_rt_period := sysctl_sched_rt_period y,
     sysctl_sched_rt_runtime := sysctl_sched_rt_runtime y\<rparr> = y"
  by (cases table) (simp_all add: store_rt_sysctl_def)

text \<open>The outcome of a write that was parsed without error.\<close>

lemma rt_handler_write:
  fixes s :: "'x kst"
  assumes p: "proc_dointvec (services K) table True (read_rt_sysctl table (k_sysctl s)) (k_ext s) = ((0, v), x)"
  defines "y \<equiv> store_rt_sysctl table v (k_sysctl s)"
  shows "\<exists>l. run_state (sched_rt_handler K table True) s = (rt_verdict y,
    if rt_verdict y = 0
    then s\<lparr>k_sysctl := y, k_rq := set_runtimes (global_rt_runtime y) possible_cpus (k_rq s),
      k_def_rt_bandwidth := \<lparr>rtb_period = global_rt_period y, rtb_runtime = global_rt_runtime y\<rparr>,
      k_ext := x, k_log := l\<rparr>
    else s\<lparr>k_ext := x, k_log := l\<rparr>)"
proof -
  define s1 where "s1 = s\<lparr>k_sysctl := y, k_ext := x, k_log := k_log s @ [Spin_lock Rt_handler_mutex]\<rparr>"
  have y1: "k_sysctl s1 = y" by (simp add: s1_def)
  obtain l where "run_state sched_rt_global_constraints s1 = (rt_verdict y,
     if rt_verdict y = 0 then s1\<lparr>k_rq := set_runtimes (global_rt_runtime y) possible_cpus (k_rq s1), k_log := l\<rparr>
     else s1\<lparr>k_log := l\<rparr>)"
    using constraints_verdict [of s1] unfolding y1 by blast
  then have c: "result sched_rt_global_constraints s1 = rt_verdict y"
    "exec sched_rt_global_constraints s1 = (if rt_verdict y = 0
       then s1\<lparr>k_rq := set_runtimes (global_rt_runtime y) possible_cpus (k_rq s1), k_log := l\<rparr>
       else s1\<lparr>k_log := l\<rparr>)"
    by (simp_all add: result_def exec_def)
  have s1': "s\<lparr>k_log := k_log s @ [Spin_lock Rt_handler_mutex], k_ext := x, k_sysctl := y\<rparr> = s1"
    by (simp add: s1_def)
  have r: "y\<lparr>sysctl_sched_rt_period := sysctl_sched_rt_period (k_sysctl s),
      sysctl_sched_rt_runtime := sysctl_sched_rt_runtime (k_sysctl s)\<rparr> = k_sysctl s"
    unfolding y_def by (rule restore_sysctl)
  show ?thesis
  proof (cases "rt_verdict y = 0")
    case True
    then show ?thesis
      using p c unfolding run_pair
      by (intro exI [of _ "l @ [Spin_unlock Rt_handler_mutex]"])
        (simp add: sched_rt_handler_def y_def [symmetric] s1' , simp add: s1_def)
  next
    case False
    then show ?thesis
      using p c r unfolding run_pair
      by (intro exI [of _ "l @ [Spin_unlock Rt_handler_mutex]"])
        (simp add: sched_rt_handler_def y_def [symmetric] s1', simp add: s1_def)
  qed
qed

lemma rt_handler_other:
  fixes s :: "'x kst"
  assumes p: "proc_dointvec (services K) table write (read_rt_sysctl table (k_sysctl s)) (k_ext s) =
      ((r, read_rt_sysctl table (k_sysctl s)), x)"
    and "r \<noteq> 0 \<or> \<not> write"
  shows "\<exists>l. run_state (sched_rt_handler K table write) s = (r, s\<lparr>k_ext := x, k_log := l\<rparr>)"
proof -
  have y: "store_rt_sysctl table (read_rt_sysctl table y) y = y" for y
    by (cases table) (simp_all add: store_rt_sysctl_def read_rt_sysctl_def)
  have "\<not> (r = 0 \<and> write)" using assms(2) by simp
  then show ?thesis
    unfolding run_pair
    by (intro exI [of _ "k_log s @ [Spin_lock Rt_handler_mutex, Spin_unlock Rt_handler_mutex]"])
      (auto simp: sched_rt_handler_def p y)
qed

text \<open>What is relied on of \<open>proc_dointvec\<close>: a read or a refused write leaves the variable alone.\<close>

definition dointvec_law :: "'x kops \<Rightarrow> bool" where
  "dointvec_law K \<longleftrightarrow> (\<forall>table write v x.
     (fst (fst (proc_dointvec (services K) table write v x)) \<noteq> 0 \<or> \<not> write) \<longrightarrow>
     snd (fst (proc_dointvec (services K) table write v x)) = v)"

text \<open>C31. \<open>sched_rt_handler\<close>, all or nothing: the real-time bandwidth always agrees with the settings. A
  refused change leaves settings, bandwidth and runqueues as they were; an accepted one has the
  new value in the settings.\<close>

theorem rt_settings_all_or_nothing:
  fixes s :: "'x kst"
  assumes law: "dointvec_law K" and agrees: "bandwidth_agrees s"
  shows "let s' = exec (sched_rt_handler K table write) s;
      v = snd (fst (proc_dointvec (services K) table write (read_rt_sysctl table (k_sysctl s)) (k_ext s)))
    in bandwidth_agrees s' \<and>
      (if result (sched_rt_handler K table write) s = 0
       then k_sysctl s' = store_rt_sysctl table v (k_sysctl s)
       else k_sysctl s' = k_sysctl s \<and> k_def_rt_bandwidth s' = k_def_rt_bandwidth s \<and> k_rq s' = k_rq s)"
proof -
  obtain r v x where p: "proc_dointvec (services K) table write (read_rt_sysctl table (k_sysctl s)) (k_ext s) = ((r, v), x)"
    by (metis surj_pair)
  define y where "y = store_rt_sysctl table v (k_sysctl s)"
  show ?thesis
  proof (cases "r = 0 \<and> write")
    case True
    then obtain l where run: "run_state (sched_rt_handler K table write) s = (rt_verdict y,
      if rt_verdict y = 0
      then s\<lparr>k_sysctl := y, k_rq := set_runtimes (global_rt_runtime y) possible_cpus (k_rq s),
        k_def_rt_bandwidth := \<lparr>rtb_period = global_rt_period y, rtb_runtime = global_rt_runtime y\<rparr>,
        k_ext := x, k_log := l\<rparr>
      else s\<lparr>k_ext := x, k_log := l\<rparr>)"
      using rt_handler_write [of K table s v x] p unfolding y_def by auto
    then have res: "result (sched_rt_handler K table write) s = rt_verdict y"
      "exec (sched_rt_handler K table write) s = (if rt_verdict y = 0
      then s\<lparr>k_sysctl := y, k_rq := set_runtimes (global_rt_runtime y) possible_cpus (k_rq s),
        k_def_rt_bandwidth := \<lparr>rtb_period = global_rt_period y, rtb_runtime = global_rt_runtime y\<rparr>,
        k_ext := x, k_log := l\<rparr>
      else s\<lparr>k_ext := x, k_log := l\<rparr>)"
      by (simp_all add: result_def exec_def)
    show ?thesis
    proof (cases "rt_verdict y = 0")
      case True
      then have "sysctl_sched_rt_period y \<noteq> 0" "sysctl_sched_rt_runtime y \<noteq> 0"
        by (simp_all add: rt_verdict_0)
      then show ?thesis
        using True by (simp add: Let_def res p y_def [symmetric] bandwidth_agrees_def set_runtimes_def)
    next
      case False
      then show ?thesis using agrees by (simp add: Let_def res p bandwidth_agrees_def)
    qed
  next
    case False
    then have v: "v = read_rt_sysctl table (k_sysctl s)"
      using law p unfolding dointvec_law_def by (metis fst_conv snd_conv)
    obtain l where "run_state (sched_rt_handler K table write) s = (r, s\<lparr>k_ext := x, k_log := l\<rparr>)"
      using rt_handler_other [of K table "write" s r x] p False unfolding v by auto
    then have "result (sched_rt_handler K table write) s = r"
      "exec (sched_rt_handler K table write) s = s\<lparr>k_ext := x, k_log := l\<rparr>"
      by (simp_all add: result_def exec_def)
    moreover have "store_rt_sysctl table v (k_sysctl s) = k_sysctl s"
      by (cases table) (simp_all add: v store_rt_sysctl_def read_rt_sysctl_def)
    ultimately show ?thesis using agrees by (simp add: Let_def p bandwidth_agrees_def)
  qed
qed

text \<open>Its check of the period compares an unsigned number with 0, so only 0 is refused: a period that was
  written as -1 is accepted, and so is a run time above the period.\<close>

lemma negative_period_accepted:
  fixes s :: "'x kst"
  assumes "proc_dointvec (services K) Sched_rt_period True (sysctl_sched_rt_period (k_sysctl s)) (k_ext s) = ((0, - 1), x)"
    and "sysctl_sched_rt_runtime (k_sysctl s) \<noteq> 0"
  shows "result (sched_rt_handler K Sched_rt_period True) s = 0"
  using rt_handler_write [of K Sched_rt_period s "- 1" x] assms
  by (auto simp: read_rt_sysctl_def store_rt_sysctl_def rt_verdict_def result_def)

definition writing_kops :: "u32 \<Rightarrow> unit kops" where
  "writing_kops v = demo_kops\<lparr>services := (services demo_kops)\<lparr>proc_dointvec :=
     (\<lambda>_ write old x. ((0, if write then v else old), x))\<rparr>\<rparr>"

lemma demo_agrees: "bandwidth_agrees (blank_kst ())"
  by (simp add: bandwidth_agrees_def blank_kst_def blank_rq_def global_rt_period_def global_rt_runtime_def
      NSEC_PER_USEC_def possible_cpus_def NR_CPUS_def)

theorem rt_settings_all_or_nothing_witness:
  "bandwidth_agrees (exec (sched_rt_handler (writing_kops 900000) Sched_rt_runtime True) (blank_kst ())) \<and>
   bandwidth_agrees (exec (sched_rt_handler (writing_kops 0) Sched_rt_runtime True) (blank_kst ()))"
proof -
  have l: "dointvec_law (writing_kops v)" for v
    by (simp add: dointvec_law_def writing_kops_def)
  show ?thesis
    using rt_settings_all_or_nothing [OF l demo_agrees, of 900000 Sched_rt_runtime True]
      rt_settings_all_or_nothing [OF l demo_agrees, of 0 Sched_rt_runtime True]
    by (simp add: Let_def)
qed

end
