(* ===== verification/Sched_domains.thy ===== *)
theory Sched_domains
  imports Sched_tunables
begin

text \<open>
  \<open>sched_mod.c\<close>, lines 7776 to 9272: the construction of scheduling domains and root domains. The
  configuration has neither NUMA nor SMT nor multi-core domains: every CPU has one domain, of level
  \<open>SD_LV_CPU\<close>, and every group one CPU. The per-CPU domain \<open>phys_domains\<close> and group \<open>sched_group_phys\<close> of a
  CPU have the number of the CPU. A pointer to a group is a number, so the tests for a group that
  is \<open>NULL\<close> have no counterpart.
\<close>

definition SD_WAKE_AFFINE :: u32 where "SD_WAKE_AFFINE = 0x0020"
definition SD_SHARE_PKG_RESOURCES :: u32 where "SD_SHARE_PKG_RESOURCES = 0x0200"

datatype sched_domain_level = SD_LV_NONE | SD_LV_SIBLING | SD_LV_MC | SD_LV_CPU | SD_LV_NODE | SD_LV_ALLNODES

primrec level_no :: "sched_domain_level \<Rightarrow> nat" where
  "level_no SD_LV_NONE = 0" | "level_no SD_LV_SIBLING = 1" | "level_no SD_LV_MC = 2"
| "level_no SD_LV_CPU = 3" | "level_no SD_LV_NODE = 4" | "level_no SD_LV_ALLNODES = 5"

text \<open>The CPUs of a mask in the order of \<open>for_each_cpu\<close>.\<close>

definition cpus_of :: "cpumask \<Rightarrow> cpu list" where
  "cpus_of m = [i \<leftarrow> possible_cpus. i \<in> m]"

subsection \<open>Looking at a domain\<close>

datatype complaint =
    Does_not_load_balance
  | No_load_balance_but_parent
  | Span_lacks_cpu
  | Groups_lack_cpu
  | Cpu_power_not_set
  | Empty_group
  | Repeated_cpus
  | Groups_do_not_span
  | Parent_not_superset

text \<open>The walk around the groups in \<open>sched_domain_debug_one\<close>: the complaints and the CPUs seen.\<close>

fun debug_groups :: "nat \<Rightarrow> (nat \<Rightarrow> sched_group) \<Rightarrow> nat \<Rightarrow> nat \<Rightarrow> cpumask \<Rightarrow> (complaint list \<times> cpumask) option" where
  "debug_groups 0 sgs first g groupmask = None"
| "debug_groups (Suc n) sgs first g groupmask =
     (if sg_cpu_power (sgs g) = 0 then Some ([Cpu_power_not_set], groupmask)
      else if cpumask_weight (sg_cpumask (sgs g)) = 0 then Some ([Empty_group], groupmask)
      else if groupmask \<inter> sg_cpumask (sgs g) \<noteq> {} then Some ([Repeated_cpus], groupmask)
      else let groupmask' = groupmask \<union> sg_cpumask (sgs g) in
        if sg_next (sgs g) = first then Some ([], groupmask')
        else debug_groups n sgs first (sg_next (sgs g)) groupmask')"

text \<open>The answer: whether the chain of domains ends here, and what is printed as an error.\<close>

definition sched_domain_debug_one ::
    "nat \<Rightarrow> (nat \<Rightarrow> sched_domain) \<Rightarrow> (nat \<Rightarrow> sched_group) \<Rightarrow> nat \<Rightarrow> cpu \<Rightarrow> (bool \<times> complaint list) option" where
  "sched_domain_debug_one fuel sds sgs sd cpu = (let d = sds sd in
     if sd_flags d AND SD_LOAD_BALANCE = 0
     then Some (True, Does_not_load_balance # (if sd_parent d \<noteq> None then [No_load_balance_but_parent] else []))
     else case debug_groups fuel sgs (sd_groups d) (sd_groups d) {} of
       None \<Rightarrow> None
     | Some (cs, groupmask) \<Rightarrow> Some (False,
         (if cpu \<notin> sd_span d then [Span_lacks_cpu] else []) @
         (if cpu \<notin> sg_cpumask (sgs (sd_groups d)) then [Groups_lack_cpu] else []) @ cs @
         (if sd_span d \<noteq> groupmask then [Groups_do_not_span] else []) @
         (case sd_parent d of
            None \<Rightarrow> []
          | Some p \<Rightarrow> if groupmask \<subseteq> sd_span (sds p) then [] else [Parent_not_superset])))"

text \<open>All complaints about the domains of a CPU, from the lowest one up; \<open>None\<close> if they go on for ever.\<close>

fun sched_domain_debug ::
    "nat \<Rightarrow> (nat \<Rightarrow> sched_domain) \<Rightarrow> (nat \<Rightarrow> sched_group) \<Rightarrow> nat option \<Rightarrow> cpu \<Rightarrow> complaint list option" where
  "sched_domain_debug fuel sds sgs None cpu = Some []"
| "sched_domain_debug 0 sds sgs (Some sd) cpu = None"
| "sched_domain_debug (Suc n) sds sgs (Some sd) cpu =
     (case sched_domain_debug_one (Suc n) sds sgs sd cpu of
        None \<Rightarrow> None
      | Some (True, cs) \<Rightarrow> Some cs
      | Some (False, cs) \<Rightarrow> map_option (\<lambda>cs'. cs @ cs') (sched_domain_debug n sds sgs (sd_parent (sds sd)) cpu))"

definition group_flags :: u32 where
  "group_flags = SD_LOAD_BALANCE OR SD_BALANCE_NEWIDLE OR SD_BALANCE_FORK OR SD_BALANCE_EXEC OR
     SD_SHARE_CPUPOWER OR SD_SHARE_PKG_RESOURCES"

definition one_group :: "(nat \<Rightarrow> sched_group) \<Rightarrow> sched_domain \<Rightarrow> bool" where
  "one_group sgs d \<longleftrightarrow> sd_groups d = sg_next (sgs (sd_groups d))"

definition sd_degenerate :: "(nat \<Rightarrow> sched_group) \<Rightarrow> sched_domain \<Rightarrow> bool" where
  "sd_degenerate sgs d =
     (if cpumask_weight (sd_span d) = 1 then True
      else if sd_flags d AND group_flags \<noteq> 0 \<and> \<not> one_group sgs d then False
      else if sd_flags d AND SD_WAKE_AFFINE \<noteq> 0 then False
      else True)"

definition sd_parent_degenerate :: "(nat \<Rightarrow> sched_group) \<Rightarrow> sched_domain \<Rightarrow> sched_domain \<Rightarrow> bool" where
  "sd_parent_degenerate sgs d parent =
     (if sd_degenerate sgs parent then True
      else if sd_span d \<noteq> sd_span parent then False
      else let cflags = sd_flags d;
          pflags = (if one_group sgs parent
            then (let f = sd_flags parent AND NOT group_flags in
              if nr_node_ids = 1 then f AND NOT SD_SERIALIZE else f)
            else sd_flags parent)
        in NOT cflags AND pflags = 0)"

subsection \<open>Memory\<close>

definition alloc_mask :: "'x kops \<Rightarrow> memory \<Rightarrow> ('x kst, bool) state" where
  "alloc_mask K m = do {
     ok \<leftarrow> service (alloc_cpumask_var (services K));
     when_m ok (log_event (Alloc m));
     ret ok }"

definition free_mask :: "memory \<Rightarrow> ('x kst, unit) state" where
  "free_mask m = log_event (Free m)"

subsection \<open>Root domains\<close>

definition DEF_ROOT_DOMAIN :: nat where "DEF_ROOT_DOMAIN = 0"

definition free_rootdomain :: "nat \<Rightarrow> ('x kst, unit) state" where
  "free_rootdomain rd = do {
     log_event (Free (Cpupri rd));
     free_mask (Rd_rto_mask rd);
     free_mask (Rd_online rd);
     free_mask (Rd_span rd);
     log_event (Free (Root_domain rd)) }"

text \<open>The state while the lock of the runqueue is held.\<close>

definition leave_root :: "'x kops \<Rightarrow> cpu \<Rightarrow> ('x kst, nat option) state" where
  "leave_root K rq = do {
     rd \<leftarrow> rq_get rq rq_rd;
     (case rd of
        None \<Rightarrow> ret None
      | Some old_rd \<Rightarrow> do {
          online \<leftarrow> gets (\<lambda>s. rq \<in> rd_online (k_rd s old_rd));
          when_m online (set_rq_offline K rq);
          upd_rd rd (\<lambda>d. d\<lparr>rd_span := rd_span d - {rq}\<rparr>);
          upd_rd rd (\<lambda>d. d\<lparr>rd_refcount := rd_refcount d - 1\<rparr>);
          last \<leftarrow> gets (\<lambda>s. rd_refcount (k_rd s old_rd) = 0);
          ret (if last then Some old_rd else None) }) }"

definition enter_root :: "'x kops \<Rightarrow> cpu \<Rightarrow> nat \<Rightarrow> ('x kst, unit) state" where
  "enter_root K rq rd = do {
     upd_rd (Some rd) (\<lambda>d. d\<lparr>rd_refcount := rd_refcount d + 1\<rparr>);
     upd_rq rq (\<lambda>r. r\<lparr>rq_rd := Some rd\<rparr>);
     upd_rd (Some rd) (\<lambda>d. d\<lparr>rd_span := insert rq (rd_span d)\<rparr>);
     active \<leftarrow> gets (\<lambda>s. rq \<in> k_active s);
     when_m active (set_rq_online K rq) }"

definition rq_attach_root :: "'x kops \<Rightarrow> cpu \<Rightarrow> nat \<Rightarrow> ('x kst, unit) state" where
  "rq_attach_root K rq rd = do {
     flags \<leftarrow> spin_lock_irqsave (Rq_lock rq);
     old_rd \<leftarrow> leave_root K rq;
     enter_root K rq rd;
     spin_unlock_irqrestore (Rq_lock rq) flags;
     (case old_rd of None \<Rightarrow> skip | Some d \<Rightarrow> free_rootdomain d) }"

text \<open>Answers whether the root domain could be initialised; if not, the masks are given back in reverse order.\<close>

definition init_rootdomain :: "'x kops \<Rightarrow> nat \<Rightarrow> ('x kst, bool) state" where
  "init_rootdomain K rd = do {
     upd_rd (Some rd) (\<lambda>_. \<lparr>rd_refcount = 0, rd_span = {}, rd_online = {}\<rparr>);
     span \<leftarrow> alloc_mask K (Rd_span rd);
     if \<not> span then ret False
     else do {
       online \<leftarrow> alloc_mask K (Rd_online rd);
       if \<not> online then do { free_mask (Rd_span rd); ret False }
       else do {
         rto \<leftarrow> alloc_mask K (Rd_rto_mask rd);
         if \<not> rto then do { free_mask (Rd_online rd); free_mask (Rd_span rd); ret False }
         else do {
           pri \<leftarrow> service (cpupri_init (services K) rd);
           if \<not> pri then do {
             free_mask (Rd_rto_mask rd); free_mask (Rd_online rd); free_mask (Rd_span rd); ret False }
           else do { log_event (Alloc (Cpupri rd)); ret True } } } } }"

definition init_defrootdomain :: "'x kops \<Rightarrow> ('x kst, unit) state" where
  "init_defrootdomain K = do {
     _ \<leftarrow> init_rootdomain K DEF_ROOT_DOMAIN;
     upd_rd (Some DEF_ROOT_DOMAIN) (\<lambda>d. d\<lparr>rd_refcount := 1\<rparr>) }"

text \<open>The memory is \<open>kmalloc\<close>'s, which knows what it has given out and not got back.\<close>

definition roots_in_use :: "'x kst \<Rightarrow> nat \<Rightarrow> bool" where
  "roots_in_use s d \<longleftrightarrow> held (Root_domain d) (k_log s) \<noteq> 0"

definition alloc_rootdomain :: "'x kops \<Rightarrow> ('x kst, nat option) state" where
  "alloc_rootdomain K = do {
     used \<leftarrow> gets roots_in_use;
     rd \<leftarrow> service (alloc_root_domain (services K) used);
     (case rd of
        None \<Rightarrow> ret None
      | Some d \<Rightarrow> do {
          log_event (Alloc (Root_domain d));
          ok \<leftarrow> init_rootdomain K d;
          if \<not> ok then do { log_event (Free (Root_domain d)); ret None }
          else ret (Some d) }) }"

subsection \<open>Attaching domains\<close>

text \<open>Each turn drops a parent or goes up to it, and there are at most \<open>SD_LV_MAX\<close> levels.\<close>

definition prune_parents :: "nat option \<Rightarrow> ('x kst, unit option) state" where
  "prune_parents sd = loop_m (Suc SD_LV_MAX) (\<lambda>tmp.
     case tmp of
       None \<Rightarrow> ret (Inr ())
     | Some t \<Rightarrow> do {
         parent \<leftarrow> gets (\<lambda>s. sd_parent (k_sd s t));
         (case parent of
            None \<Rightarrow> ret (Inr ())
          | Some p \<Rightarrow> do {
              useless \<leftarrow> gets (\<lambda>s. sd_parent_degenerate (k_sg s) (k_sd s t) (k_sd s p));
              if useless then do {
                up \<leftarrow> gets (\<lambda>s. sd_parent (k_sd s p));
                upd_sd t (\<lambda>d. d\<lparr>sd_parent := up\<rparr>);
                (case up of None \<Rightarrow> skip | Some u \<Rightarrow> upd_sd u (\<lambda>d. d\<lparr>sd_child := Some t\<rparr>));
                ret (Inl tmp) }
              else ret (Inl parent) }) }) sd"

text \<open>What \<open>sched_domain_debug\<close> does besides printing: it borrows a mask.\<close>

definition borrow_groupmask :: "'x kops \<Rightarrow> nat option \<Rightarrow> ('x kst, unit) state" where
  "borrow_groupmask K sd = (case sd of
     None \<Rightarrow> skip
   | Some _ \<Rightarrow> do { _ \<leftarrow> service (alloc_cpumask_var (services K)); skip })"

definition drop_degenerate :: "nat option \<Rightarrow> ('x kst, nat option) state" where
  "drop_degenerate sd = (case sd of
     None \<Rightarrow> ret None
   | Some d \<Rightarrow> do {
       useless \<leftarrow> gets (\<lambda>s. sd_degenerate (k_sg s) (k_sd s d));
       if useless then do {
         up \<leftarrow> gets (\<lambda>s. sd_parent (k_sd s d));
         (case up of None \<Rightarrow> skip | Some u \<Rightarrow> upd_sd u (\<lambda>x. x\<lparr>sd_child := None\<rparr>));
         ret up }
       else ret sd })"

definition cpu_attach_domain :: "'x kops \<Rightarrow> nat option \<Rightarrow> nat \<Rightarrow> cpu \<Rightarrow> ('x kst, unit) state" where
  "cpu_attach_domain K sd rd cpu = do {
     _ \<leftarrow> prune_parents sd;
     sd' \<leftarrow> drop_degenerate sd;
     borrow_groupmask K sd';
     rq_attach_root K cpu rd;
     upd_rq cpu (\<lambda>r. r\<lparr>rq_sd := sd'\<rparr>) }"

subsection \<open>Groups\<close>

text \<open>\<open>cpu_to_phys_group\<close>: the number of the group of a CPU, and the group.\<close>

definition cpu_to_phys_group :: "cpu \<Rightarrow> cpumask \<Rightarrow> nat \<times> nat" where
  "cpu_to_phys_group cpu cpu_map = (let grp = cpu in (grp, grp))"

text \<open>The outer loop of \<open>init_sched_build_groups\<close>, with its variables \<open>covered\<close>, \<open>first\<close> and
  \<open>last\<close>.\<close>

definition fill_group :: "nat \<Rightarrow> cpu list \<Rightarrow> ('x kst, unit) state" where
  "fill_group sg js = do {
     upd_sg sg (\<lambda>g. g\<lparr>sg_cpumask := {}\<rparr>);
     upd_sg sg (\<lambda>g. g\<lparr>sg_cpu_power := 0\<rparr>);
     for_each js (\<lambda>j. upd_sg sg (\<lambda>g. g\<lparr>sg_cpumask := insert j (sg_cpumask g)\<rparr>)) }"

primrec build_groups_loop ::
    "cpumask \<Rightarrow> cpumask \<Rightarrow> (cpu \<Rightarrow> cpumask \<Rightarrow> nat \<times> nat) \<Rightarrow> cpu list \<Rightarrow> cpumask \<Rightarrow> nat option \<Rightarrow> nat option \<Rightarrow>
     ('x kst, nat option \<times> nat option) state" where
  "build_groups_loop span cpu_map group_fn [] covered first_sg last_sg = ret (first_sg, last_sg)"
| "build_groups_loop span cpu_map group_fn (i # is) covered first_sg last_sg =
     (let (grp, sg) = group_fn i cpu_map in
      if i \<in> covered then build_groups_loop span cpu_map group_fn is covered first_sg last_sg
      else let js = [j \<leftarrow> cpus_of span. fst (group_fn j cpu_map) = grp] in do {
        fill_group sg js;
        (case last_sg of None \<Rightarrow> skip | Some l \<Rightarrow> upd_sg l (\<lambda>g. g\<lparr>sg_next := sg\<rparr>));
        build_groups_loop span cpu_map group_fn is (covered \<union> set js)
          (case first_sg of None \<Rightarrow> Some sg | Some f \<Rightarrow> Some f) (Some sg) })"

text \<open>With an empty span the last statement would follow a null pointer.\<close>

definition init_sched_build_groups ::
    "cpumask \<Rightarrow> cpumask \<Rightarrow> (cpu \<Rightarrow> cpumask \<Rightarrow> nat \<times> nat) \<Rightarrow> ('x kst, unit) state" where
  "init_sched_build_groups span cpu_map group_fn = do {
     (first, last) \<leftarrow> build_groups_loop span cpu_map group_fn (cpus_of span) {} None None;
     (case (first, last) of
        (Some f, Some l) \<Rightarrow> upd_sg l (\<lambda>g. g\<lparr>sg_next := f\<rparr>)
      | _ \<Rightarrow> log_event Sched_bug) }"

definition smt_power :: "sched_domain \<Rightarrow> u32" where
  "smt_power d = (let weight = cpumask_weight (sd_span d) in
     if sd_flags d AND SD_SHARE_CPUPOWER \<noteq> 0 \<and> 1 < weight
     then signed_drop_bit SCHED_LOAD_SHIFT
       (word_of_int (cdiv (sint (SCHED_LOAD_SCALE * sd_smt_gain d)) (int weight)))
     else SCHED_LOAD_SCALE)"

definition init_sched_groups_power :: "cpu \<Rightarrow> nat \<Rightarrow> ('x kst, unit) state" where
  "init_sched_groups_power cpu sd = do {
     d \<leftarrow> gets (\<lambda>s. k_sd s sd);
     lead \<leftarrow> group_first_cpu (sd_groups d);
     when_m (cpu = lead) (do {
       upd_sg (sd_groups d) (\<lambda>g. g\<lparr>sg_cpu_power := 0\<rparr>);
       (case sd_child d of
          None \<Rightarrow> upd_sg (sd_groups d) (\<lambda>g. g\<lparr>sg_cpu_power := sg_cpu_power g + smt_power d\<rparr>)
        | Some child \<Rightarrow> do {
            gs \<leftarrow> groups_of child;
            for_each gs (\<lambda>g. do {
              power \<leftarrow> gets (\<lambda>s. sg_cpu_power (k_sg s g));
              upd_sg (sd_groups d) (\<lambda>x. x\<lparr>sg_cpu_power := sg_cpu_power x + power\<rparr>) }) }) }) }"

subsection \<open>Domains\<close>

definition sd_init_CPU :: "'x kops \<Rightarrow> nat \<Rightarrow> ('x kst, unit) state" where
  "sd_init_CPU K sd =
     upd_sd sd (\<lambda>d. (sd_cpu_init (services K))\<lparr>sd_level := level_no SD_LV_CPU, sd_span := sd_span d\<rparr>)"

text \<open>The boot options \<open>relax_domain_level\<close> and \<open>isolcpus\<close>; the parsers are library functions.\<close>

definition setup_relax_domain_level :: "(string \<Rightarrow> u32) \<Rightarrow> string \<Rightarrow> ('x kst, int) state" where
  "setup_relax_domain_level simple_strtoul str = do {
     let val = simple_strtoul str;
     when_m (unat val < SD_LV_MAX) (modify (\<lambda>s. s\<lparr>k_relax_domain_level := sint val\<rparr>));
     ret 1 }"

definition isolated_cpu_setup :: "(string \<Rightarrow> cpumask) \<Rightarrow> string \<Rightarrow> ('x kst, int) state" where
  "isolated_cpu_setup cpulist_parse str = do {
     modify (\<lambda>s. s\<lparr>k_isolated_map := cpulist_parse str\<rparr>);
     ret 1 }"

definition set_domain_attribute :: "nat \<Rightarrow> int option \<Rightarrow> ('x kst, unit) state" where
  "set_domain_attribute sd attr = do {
     def \<leftarrow> gets k_relax_domain_level;
     let request = (case attr of
       Some a \<Rightarrow> if a < 0 then (if def < 0 then None else Some def) else Some a
     | None \<Rightarrow> if def < 0 then None else Some def);
     (case request of
        None \<Rightarrow> skip
      | Some r \<Rightarrow> upd_sd sd (\<lambda>d.
          if r < int (sd_level d)
          then d\<lparr>sd_flags := sd_flags d AND NOT (SD_BALANCE_WAKE OR SD_BALANCE_NEWIDLE)\<rparr>
          else d\<lparr>sd_flags := sd_flags d OR (SD_BALANCE_WAKE OR SD_BALANCE_NEWIDLE)\<rparr>)) }"

definition build_cpu_sched_domain ::
    "'x kops \<Rightarrow> cpumask \<Rightarrow> cpumask \<Rightarrow> int option \<Rightarrow> nat option \<Rightarrow> cpu \<Rightarrow> ('x kst, nat) state" where
  "build_cpu_sched_domain K nodemask cpu_map attr parent i = do {
     let sd = i;
     sd_init_CPU K sd;
     set_domain_attribute sd attr;
     upd_sd sd (\<lambda>d. d\<lparr>sd_span := nodemask\<rparr>);
     upd_sd sd (\<lambda>d. d\<lparr>sd_parent := parent\<rparr>);
     (case parent of None \<Rightarrow> skip | Some p \<Rightarrow> upd_sd p (\<lambda>d. d\<lparr>sd_child := Some sd\<rparr>));
     upd_sd sd (\<lambda>d. d\<lparr>sd_groups := snd (cpu_to_phys_group i cpu_map)\<rparr>);
     ret sd }"

definition build_sched_groups :: "'x kops \<Rightarrow> sched_domain_level \<Rightarrow> cpumask \<Rightarrow> nat \<Rightarrow> ('x kst, unit) state" where
  "build_sched_groups K l cpu_map cpu = (case l of
     SD_LV_CPU \<Rightarrow> do {
       node \<leftarrow> gets (\<lambda>s. cpumask_of_node (services K) cpu (k_ext s));
       let nodemask = node \<inter> cpu_map;
       when_m (cpus_of nodemask \<noteq> []) (init_sched_build_groups nodemask cpu_map cpu_to_phys_group) }
   | _ \<Rightarrow> skip)"

subsection \<open>Building and destroying\<close>

text \<open>How far the allocations have come, in the order of the C type: what is freed falls through.\<close>

datatype s_alloc = Sa_sched_groups | Sa_rootdomain | Sa_tmpmask | Sa_send_covered | Sa_this_core_map
  | Sa_this_sibling_map | Sa_nodemask | Sa_sched_group_nodes

text \<open>What a state of the allocations says is there, from the last allocated mask to the first.\<close>

primrec scratch_masks :: "s_alloc \<Rightarrow> scratch_mask list" where
  "scratch_masks Sa_sched_group_nodes = []"
| "scratch_masks Sa_nodemask = [Nodemask]"
| "scratch_masks Sa_this_sibling_map = [This_sibling_map, Nodemask]"
| "scratch_masks Sa_this_core_map = [This_core_map, This_sibling_map, Nodemask]"
| "scratch_masks Sa_send_covered = [Send_covered, This_core_map, This_sibling_map, Nodemask]"
| "scratch_masks Sa_tmpmask = [Tmpmask, Send_covered, This_core_map, This_sibling_map, Nodemask]"
| "scratch_masks Sa_rootdomain = [Tmpmask, Send_covered, This_core_map, This_sibling_map, Nodemask]"
| "scratch_masks Sa_sched_groups = [Tmpmask, Send_covered, This_core_map, This_sibling_map, Nodemask]"

text \<open>\<open>rd\<close> is the root domain in \<open>struct s_data\<close>. Freeing sched groups is empty without NUMA.\<close>

definition free_domain_allocs :: "s_alloc \<Rightarrow> nat option \<Rightarrow> ('x kst, unit) state" where
  "free_domain_allocs what rd = do {
     when_m (what = Sa_sched_groups \<or> what = Sa_rootdomain)
       (case rd of Some d \<Rightarrow> free_rootdomain d | None \<Rightarrow> log_event Sched_bug);
     for_each (scratch_masks what) (\<lambda>m. free_mask (Scratch m)) }"

definition visit_domain_allocation_hell :: "'x kops \<Rightarrow> ('x kst, s_alloc \<times> nat option) state" where
  "visit_domain_allocation_hell K = do {
     a \<leftarrow> alloc_mask K (Scratch Nodemask);
     if \<not> a then ret (Sa_sched_group_nodes, None) else do {
     b \<leftarrow> alloc_mask K (Scratch This_sibling_map);
     if \<not> b then ret (Sa_nodemask, None) else do {
     c \<leftarrow> alloc_mask K (Scratch This_core_map);
     if \<not> c then ret (Sa_this_sibling_map, None) else do {
     d \<leftarrow> alloc_mask K (Scratch Send_covered);
     if \<not> d then ret (Sa_this_core_map, None) else do {
     e \<leftarrow> alloc_mask K (Scratch Tmpmask);
     if \<not> e then ret (Sa_send_covered, None) else do {
     rd \<leftarrow> alloc_rootdomain K;
     (case rd of None \<Rightarrow> ret (Sa_tmpmask, None) | Some d \<Rightarrow> ret (Sa_rootdomain, Some d)) } } } } } }"

definition set_up_domains :: "'x kops \<Rightarrow> cpumask \<Rightarrow> int option \<Rightarrow> ('x kst, unit) state" where
  "set_up_domains K cpu_map attr = do {
     for_each (cpus_of cpu_map) (\<lambda>i. do {
       node \<leftarrow> gets (\<lambda>s. cpumask_of_node (services K) (cpu_to_node i) (k_ext s));
       _ \<leftarrow> build_cpu_sched_domain K (node \<inter> cpu_map) cpu_map attr None i;
       skip });
     for_each (cpus_of cpu_map) (\<lambda>i. do {
       build_sched_groups K SD_LV_SIBLING cpu_map i;
       build_sched_groups K SD_LV_MC cpu_map i });
     for_each [0..<nr_node_ids] (\<lambda>i. build_sched_groups K SD_LV_CPU cpu_map i);
     for_each (cpus_of cpu_map) (\<lambda>i. init_sched_groups_power i i) }"

definition build_sched_domains_attr :: "'x kops \<Rightarrow> cpumask \<Rightarrow> int option \<Rightarrow> ('x kst, int) state" where
  "build_sched_domains_attr K cpu_map attr = do {
     (alloc_state, rd) \<leftarrow> visit_domain_allocation_hell K;
     (case (alloc_state, rd) of
        (Sa_rootdomain, Some d) \<Rightarrow> do {
          set_up_domains K cpu_map attr;
          for_each (cpus_of cpu_map) (\<lambda>i. cpu_attach_domain K (Some i) d i);
          free_domain_allocs Sa_tmpmask rd;
          ret 0 }
      | _ \<Rightarrow> do {
          free_domain_allocs alloc_state rd;
          ret (- NO_MEMORY) }) }"

definition build_sched_domains :: "'x kops \<Rightarrow> cpumask \<Rightarrow> ('x kst, int) state" where
  "build_sched_domains K cpu_map = build_sched_domains_attr K cpu_map None"

definition detach_destroy_domains :: "'x kops \<Rightarrow> cpumask \<Rightarrow> ('x kst, unit) state" where
  "detach_destroy_domains K cpu_map = do {
     for_each (cpus_of cpu_map) (\<lambda>i. cpu_attach_domain K None DEF_ROOT_DOMAIN i);
     log_event Synchronize_sched }"

subsection \<open>Partitions\<close>

definition SD_ATTR_INIT :: int where "SD_ATTR_INIT = - 1"

definition attr_of :: "int list option \<Rightarrow> nat \<Rightarrow> int" where
  "attr_of a i = (case a of None \<Rightarrow> SD_ATTR_INIT | Some l \<Rightarrow> l ! i)"

definition dattrs_equal :: "int list option \<Rightarrow> nat \<Rightarrow> int list option \<Rightarrow> nat \<Rightarrow> bool" where
  "dattrs_equal cur_attr idx_cur new_attr idx_new =
     (if new_attr = None \<and> cur_attr = None then True
      else attr_of cur_attr idx_cur = attr_of new_attr idx_new)"

definition same_domain ::
    "cpumask list \<Rightarrow> int list option \<Rightarrow> nat \<Rightarrow> cpumask list \<Rightarrow> int list option \<Rightarrow> nat \<Rightarrow> bool" where
  "same_domain ds attrs i es attrs' j \<longleftrightarrow> ds ! i = es ! j \<and> dattrs_equal attrs i attrs' j"

text \<open>\<open>doms_new = None\<close> asks for one domain of all online CPUs that are not isolated. The array of
  domains that is kept has \<open>ndoms_new\<close> elements.\<close>

definition partition_locked ::
    "'x kops \<Rightarrow> nat \<Rightarrow> cpumask list option \<Rightarrow> int list option \<Rightarrow> ('x kst, unit) state" where
  "partition_locked K ndoms_new doms_new dattr_new = do {
     unregister_sched_domain_sysctl;
     new_topology \<leftarrow> gets (\<lambda>s. arch_update_cpu_topology (services K) (k_ext s));
     cur \<leftarrow> gets k_doms_cur;
     dattr_cur \<leftarrow> gets k_dattr_cur;
     let wanted = (case doms_new of None \<Rightarrow> [] | Some ds \<Rightarrow> take ndoms_new ds);
     for_each [0..<length cur] (\<lambda>i.
       when_m (new_topology \<or> \<not> (\<exists>j \<in> set [0..<length wanted]. same_domain cur dattr_cur i wanted dattr_new j))
         (detach_destroy_domains K (cur ! i)));
     fallback \<leftarrow> gets (\<lambda>s. k_online s - k_isolated_map s);
     let doms = (case doms_new of None \<Rightarrow> [fallback] | Some ds \<Rightarrow> ds);
     let cur' = (case doms_new of None \<Rightarrow> [] | Some _ \<Rightarrow> cur);
     when_m (doms_new = None \<and> dattr_new \<noteq> None) (log_event Warn);
     for_each [0..<ndoms_new] (\<lambda>i.
       when_m (new_topology \<or> \<not> (\<exists>j \<in> set [0..<length cur']. same_domain doms dattr_new i cur' dattr_cur j))
         (do { _ \<leftarrow> build_sched_domains_attr K (doms ! i) (map_option (\<lambda>l. l ! i) dattr_new); skip }));
     modify (\<lambda>s. s\<lparr>k_doms_cur := take ndoms_new doms, k_dattr_cur := dattr_new\<rparr>);
     register_sched_domain_sysctl K }"

definition partition_sched_domains ::
    "'x kops \<Rightarrow> nat \<Rightarrow> cpumask list option \<Rightarrow> int list option \<Rightarrow> ('x kst, unit) state" where
  "partition_sched_domains K ndoms_new doms_new dattr_new = do {
     log_event (Spin_lock Domains_mutex);
     partition_locked K ndoms_new doms_new dattr_new;
     log_event (Spin_unlock Domains_mutex) }"

definition update_sched_domains :: "'x kops \<Rightarrow> cpu_action \<Rightarrow> ('x kst, notify) state" where
  "update_sched_domains K action =
     (if action = CPU_ONLINE \<or> action = CPU_DEAD
      then do { partition_sched_domains K 1 None None; ret NOTIFY_OK }
      else ret NOTIFY_DONE)"

text \<open>The domains at boot: all CPUs that are not isolated in one.\<close>

definition arch_init_sched_domains :: "'x kops \<Rightarrow> cpumask \<Rightarrow> ('x kst, int) state" where
  "arch_init_sched_domains K cpu_map = do {
     _ \<leftarrow> service (kmalloc_ok (services K));
     isolated \<leftarrow> gets k_isolated_map;
     modify (\<lambda>s. s\<lparr>k_doms_cur := [cpu_map - isolated]\<rparr>);
     modify (\<lambda>s. s\<lparr>k_dattr_cur := None\<rparr>);
     err \<leftarrow> build_sched_domains K (cpu_map - isolated);
     register_sched_domain_sysctl K;
     ret err }"

text \<open>The notifiers that are registered here are \<open>update_sched_domains\<close> and \<open>update_runtime\<close>.
  \<open>None\<close> if the boot CPU may not run on any CPU that is not isolated.\<close>

definition sched_init_smp :: "nat \<Rightarrow> 'x kops \<Rightarrow> nat \<Rightarrow> ('x kst, unit option) state" where
  "sched_init_smp fuel K req = do {
     _ \<leftarrow> alloc_mask K (Scratch Non_isolated_cpus);
     _ \<leftarrow> alloc_mask K (Scratch Fallback_doms);
     log_event Get_online_cpus;
     log_event (Spin_lock Domains_mutex);
     online \<leftarrow> gets k_online;
     _ \<leftarrow> arch_init_sched_domains K online;
     free_cpus \<leftarrow> gets (\<lambda>s. set possible_cpus - k_isolated_map s);
     this \<leftarrow> gets k_this_cpu;
     let non_isolated_cpus = (if free_cpus = {} then {this} else free_cpus);
     log_event (Spin_unlock Domains_mutex);
     log_event Put_online_cpus;
     me \<leftarrow> gets k_current;
     and_then (set_cpus_allowed_ptr fuel K req me non_isolated_cpus) (\<lambda>r.
       if r < 0 then do { log_event Sched_bug; ret None }
       else do {
         sched_init_granularity;
         free_mask (Scratch Non_isolated_cpus);
         service_unit (init_sched_rt_class (services K));
         ret (Some ()) }) }"

subsection \<open>A failed construction gives everything back\<close>

definition blocks :: "memory list \<Rightarrow> memory \<Rightarrow> int" where
  "blocks ms k = int (count_list ms k)"

lemma blocks_simps [simp]:
  "blocks [] k = 0" "blocks (m # ms) k = (if m = k then 1 else 0) + blocks ms k"
  by (simp_all add: blocks_def)

definition root_domain_blocks :: "nat \<Rightarrow> memory list" where
  "root_domain_blocks d = [Rd_span d, Rd_online d, Rd_rto_mask d, Cpupri d, Root_domain d]"

lemma alloc_mask_run [simp]:
  "result (alloc_mask K m) s = fst (alloc_cpumask_var (services K) (k_ext s))"
  "exec (alloc_mask K m) s = s\<lparr>k_ext := snd (alloc_cpumask_var (services K) (k_ext s)),
     k_log := k_log s @ (if fst (alloc_cpumask_var (services K) (k_ext s)) then [Alloc m] else [])\<rparr>"
  "exec (free_mask m) s = s\<lparr>k_log := k_log s @ [Free m]\<rparr>"
  by (simp_all add: alloc_mask_def free_mask_def)

lemma upd_rd_run [simp]:
  "exec (upd_rd (Some d) f) s = s\<lparr>k_rd := (k_rd s)(d := f (k_rd s d))\<rparr>"
  by (simp add: upd_rd_def)

lemma free_rootdomain_run [simp]:
  "exec (free_rootdomain d) s = s\<lparr>k_log := k_log s @
     [Free (Cpupri d), Free (Rd_rto_mask d), Free (Rd_online d), Free (Rd_span d), Free (Root_domain d)]\<rparr>"
  by (simp add: free_rootdomain_def)

lemma init_rootdomain_allocates:
  "allocates (init_rootdomain K d)
     (\<lambda>ok. blocks (if ok then [Rd_span d, Rd_online d, Rd_rto_mask d, Cpupri d] else []))"
  unfolding allocates_def by (auto simp: init_rootdomain_def)

lemma alloc_rootdomain_allocates:
  fixes K :: "'x kops"
  shows "allocates (alloc_rootdomain K)
     (\<lambda>rd. blocks (case rd of None \<Rightarrow> [] | Some d \<Rightarrow> root_domain_blocks d))"
  unfolding allocates_def
proof (intro allI)
  fix s :: "'x kst" and k
  show "held k (k_log (exec (alloc_rootdomain K) s)) = held k (k_log s) +
    blocks (case result (alloc_rootdomain K) s of None \<Rightarrow> [] | Some d \<Rightarrow> root_domain_blocks d) k"
  proof (cases "fst (alloc_root_domain (services K) (roots_in_use s) (k_ext s))")
    case None
    then show ?thesis by (simp add: alloc_rootdomain_def)
  next
    case (Some d)
    then show ?thesis
      by (simp add: alloc_rootdomain_def allocatesD [OF init_rootdomain_allocates] root_domain_blocks_def)
  qed
qed

text \<open>One step of the descent: with \<open>base\<close> already there, one more mask or the way back.\<close>

lemma descend_allocates:
  assumes "\<And>k. own r0 k = blocks base k"
    and "allocates deeper (\<lambda>r k. own r k - blocks (m # base) k)"
  shows "allocates (do { a \<leftarrow> alloc_mask K m; if \<not> a then ret r0 else deeper })
    (\<lambda>r k. own r k - blocks base k)"
  using assms unfolding allocates_def by (auto simp del: exec_ret) auto

lemma visit_allocates:
  fixes K :: "'x kops"
  shows "allocates (visit_domain_allocation_hell K) (\<lambda>(what, rd).
     blocks (map Scratch (scratch_masks what) @ (case rd of None \<Rightarrow> [] | Some d \<Rightarrow> root_domain_blocks d)))"
proof -
  define own :: "s_alloc \<times> nat option \<Rightarrow> memory \<Rightarrow> int" where
    "own = (\<lambda>(what, rd). blocks (map Scratch (scratch_masks what) @
       (case rd of None \<Rightarrow> [] | Some d \<Rightarrow> root_domain_blocks d)))"
  have last: "allocates (do { rd \<leftarrow> alloc_rootdomain K;
       (case rd of None \<Rightarrow> ret (Sa_tmpmask, None) | Some d \<Rightarrow> ret (Sa_rootdomain, Some d)) })
     (\<lambda>r k. own r k - blocks (map Scratch (scratch_masks Sa_tmpmask)) k)"
    unfolding allocates_def
    by (auto simp: allocatesD [OF alloc_rootdomain_allocates] own_def blocks_def split: option.split)
  have "allocates (visit_domain_allocation_hell K) (\<lambda>r k. own r k - blocks [] k)"
    unfolding visit_domain_allocation_hell_def
    by (intro descend_allocates last [simplified scratch_masks.simps list.map]) (simp_all add: own_def)
  then show ?thesis by (simp add: own_def)
qed

lemma descend_result:
  assumes "P r0" and "\<And>s. P (result deeper s)"
  shows "P (result (do { a \<leftarrow> alloc_mask K m; if \<not> a then ret r0 else deeper }) s)"
  using assms by simp

lemma visit_complete:
  "(case result (visit_domain_allocation_hell K) s of (what, rd) \<Rightarrow>
     (what = Sa_rootdomain) = (rd \<noteq> None) \<and> what \<noteq> Sa_sched_groups)"
proof -
  define complete where
    "complete = (\<lambda>(what, rd :: nat option). (what = Sa_rootdomain) = (rd \<noteq> None) \<and> what \<noteq> Sa_sched_groups)"
  have "complete (result (visit_domain_allocation_hell K) s)"
    unfolding visit_domain_allocation_hell_def
    by (intro descend_result [where P = complete]) (simp_all add: complete_def split: option.split)
  then show ?thesis by (simp add: complete_def)
qed

lemma keeps_visit:
  assumes "\<And>s x. obs (s\<lparr>k_ext := x\<rparr>) = obs s" and "\<And>s l. obs (s\<lparr>k_log := l\<rparr>) = obs s"
    and "\<And>s r. obs (s\<lparr>k_rd := r\<rparr>) = obs s"
  shows "keeps obs (visit_domain_allocation_hell K)"
  unfolding visit_domain_allocation_hell_def alloc_rootdomain_def init_rootdomain_def alloc_mask_def
    free_mask_def upd_rd_def option.case
  by (intro keeps_intros assms)

lemma free_scratch_run:
  "exec (for_each ms (\<lambda>m. free_mask (Scratch m))) s =
     s\<lparr>k_log := k_log s @ map (\<lambda>m. Free (Scratch m)) ms\<rparr>"
  by (induction ms arbitrary: s) simp_all

lemma held_free_scratch:
  "held k (map (\<lambda>m. Free (Scratch m)) ms) = - blocks (map Scratch ms) k"
  by (induction ms) simp_all

text \<open>C28. The construction of domains unwinds after any failed allocation: it answers \<open>-ENOMEM\<close>, has
  given back every block it took, and has changed no domain, no group and no runqueue.\<close>

theorem failed_build_unwinds:
  fixes s :: "'x kst"
  assumes "result (build_sched_domains_attr K cpu_map attr) s \<noteq> 0"
  shows "let s' = exec (build_sched_domains_attr K cpu_map attr) s in
    result (build_sched_domains_attr K cpu_map attr) s = - NO_MEMORY \<and>
    (\<forall>m. held m (k_log s') = held m (k_log s)) \<and>
    (k_sd s', k_sg s', k_rq s', k_doms_cur s') = (k_sd s, k_sg s, k_rq s, k_doms_cur s)"
proof -
  obtain what rd where v: "result (visit_domain_allocation_hell K) s = (what, rd)" by (cases "result (visit_domain_allocation_hell K) s")
  define s1 where "s1 = exec (visit_domain_allocation_hell K) s"
  have w: "(what = Sa_rootdomain) = (rd \<noteq> None)" "what \<noteq> Sa_sched_groups"
    using visit_complete [of K s] v by simp_all
  have rd: "rd = None"
  proof (rule ccontr)
    assume "rd \<noteq> None"
    then obtain d where "rd = Some d" "what = Sa_rootdomain" using w by auto
    then show False using assms v by (simp add: build_sched_domains_attr_def)
  qed
  have "what \<noteq> Sa_rootdomain" using w rd by simp
  then have run: "result (build_sched_domains_attr K cpu_map attr) s = - NO_MEMORY"
    "exec (build_sched_domains_attr K cpu_map attr) s =
      s1\<lparr>k_log := k_log s1 @ map (\<lambda>m. Free (Scratch m)) (scratch_masks what)\<rparr>"
    using v w rd by (simp_all add: build_sched_domains_attr_def free_domain_allocs_def s1_def free_scratch_run
        split: s_alloc.split)
  have "held m (k_log s1) = held m (k_log s) + blocks (map Scratch (scratch_masks what)) m" for m
    using allocatesD [OF visit_allocates, of m K s] v rd by (simp add: s1_def)
  moreover have "(k_sd s1, k_sg s1, k_rq s1, k_doms_cur s1) = (k_sd s, k_sg s, k_rq s, k_doms_cur s)"
    unfolding s1_def
    by (rule keepsD [where obs = "\<lambda>s. (k_sd s, k_sg s, k_rq s, k_doms_cur s)"], rule keeps_visit) simp_all
  ultimately show ?thesis by (simp add: Let_def run held_free_scratch)
qed

definition no_memory_kops :: "unit kops" where
  "no_memory_kops = demo_kops\<lparr>services := (services demo_kops)\<lparr>cpupri_init := (\<lambda>_ x. (False, x))\<rparr>\<rparr>"

theorem failed_build_unwinds_witness:
  "result (build_sched_domains no_memory_kops {0, 1}) (blank_kst ()) = - 12 \<and>
   held (Rd_span 7) (k_log (exec (build_sched_domains no_memory_kops {0, 1}) (blank_kst ()))) = 0"
proof -
  have "result (build_sched_domains_attr no_memory_kops {0, 1} None) (blank_kst ()) \<noteq> 0"
    by (simp add: build_sched_domains_attr_def visit_domain_allocation_hell_def alloc_rootdomain_def
        roots_in_use_def init_rootdomain_def no_memory_kops_def demo_kops_def quiet_services_def NO_MEMORY_def)
  from failed_build_unwinds [OF this] show ?thesis
    by (simp add: Let_def build_sched_domains_def NO_MEMORY_def blank_kst_def)
qed

end
