(* ===== verification/Sched_domains_correct.thy ===== *)
theory Sched_domains_correct
  imports Sched_domains
begin

text \<open>
  What the operations of \<open>Sched_domains\<close> do to the root domains. The state is abstracted to a topology;
  attaching a runqueue is a refinement of an operation on topologies, and an invariant ties reference counts,
  spans and online masks to the root domain of each CPU. Building domains, partitioning them and hotplug
  keep it.
\<close>

subsection \<open>Root domains, abstractly\<close>

text \<open>What domains and root domains are about: the domains, their groups, the root domains, for each CPU its
  domain, its root domain and whether it is online there, the active CPUs, and the memory held.\<close>

record topology =
  tp_sd :: "nat \<Rightarrow> sched_domain"
  tp_sg :: "nat \<Rightarrow> sched_group"
  tp_rd :: "nat \<Rightarrow> root_domain"
  tp_dom :: "cpu \<Rightarrow> nat option"
  tp_root :: "cpu \<Rightarrow> nat option"
  tp_on :: "cpu \<Rightarrow> bool"
  tp_active :: cpumask
  tp_held :: "memory \<Rightarrow> int"

definition topo :: "'x kst \<Rightarrow> topology" where
  "topo s = \<lparr>tp_sd = k_sd s, tp_sg = k_sg s, tp_rd = k_rd s, tp_dom = (\<lambda>c. rq_sd (k_rq s c)),
     tp_root = (\<lambda>c. rq_rd (k_rq s c)), tp_on = (\<lambda>c. rq_online (k_rq s c)), tp_active = k_active s,
     tp_held = (\<lambda>m. held m (k_log s))\<rparr>"

lemma topo_sel [simp]:
  "tp_sd (topo s) = k_sd s" "tp_sg (topo s) = k_sg s" "tp_rd (topo s) = k_rd s"
  "tp_dom (topo s) c = rq_sd (k_rq s c)" "tp_root (topo s) c = rq_rd (k_rq s c)"
  "tp_on (topo s) c = rq_online (k_rq s c)" "tp_active (topo s) = k_active s"
  "tp_held (topo s) m = held m (k_log s)"
  by (simp_all add: topo_def)

lemma topo_upd:
  "topo (s\<lparr>k_rd := r\<rparr>) = (topo s)\<lparr>tp_rd := r\<rparr>"
  "topo (s\<lparr>k_sd := d\<rparr>) = (topo s)\<lparr>tp_sd := d\<rparr>"
  "topo (s\<lparr>k_sg := g\<rparr>) = (topo s)\<lparr>tp_sg := g\<rparr>"
  "topo (s\<lparr>k_ext := x\<rparr>) = topo s"
  "topo (s\<lparr>k_irqs_off := b\<rparr>) = topo s"
  "topo (s\<lparr>k_rq := (k_rq s)(c := q)\<rparr>) = (topo s)\<lparr>tp_dom := (tp_dom (topo s))(c := rq_sd q),
     tp_root := (tp_root (topo s))(c := rq_rd q), tp_on := (tp_on (topo s))(c := rq_online q)\<rparr>"
  "topo (s\<lparr>k_log := k_log s @ l\<rparr>) = (topo s)\<lparr>tp_held := (\<lambda>m. tp_held (topo s) m + held m l)\<rparr>"
  by (auto simp: topo_def fun_eq_iff)

lemma topo_eqD:
  assumes "topo s = topo t"
  shows "k_sd s = k_sd t" "k_sg s = k_sg t" "k_rd s = k_rd t" "rq_sd (k_rq s c) = rq_sd (k_rq t c)"
    "rq_rd (k_rq s c) = rq_rd (k_rq t c)" "rq_online (k_rq s c) = rq_online (k_rq t c)"
    "k_active s = k_active t" "held m (k_log s) = held m (k_log t)"
  using assms by (simp_all add: topo_def fun_eq_iff)

text \<open>What is relied on of the classes: their \<open>rq_online\<close> and \<open>rq_offline\<close> leave the topology alone.\<close>

definition root_ops_keep :: "'x kops \<Rightarrow> bool" where
  "root_ops_keep K \<longleftrightarrow> (\<forall>c f rq.
     (op_rq_online (classes K) c = Some f \<longrightarrow> keeps topo (f rq)) \<and>
     (op_rq_offline (classes K) c = Some f \<longrightarrow> keeps topo (f rq)))"

lemma class_ops_topo:
  assumes "root_ops_keep K"
  shows "topo (exec (for_each cs (\<lambda>c. case op_rq_online (classes K) c of Some f \<Rightarrow> f rq | None \<Rightarrow> skip)) s) = topo s"
    and "topo (exec (for_each cs (\<lambda>c. case op_rq_offline (classes K) c of Some f \<Rightarrow> f rq | None \<Rightarrow> skip)) s) = topo s"
  by (rule keepsD, intro keeps_intros; use assms in \<open>auto simp: root_ops_keep_def\<close>)+

definition a_online :: "cpu \<Rightarrow> nat \<Rightarrow> topology \<Rightarrow> topology" where
  "a_online c d t = (if tp_on t c then t
     else t\<lparr>tp_rd := (tp_rd t)(d := (tp_rd t d)\<lparr>rd_online := insert c (rd_online (tp_rd t d))\<rparr>),
       tp_on := (tp_on t)(c := True)\<rparr>)"

definition a_offline :: "cpu \<Rightarrow> nat \<Rightarrow> topology \<Rightarrow> topology" where
  "a_offline c d t = (if tp_on t c
     then t\<lparr>tp_rd := (tp_rd t)(d := (tp_rd t d)\<lparr>rd_online := rd_online (tp_rd t d) - {c}\<rparr>),
       tp_on := (tp_on t)(c := False)\<rparr>
     else t)"

lemma set_rq_online_topo:
  assumes K: "root_ops_keep K" and d: "rq_rd (k_rq s c) = Some d"
  shows "topo (exec (set_rq_online K c) s) = a_online c d (topo s)"
  using d by (simp add: set_rq_online_def class_ops_topo [OF K] topo_upd a_online_def)
    (simp add: topo_def fun_eq_iff)

lemma set_rq_offline_topo:
  assumes K: "root_ops_keep K" and d: "rq_rd (k_rq s c) = Some d"
  shows "topo (exec (set_rq_offline K c) s) = a_offline c d (topo s)"
proof -
  define s1 where "s1 = exec (for_each (for_each_class K) (\<lambda>cls.
    case op_rq_offline (classes K) cls of Some f \<Rightarrow> f c | None \<Rightarrow> skip)) s"
  have t: "topo s1 = topo s" unfolding s1_def by (rule class_ops_topo [OF K])
  note e = topo_eqD [OF t]
  show ?thesis
    using d by (simp add: set_rq_offline_def s1_def [symmetric] a_offline_def e)
      (simp add: topo_def fun_eq_iff e)
qed

definition a_release :: "cpu \<Rightarrow> nat \<Rightarrow> topology \<Rightarrow> topology" where
  "a_release c d t = t\<lparr>tp_rd := (tp_rd t)(d := (tp_rd t d)\<lparr>rd_span := rd_span (tp_rd t d) - {c},
     rd_refcount := rd_refcount (tp_rd t d) - 1\<rparr>)\<rparr>"

definition a_leave :: "cpu \<Rightarrow> topology \<Rightarrow> topology" where
  "a_leave c t = (case tp_root t c of
     None \<Rightarrow> t
   | Some d \<Rightarrow> a_release c d (if c \<in> rd_online (tp_rd t d) then a_offline c d t else t))"

definition left_last :: "cpu \<Rightarrow> topology \<Rightarrow> nat option" where
  "left_last c t = (case tp_root t c of
     None \<Rightarrow> None
   | Some d \<Rightarrow> if rd_refcount (tp_rd (a_leave c t) d) = 0 then Some d else None)"

definition a_enter :: "cpu \<Rightarrow> nat \<Rightarrow> topology \<Rightarrow> topology" where
  "a_enter c d t =
     (let t' = t\<lparr>tp_rd := (tp_rd t)(d := (tp_rd t d)\<lparr>rd_refcount := rd_refcount (tp_rd t d) + 1,
            rd_span := insert c (rd_span (tp_rd t d))\<rparr>),
          tp_root := (tp_root t)(c := Some d)\<rparr>
      in if c \<in> tp_active t then a_online c d t' else t')"

definition a_free :: "nat option \<Rightarrow> topology \<Rightarrow> topology" where
  "a_free rd t = (case rd of
     None \<Rightarrow> t
   | Some d \<Rightarrow> t\<lparr>tp_held := (\<lambda>m. tp_held t m - blocks (root_domain_blocks d) m)\<rparr>)"

definition a_attach :: "cpu \<Rightarrow> nat \<Rightarrow> topology \<Rightarrow> topology" where
  "a_attach c d t = a_free (left_last c t) (a_enter c d (a_leave c t))"

lemma leave_root_topo:
  assumes K: "root_ops_keep K"
  shows "topo (exec (leave_root K c) s) = a_leave c (topo s)"
    and "result (leave_root K c) s = left_last c (topo s)"
proof -
  have "topo (exec (leave_root K c) s) = a_leave c (topo s) \<and> result (leave_root K c) s = left_last c (topo s)"
  proof (cases "rq_rd (k_rq s c)")
    case None
    then show ?thesis by (simp add: leave_root_def a_leave_def left_last_def)
  next
    case (Some d)
    define s1 where "s1 = (if c \<in> rd_online (k_rd s d) then exec (set_rq_offline K c) s else s)"
    have t1: "topo s1 = (if c \<in> rd_online (k_rd s d) then a_offline c d (topo s) else topo s)"
      using set_rq_offline_topo [OF K Some] by (simp add: s1_def)
    have r1: "rq_rd (k_rq s1 c) = Some d"
    proof -
      have "tp_root (topo s1) c = Some d" unfolding t1 using Some by (simp add: a_offline_def)
      then show ?thesis by simp
    qed
    have run: "exec (leave_root K c) s = s1\<lparr>k_rd := (k_rd s1)(d := (k_rd s1 d)\<lparr>rd_span := rd_span (k_rd s1 d) - {c},
        rd_refcount := rd_refcount (k_rd s1 d) - 1\<rparr>)\<rparr>"
      "result (leave_root K c) s = (if rd_refcount (k_rd s1 d) - 1 = 0 then Some d else None)"
      using Some by (simp_all add: leave_root_def s1_def)
    have l: "a_leave c (topo s) = a_release c d (topo s1)" using Some by (simp add: a_leave_def t1)
    show ?thesis
      using Some by (simp add: run l left_last_def) (simp add: topo_upd a_release_def)
  qed
  then show "topo (exec (leave_root K c) s) = a_leave c (topo s)"
    and "result (leave_root K c) s = left_last c (topo s)" by blast+
qed

lemma enter_root_topo:
  assumes K: "root_ops_keep K"
  shows "topo (exec (enter_root K c d) s) = a_enter c d (topo s)"
proof -
  define s1 where "s1 = s\<lparr>k_rq := (k_rq s)(c := (k_rq s c)\<lparr>rq_rd := Some d\<rparr>),
    k_rd := (k_rd s)(d := (k_rd s d)\<lparr>rd_refcount := rd_refcount (k_rd s d) + 1,
      rd_span := insert c (rd_span (k_rd s d))\<rparr>)\<rparr>"
  have run: "exec (enter_root K c d) s = (if c \<in> k_active s then exec (set_rq_online K c) s1 else s1)"
    by (simp add: enter_root_def s1_def)
  have t: "topo s1 = (topo s)\<lparr>tp_rd := (k_rd s)(d := (k_rd s d)\<lparr>rd_refcount := rd_refcount (k_rd s d) + 1,
      rd_span := insert c (rd_span (k_rd s d))\<rparr>), tp_root := (tp_root (topo s))(c := Some d)\<rparr>"
    by (auto simp: s1_def topo_def fun_eq_iff)
  have "rq_rd (k_rq s1 c) = Some d" by (simp add: s1_def)
  from set_rq_online_topo [OF K this] show ?thesis
    by (simp add: run a_enter_def Let_def t)
qed

text \<open>C23. \<open>rq_attach_root\<close> refines an operation on the topology alone: the CPU leaves its root domain, which is freed if
  this was the last reference, and enters the new one, online if it is active.\<close>

theorem rq_attach_root_refines:
  fixes s :: "'x kst"
  assumes K: "root_ops_keep K"
  shows "topo (exec (rq_attach_root K c d) s) = a_attach c d (topo s)"
proof -
  define s0 where "s0 = s\<lparr>k_irqs_off := True, k_log := k_log s @ [Irq_off, Spin_lock (Rq_lock c)]\<rparr>"
  have t0: "topo s0 = topo s" by (simp add: s0_def topo_def)
  define s2 where "s2 = exec (enter_root K c d) (exec (leave_root K c) s0)"
  have t2: "topo s2 = a_enter c d (a_leave c (topo s))"
    by (simp add: s2_def enter_root_topo [OF K] leave_root_topo [OF K] t0)
  define s3 where "s3 = s2\<lparr>k_irqs_off := k_irqs_off s, k_log := k_log s2 @ [Spin_unlock (Rq_lock c), Irq_restore (k_irqs_off s)]\<rparr>"
  have t3: "topo s3 = topo s2" by (simp add: s3_def topo_def)
  have run: "exec (rq_attach_root K c d) s =
    exec (case left_last c (topo s) of None \<Rightarrow> skip | Some d \<Rightarrow> free_rootdomain d) s3"
    by (simp add: rq_attach_root_def s0_def [symmetric] leave_root_topo [OF K] t0 s2_def [symmetric] s3_def)
  show ?thesis
    by (cases "left_last c (topo s)")
      (simp_all add: run a_attach_def a_free_def t3 t2 topo_upd root_domain_blocks_def fun_eq_iff)
qed

subsection \<open>The invariant of the root domains\<close>

definition live :: "topology \<Rightarrow> nat set" where
  "live t = insert DEF_ROOT_DOMAIN {d. tp_held t (Root_domain d) \<noteq> 0}"

text \<open>\<open>D\<close> are the root domains that exist. Each CPU is in the span of its root domain, in its online mask
  exactly if it is online there; a span has no other CPUs; a reference count is the number of CPUs, and
  one more for the default root domain.\<close>

definition rd_ok :: "nat \<Rightarrow> root_domain \<Rightarrow> cpumask \<Rightarrow> bool" where
  "rd_ok d r cs \<longleftrightarrow> rd_span r = cs \<and> rd_online r \<subseteq> cs \<and>
     unat (rd_refcount r) = card cs + (if d = DEF_ROOT_DOMAIN then 1 else 0)"

definition members :: "(cpu \<Rightarrow> nat option) \<Rightarrow> nat \<Rightarrow> cpumask" where
  "members root d = {c \<in> set possible_cpus. root c = Some d}"

definition roots_inv :: "nat set \<Rightarrow> (nat \<Rightarrow> root_domain) \<Rightarrow> (cpu \<Rightarrow> nat option) \<Rightarrow> (cpu \<Rightarrow> bool) \<Rightarrow> bool" where
  "roots_inv D rd root on \<longleftrightarrow> DEF_ROOT_DOMAIN \<in> D \<and>
     (\<forall>c \<in> set possible_cpus. case root c of None \<Rightarrow> \<not> on c
        | Some d \<Rightarrow> d \<in> D \<and> (on c \<longleftrightarrow> c \<in> rd_online (rd d))) \<and>
     (\<forall>d \<in> D. rd_ok d (rd d) (members root d))"

definition roots_ok :: "topology \<Rightarrow> bool" where
  "roots_ok t \<longleftrightarrow> tp_held t (Root_domain DEF_ROOT_DOMAIN) = 0 \<and>
     (\<forall>d. tp_held t (Root_domain d) = 0 \<or> tp_held t (Root_domain d) = 1) \<and>
     roots_inv (live t) (tp_rd t) (tp_root t) (tp_on t)"

text \<open>No root domain but the default one is kept without a CPU in it.\<close>

definition none_leaked :: "topology \<Rightarrow> bool" where
  "none_leaked t \<longleftrightarrow> (\<forall>d \<in> live t - {DEF_ROOT_DOMAIN}. members (tp_root t) d \<noteq> {})"

lemma members_finite [simp]: "finite (members root d)"
  by (simp add: members_def)

lemma members_upd:
  "c \<in> set possible_cpus \<Longrightarrow> members (root(c := Some e)) d = (if d = e then insert c (members root d) else members root d - {c})"
  "members (root(c := None)) d = members root d - {c}"
  by (auto simp: members_def)

lemma card_members: "card (members root d) \<le> 2"
proof -
  have "members root d \<subseteq> {0, 1}" by (auto simp: members_def possible_cpus_def NR_CPUS_def)
  then have "card (members root d) \<le> card {0, 1 :: nat}" by (intro card_mono) auto
  then show ?thesis by simp
qed

lemma leave_inv:
  assumes inv: "roots_inv D rd root on" and c: "c \<in> set possible_cpus" and r: "root c = Some e"
  defines "e' \<equiv> (rd e)\<lparr>rd_refcount := rd_refcount (rd e) - 1, rd_span := rd_span (rd e) - {c},
    rd_online := rd_online (rd e) - {c}\<rparr>"
  defines "dead \<equiv> rd_refcount (rd e) - 1 = 0"
  shows "roots_inv (if dead then D - {e} else D) (rd(e := e')) (root(c := None)) (on(c := False))"
    and "dead \<Longrightarrow> e \<noteq> DEF_ROOT_DOMAIN" and "dead \<longleftrightarrow> e \<noteq> DEF_ROOT_DOMAIN \<and> members root e = {c}"
proof -
  have e: "e \<in> D" using inv c r by (auto simp: roots_inv_def)
  then have ok: "rd_ok e (rd e) (members root e)" using inv by (simp add: roots_inv_def)
  have cm: "c \<in> members root e" using c r by (simp add: members_def)
  then have pos: "0 < card (members root e)" by (auto simp: card_gt_0_iff)
  have "1 \<le> rd_refcount (rd e)"
  proof -
    have "unat (rd_refcount (rd e)) \<noteq> 0" using ok pos unfolding rd_ok_def by linarith
    then show ?thesis by (simp add: word_le_nat_alt)
  qed
  then have dec: "unat (rd_refcount (rd e) - 1) = unat (rd_refcount (rd e)) - 1"
    by (simp add: unat_sub)
  have ok': "rd_ok e e' (members (root(c := None)) e)"
    using ok cm pos by (auto simp: rd_ok_def e'_def members_upd dec)
  have d1: "dead \<longleftrightarrow> unat (rd_refcount (rd e)) - 1 = 0"
    unfolding dead_def using dec by (metis unat_eq_zero)
  show dead: "dead \<longleftrightarrow> e \<noteq> DEF_ROOT_DOMAIN \<and> members root e = {c}"
  proof
    assume "dead"
    then have "card (members root e) = 1" "e \<noteq> DEF_ROOT_DOMAIN"
      using d1 ok pos by (auto simp: rd_ok_def split: if_splits)
    then show "e \<noteq> DEF_ROOT_DOMAIN \<and> members root e = {c}" using cm by (auto simp: card_1_singleton_iff)
  next
    assume "e \<noteq> DEF_ROOT_DOMAIN \<and> members root e = {c}"
    then show "dead" using d1 ok by (simp add: rd_ok_def)
  qed
  then show "dead \<Longrightarrow> e \<noteq> DEF_ROOT_DOMAIN" by simp
  have other: "case (root(c := None)) x of None \<Rightarrow> \<not> (on(c := False)) x
      | Some d \<Rightarrow> d \<in> (if dead then D - {e} else D) \<and> ((on(c := False)) x \<longleftrightarrow> x \<in> rd_online ((rd(e := e')) d))"
    if x: "x \<in> set possible_cpus" for x
  proof (cases "x = c")
    case False
    have "case root x of None \<Rightarrow> \<not> on x | Some d \<Rightarrow> d \<in> D \<and> (on x \<longleftrightarrow> x \<in> rd_online (rd d))"
      using inv x by (simp add: roots_inv_def)
    moreover have "x \<in> members root e" if "root x = Some e" using that x by (simp add: members_def)
    ultimately show ?thesis using False dead by (auto simp: e'_def split: option.splits)
  qed simp
  have "rd_ok d ((rd(e := e')) d) (members (root(c := None)) d)" if "d \<in> D" for d
  proof (cases "d = e")
    case True
    then show ?thesis using ok' by simp
  next
    case False
    then have "members (root(c := None)) d = members root d" using r by (auto simp: members_def)
    then show ?thesis using inv that False by (simp add: roots_inv_def)
  qed
  then have "\<forall>d \<in> (if dead then D - {e} else D). rd_ok d ((rd(e := e')) d) (members (root(c := None)) d)"
    by (simp del: fun_upd_apply)
  moreover have "DEF_ROOT_DOMAIN \<in> (if dead then D - {e} else D)"
    using inv dead by (auto simp: roots_inv_def)
  ultimately show "roots_inv (if dead then D - {e} else D) (rd(e := e')) (root(c := None)) (on(c := False))"
    unfolding roots_inv_def using other by blast
qed

lemma enter_inv:
  fixes active :: bool
  assumes inv: "roots_inv D rd root on" and c: "c \<in> set possible_cpus" and r: "root c = None" and d: "d \<in> D"
  defines "d' \<equiv> (rd d)\<lparr>rd_refcount := rd_refcount (rd d) + 1, rd_span := insert c (rd_span (rd d)),
    rd_online := (if active then insert c (rd_online (rd d)) else rd_online (rd d))\<rparr>"
  shows "roots_inv D (rd(d := d')) (root(c := Some d)) (on(c := active))"
proof -
  have ok: "rd_ok d (rd d) (members root d)" using inv d by (simp add: roots_inv_def)
  have cm: "c \<notin> members root d" using r by (simp add: members_def)
  then have cm': "c \<notin> rd_online (rd d)" using ok by (auto simp: rd_ok_def)
  have "unat (rd_refcount (rd d)) \<le> 3" using ok card_members [of root d] unfolding rd_ok_def by (auto split: if_splits)
  then have inc: "unat (rd_refcount (rd d) + 1) = unat (rd_refcount (rd d)) + 1"
    by (subst unat_add_small) simp_all
  have ok': "rd_ok d d' (members (root(c := Some d)) d)"
    using ok cm c by (auto simp: rd_ok_def d'_def members_upd inc)
  have "case (root(c := Some d)) x of None \<Rightarrow> \<not> (on(c := active)) x
      | Some e \<Rightarrow> e \<in> D \<and> ((on(c := active)) x \<longleftrightarrow> x \<in> rd_online ((rd(d := d')) e))"
    if x: "x \<in> set possible_cpus" for x
  proof (cases "x = c")
    case True
    then show ?thesis using d cm' by (simp add: d'_def)
  next
    case False
    have "case root x of None \<Rightarrow> \<not> on x | Some e \<Rightarrow> e \<in> D \<and> (on x \<longleftrightarrow> x \<in> rd_online (rd e))"
      using inv x by (simp add: roots_inv_def)
    then show ?thesis using False by (auto simp: d'_def split: option.splits)
  qed
  moreover have "rd_ok e ((rd(d := d')) e) (members (root(c := Some d)) e)" if "e \<in> D" for e
  proof (cases "e = d")
    case True
    then show ?thesis using ok' by simp
  next
    case False
    then have "members (root(c := Some d)) e = members root e" using r by (auto simp: members_def)
    then show ?thesis using inv that False by (simp add: roots_inv_def)
  qed
  moreover have "DEF_ROOT_DOMAIN \<in> D" using inv by (simp add: roots_inv_def)
  ultimately show ?thesis unfolding roots_inv_def by blast
qed

text \<open>What the invariant looks at.\<close>

definition roots_part where
  "roots_part t = (tp_rd t, tp_root t, tp_on t, tp_active t, \<lambda>d. tp_held t (Root_domain d))"

lemma roots_part_cong:
  assumes "roots_part t = roots_part u"
  shows "live t = live u" "roots_ok t = roots_ok u" "none_leaked t = none_leaked u"
    "tp_root t = tp_root u" "tp_on t = tp_on u" "tp_active t = tp_active u" "tp_rd t = tp_rd u"
proof -
  have e: "tp_rd t = tp_rd u" "tp_root t = tp_root u" "tp_on t = tp_on u" "tp_active t = tp_active u"
    "\<And>d. tp_held t (Root_domain d) = tp_held u (Root_domain d)"
    using assms by (auto simp: roots_part_def fun_eq_iff)
  show l: "live t = live u" by (simp add: live_def e)
  show "roots_ok t = roots_ok u" "none_leaked t = none_leaked u"
    by (simp_all add: roots_ok_def none_leaked_def l e)
  show "tp_rd t = tp_rd u" "tp_root t = tp_root u" "tp_on t = tp_on u" "tp_active t = tp_active u"
    by (fact e)+
qed

lemma blocks_root [simp]:
  "blocks (root_domain_blocks d) (Root_domain e) = (if d = e then 1 else 0)"
  by (simp add: root_domain_blocks_def)

lemma live_finite_free:
  "live (a_free rd t) = (case rd of None \<Rightarrow> live t
     | Some d \<Rightarrow> insert DEF_ROOT_DOMAIN {e. tp_held t (Root_domain e) - (if d = e then 1 else 0) \<noteq> 0})"
  by (auto simp: live_def a_free_def split: option.split)

text \<open>Leaving: the CPU has no root domain any more, as far as the invariant goes.\<close>

lemma a_leave_ok:
  assumes ok: "roots_ok t" and c: "c \<in> set possible_cpus"
  shows "roots_inv (live t - set_option (left_last c t)) (tp_rd (a_leave c t)) ((tp_root t)(c := None))
      ((tp_on t)(c := False))"
    and "tp_on (a_leave c t) = (tp_on t)(c := False)"
    and "left_last c t = (case tp_root t c of None \<Rightarrow> None | Some e \<Rightarrow>
      if e \<noteq> DEF_ROOT_DOMAIN \<and> members (tp_root t) e = {c} then Some e else None)"
proof -
  have inv: "roots_inv (live t) (tp_rd t) (tp_root t) (tp_on t)" using ok by (simp add: roots_ok_def)
  have "roots_inv (live t - set_option (left_last c t)) (tp_rd (a_leave c t)) ((tp_root t)(c := None)) ((tp_on t)(c := False)) \<and>
    tp_on (a_leave c t) = (tp_on t)(c := False) \<and>
    left_last c t = (case tp_root t c of None \<Rightarrow> None | Some e \<Rightarrow>
      if e \<noteq> DEF_ROOT_DOMAIN \<and> members (tp_root t) e = {c} then Some e else None)"
  proof (cases "tp_root t c")
    case None
    then have off: "\<not> tp_on t c" using inv c by (auto simp: roots_inv_def split: option.splits)
    then have "(tp_on t)(c := False) = tp_on t" "(tp_root t)(c := None) = tp_root t"
      using None by (auto simp: fun_eq_iff)
    then show ?thesis using inv None by (simp add: a_leave_def left_last_def)
  next
    case (Some e)
    define e' where "e' = (tp_rd t e)\<lparr>rd_refcount := rd_refcount (tp_rd t e) - 1,
      rd_span := rd_span (tp_rd t e) - {c}, rd_online := rd_online (tp_rd t e) - {c}\<rparr>"
    have on: "tp_on t c \<longleftrightarrow> c \<in> rd_online (tp_rd t e)"
      using inv c Some by (auto simp: roots_inv_def split: option.splits)
    then have l: "tp_rd (a_leave c t) = (tp_rd t)(e := e')" "tp_on (a_leave c t) = (tp_on t)(c := False)"
      using Some by (auto simp: a_leave_def a_offline_def a_release_def e'_def fun_eq_iff)
    note lv = leave_inv [OF inv c Some, folded e'_def]
    have last: "left_last c t = (if rd_refcount (tp_rd t e) - 1 = 0 then Some e else None)"
      using Some by (simp add: left_last_def l e'_def)
    show ?thesis
      using lv(1,3) Some unfolding last l by (auto split: if_splits)
  qed
  then show "roots_inv (live t - set_option (left_last c t)) (tp_rd (a_leave c t)) ((tp_root t)(c := None)) ((tp_on t)(c := False))"
    "tp_on (a_leave c t) = (tp_on t)(c := False)"
    "left_last c t = (case tp_root t c of None \<Rightarrow> None | Some e \<Rightarrow>
      if e \<noteq> DEF_ROOT_DOMAIN \<and> members (tp_root t) e = {c} then Some e else None)" by blast+
qed

lemma a_leave_frame [simp]:
  "tp_root (a_leave c t) = tp_root t" "tp_active (a_leave c t) = tp_active t" "tp_held (a_leave c t) = tp_held t"
  by (simp_all add: a_leave_def a_release_def a_offline_def split: option.split)

lemma a_attach_ok:
  assumes ok: "roots_ok t" and c: "c \<in> set possible_cpus" and d: "d \<in> live t"
    and other: "tp_root t c \<noteq> Some d \<or> d = DEF_ROOT_DOMAIN"
  shows "roots_ok (a_attach c d t)"
    and "tp_root (a_attach c d t) = (tp_root t)(c := Some d)"
    and "tp_on (a_attach c d t) = (tp_on t)(c := c \<in> tp_active t)"
    and "live (a_attach c d t) = live t - set_option (left_last c t)"
    and "d \<in> live (a_attach c d t)"
    and "tp_active (a_attach c d t) = tp_active t"
proof -
  note lv = a_leave_ok [OF ok c]
  have last: "x \<noteq> d \<and> x \<noteq> DEF_ROOT_DOMAIN \<and> tp_root t c = Some x" if "left_last c t = Some x" for x
    using that other unfolding lv(3) by (auto split: option.splits if_splits)
  have d': "d \<in> live t - set_option (left_last c t)" using d last by auto
  note en = enter_inv [OF lv(1) c _ d', of "c \<in> tp_active t"]
  have rd: "tp_rd (a_attach c d t) = (tp_rd (a_leave c t))(d := (tp_rd (a_leave c t) d)\<lparr>
      rd_refcount := rd_refcount (tp_rd (a_leave c t) d) + 1, rd_span := insert c (rd_span (tp_rd (a_leave c t) d)),
      rd_online := (if c \<in> tp_active t then insert c (rd_online (tp_rd (a_leave c t) d)) else rd_online (tp_rd (a_leave c t) d))\<rparr>)"
    using lv(2) by (simp add: a_attach_def a_free_def a_enter_def a_online_def Let_def split: option.split)
  show root: "tp_root (a_attach c d t) = (tp_root t)(c := Some d)"
    by (simp add: a_attach_def a_free_def a_enter_def a_online_def Let_def split: option.split)
  show on: "tp_on (a_attach c d t) = (tp_on t)(c := c \<in> tp_active t)"
    using lv(2) by (auto simp: a_attach_def a_free_def a_enter_def a_online_def Let_def fun_eq_iff split: option.split)
  show "tp_active (a_attach c d t) = tp_active t"
    by (simp add: a_attach_def a_free_def a_enter_def a_online_def Let_def split: option.split)
  have held: "tp_held (a_attach c d t) (Root_domain e) =
      tp_held t (Root_domain e) - (if left_last c t = Some e then 1 else 0)" for e
    by (simp add: a_attach_def a_free_def a_enter_def a_online_def Let_def split: option.split)
  have h01: "tp_held t (Root_domain e) = 0 \<or> tp_held t (Root_domain e) = 1" for e
    using ok by (simp add: roots_ok_def)
  have in_live: "x \<in> live t" if "left_last c t = Some x" for x
    using ok c last [OF that] by (auto simp: roots_ok_def roots_inv_def split: option.splits)
  have one: "tp_held t (Root_domain x) = 1" if "left_last c t = Some x" for x
    using in_live [OF that] last [OF that] h01 [of x] by (auto simp: live_def)
  show lv': "live (a_attach c d t) = live t - set_option (left_last c t)"
    using one last h01 by (auto simp: live_def held)
  show "d \<in> live (a_attach c d t)" using d' lv' by simp
  have hd: "tp_held (a_attach c d t) (Root_domain DEF_ROOT_DOMAIN) = 0"
    using ok last by (auto simp: held roots_ok_def)
  have h01': "tp_held (a_attach c d t) (Root_domain e) = 0 \<or> tp_held (a_attach c d t) (Root_domain e) = 1" for e
    using h01 [of e] one by (auto simp: held)
  have inv: "roots_inv (live (a_attach c d t)) (tp_rd (a_attach c d t)) (tp_root (a_attach c d t)) (tp_on (a_attach c d t))"
    using en by (simp add: lv' rd root on)
  show "roots_ok (a_attach c d t)" unfolding roots_ok_def using hd h01' inv by blast
qed

text \<open>The invariant of root domains, for \<open>rq_attach_root\<close>: every runqueue is in the span of a root domain that exists,
  reference counts are right, and the CPU ends up in the new root domain, online there if it is active.
  The old root domain is freed exactly if this CPU was the only one in it and it is not the default.\<close>

theorem rq_attach_root_keeps_roots:
  fixes s :: "'x kst"
  assumes "root_ops_keep K" and "roots_ok (topo s)" and "c \<in> set possible_cpus" and "d \<in> live (topo s)"
    and "rq_rd (k_rq s c) \<noteq> Some d \<or> d = DEF_ROOT_DOMAIN"
  shows "let s' = exec (rq_attach_root K c d) s in
    roots_ok (topo s') \<and> rq_rd (k_rq s' c) = Some d \<and> (rq_online (k_rq s' c) \<longleftrightarrow> c \<in> k_active s) \<and>
    live (topo s) - live (topo s') =
      {e. rq_rd (k_rq s c) = Some e \<and> e \<noteq> DEF_ROOT_DOMAIN \<and> members (\<lambda>c. rq_rd (k_rq s c)) e = {c}}"
proof -
  have r: "tp_root (topo s) c \<noteq> Some d \<or> d = DEF_ROOT_DOMAIN" using assms(5) by simp
  note a = a_attach_ok [OF assms(2-4) r]
  have t: "topo (exec (rq_attach_root K c d) s) = a_attach c d (topo s)"
    using rq_attach_root_refines [OF assms(1)] .
  have m: "tp_root (topo s) = (\<lambda>c. rq_rd (k_rq s c))" by (simp add: topo_def)
  have in_live: "e \<in> live (topo s)" if "rq_rd (k_rq s c) = Some e" for e
    using assms(2,3) that by (auto simp: roots_ok_def roots_inv_def split: option.splits)
  have "rq_rd (k_rq (exec (rq_attach_root K c d) s) c) = Some d"
    "rq_online (k_rq (exec (rq_attach_root K c d) s) c) \<longleftrightarrow> c \<in> k_active s"
    using a(2,3) by (simp_all add: t flip: topo_sel)
  moreover have "live (topo s) - (live (topo s) - set_option (left_last c (topo s))) =
      {e. rq_rd (k_rq s c) = Some e \<and> e \<noteq> DEF_ROOT_DOMAIN \<and> members (\<lambda>c. rq_rd (k_rq s c)) e = {c}}"
    using a_leave_ok(3) [OF assms(2,3)] in_live by (auto simp: m split: option.splits if_splits)
  ultimately show ?thesis using a(1,4) by (simp add: Let_def t)
qed

definition rooted_kst :: "unit kst" where
  "rooted_kst = (blank_kst ())\<lparr>k_rd := (k_rd (blank_kst ()))(7 := \<lparr>rd_refcount = 0, rd_span = {}, rd_online = {}\<rparr>),
     k_log := [Alloc (Root_domain 7)]\<rparr>"

lemma demo_cpus: "possible_cpus = [0, 1]"
  by (simp add: possible_cpus_def NR_CPUS_def upt_rec)

lemma demo_root_ops: "root_ops_keep (demo_kops :: 'x kops)"
  by (simp add: root_ops_keep_def demo_kops_def idle_classes_def)

lemma blank_roots: "roots_ok (topo (blank_kst x))" "live (topo (blank_kst x)) = {DEF_ROOT_DOMAIN}"
proof -
  show l: "live (topo (blank_kst x)) = {DEF_ROOT_DOMAIN}" by (auto simp: live_def blank_kst_def)
  have m: "members (\<lambda>c. Some 0) 0 = {0, 1}" by (auto simp: members_def demo_cpus)
  show "roots_ok (topo (blank_kst x))"
    unfolding roots_ok_def l
    by (simp add: roots_inv_def rd_ok_def demo_cpus DEF_ROOT_DOMAIN_def topo_def blank_kst_def blank_rq_def m)
qed

lemma rooted_roots: "roots_ok (topo rooted_kst)" "live (topo rooted_kst) = {DEF_ROOT_DOMAIN, 7}"
proof -
  show l: "live (topo rooted_kst) = {DEF_ROOT_DOMAIN, 7}"
    by (auto simp: live_def rooted_kst_def blank_kst_def DEF_ROOT_DOMAIN_def)
  have m: "members (\<lambda>c. Some 0) 0 = {0, 1}" "members (\<lambda>c. Some 0) 7 = {}" by (auto simp: members_def demo_cpus)
  show "roots_ok (topo rooted_kst)"
    unfolding roots_ok_def l
    by (auto simp: roots_inv_def rd_ok_def demo_cpus DEF_ROOT_DOMAIN_def topo_def rooted_kst_def blank_kst_def blank_rq_def m)
qed

theorem rq_attach_root_keeps_roots_witness:
  "let s' = exec (rq_attach_root demo_kops 0 7) rooted_kst in
   roots_ok (topo s') \<and> rq_rd (k_rq s' 0) = Some 7 \<and> rq_online (k_rq s' 0)"
proof -
  have "7 \<in> live (topo rooted_kst)" by (simp add: rooted_roots)
  moreover have "rq_rd (k_rq rooted_kst 0) \<noteq> Some 7 \<or> 7 = DEF_ROOT_DOMAIN"
    by (simp add: rooted_kst_def blank_kst_def blank_rq_def)
  moreover have "0 \<in> set possible_cpus" "0 \<in> k_active rooted_kst"
    by (simp_all add: demo_cpus rooted_kst_def blank_kst_def)
  ultimately show ?thesis
    using rq_attach_root_keeps_roots [OF demo_root_ops rooted_roots(1), of 0 7] by (simp add: Let_def)
qed

theorem rq_attach_root_refines_witness:
  "k_rd (exec (rq_attach_root demo_kops 0 7) rooted_kst) 7 = \<lparr>rd_refcount = 1, rd_span = {0}, rd_online = {0}\<rparr>"
proof -
  have "tp_rd (topo (exec (rq_attach_root demo_kops 0 7) rooted_kst)) 7 = tp_rd (a_attach 0 7 (topo rooted_kst)) 7"
    by (simp only: rq_attach_root_refines [OF demo_root_ops])
  then show ?thesis
    by (simp add: a_attach_def a_leave_def a_offline_def a_release_def left_last_def a_enter_def a_online_def
        a_free_def rooted_kst_def blank_kst_def blank_rq_def Let_def)
qed

subsection \<open>What leaves root domains alone\<close>

abbreviation robs where "robs s \<equiv> roots_part (topo s)"

lemma robs_upd [simp]:
  "robs (s\<lparr>k_sd := d\<rparr>) = robs s" "robs (s\<lparr>k_sg := g\<rparr>) = robs s" "robs (s\<lparr>k_ext := x\<rparr>) = robs s"
  "robs (s\<lparr>k_irqs_off := b\<rparr>) = robs s" "robs (s\<lparr>k_ctl_child := t\<rparr>) = robs s"
  "robs (s\<lparr>k_ctl_registered := r\<rparr>) = robs s" "robs (s\<lparr>k_doms_cur := ds\<rparr>) = robs s"
  "robs (s\<lparr>k_dattr_cur := a\<rparr>) = robs s"
  "rq_rd q = rq_rd (k_rq s c) \<Longrightarrow> rq_online q = rq_online (k_rq s c) \<Longrightarrow> robs (s\<lparr>k_rq := (k_rq s)(c := q)\<rparr>) = robs s"
  "(\<And>d. held (Root_domain d) l = 0) \<Longrightarrow> robs (s\<lparr>k_log := k_log s @ l\<rparr>) = robs s"
  by (auto simp: roots_part_def topo_def fun_eq_iff)

lemma keeps_robs_log [keeps_intros]:
  "(\<And>d. e \<noteq> Alloc (Root_domain d) \<and> e \<noteq> Free (Root_domain d)) \<Longrightarrow> keeps robs (log_event e)"
  by (rule keepsI) simp

lemma keeps_robs_masks [keeps_intros]:
  "(\<And>d. m \<noteq> Root_domain d) \<Longrightarrow> keeps robs (alloc_mask K m)"
  "(\<And>d. m \<noteq> Root_domain d) \<Longrightarrow> keeps robs (free_mask m)"
  unfolding alloc_mask_def free_mask_def by (intro keeps_intros; simp)+

lemma keeps_robs_prune [keeps_intros]:
  "keeps robs (prune_parents sd)" "keeps robs (drop_degenerate sd)" "keeps robs (borrow_groupmask K sd)"
  unfolding prune_parents_def drop_degenerate_def borrow_groupmask_def
  by ((intro keeps_intros; simp?)+)

lemma keeps_robs_groups [keeps_intros]:
  "keeps robs (build_groups_loop span cpu_map fn is covered f l)"
proof (induction "is" arbitrary: covered f l)
  case Nil
  show ?case by (simp add: keeps_intros)
next
  case (Cons i "is")
  show ?case
    unfolding build_groups_loop.simps fill_group_def case_prod_beta
    by (intro keeps_intros Cons.IH; simp?)
qed

lemma keeps_robs_set_up [keeps_intros]: "keeps robs (set_up_domains K m attr)"
  unfolding set_up_domains_def build_cpu_sched_domain_def build_sched_groups_def init_sched_groups_power_def
    sd_init_CPU_def set_domain_attribute_def init_sched_build_groups_def group_first_cpu_def groups_of_def
    sched_domain_level.case Let_def
  by ((intro keeps_intros; simp?)+)

lemma held_freed_root [simp]: "held (Root_domain d) (freed t) = 0"
  by (induction t rule: freed.induct) simp_all

lemma keeps_robs_unregister [keeps_intros]: "keeps robs unregister_sched_domain_sysctl"
proof -
  have "keeps robs (sd_free_ctl_entry t)" for t by (rule keepsI) simp
  then show ?thesis
    unfolding unregister_sched_domain_sysctl_def by ((intro keeps_intros; simp?)+)
qed

lemma keeps_robs_fill [keeps_intros]:
  assumes "\<And>x. keeps robs (mk x)"
  shows "keeps robs (fill_directories K mk i ds t)"
  by (induction ds arbitrary: i t) (auto simp: kstrdup_def intro!: keeps_intros assms)

lemma keeps_robs_register [keeps_intros]: "keeps robs (register_sched_domain_sysctl K)"
  unfolding register_sched_domain_sysctl_def sd_alloc_ctl_entry_def sd_alloc_ctl_cpu_table_def
    sd_alloc_ctl_domain_table_def for_each_domain_def Let_def
  by ((intro keeps_intros; simp?)+)

subsection \<open>Root domains under construction and hotplug\<close>

lemma attach_kills:
  "roots_ok t \<Longrightarrow> c \<in> set possible_cpus \<Longrightarrow> set_option (left_last c t) =
     {e. tp_root t c = Some e \<and> e \<noteq> DEF_ROOT_DOMAIN \<and> members (tp_root t) e = {c}}"
  by (auto simp: a_leave_ok(3) split: option.splits if_splits)

text \<open>\<open>d\<close> may still be without a CPU, the other root domains may not.\<close>

definition leaked_but :: "nat \<Rightarrow> topology \<Rightarrow> bool" where
  "leaked_but d t \<longleftrightarrow> (\<exists>x \<in> live t - {DEF_ROOT_DOMAIN, d}. members (tp_root t) x = {})"

lemma cpu_attach_roots:
  fixes s :: "'x kst"
  assumes K: "root_ops_keep K" and ok: "roots_ok (topo s)" and c: "c \<in> set possible_cpus" and d: "d \<in> live (topo s)"
    and r: "tp_root (topo s) c \<noteq> Some d \<or> d = DEF_ROOT_DOMAIN"
    and s': "s' = exec (cpu_attach_domain K sd d c) s"
  shows "roots_ok (topo s')" and "tp_root (topo s') = (tp_root (topo s))(c := Some d)"
    and "live (topo s') \<subseteq> live (topo s)" and "d \<in> live (topo s')"
    and "\<not> leaked_but d (topo s) \<Longrightarrow> \<not> leaked_but d (topo s')"
proof -
  define s1 where "s1 = exec (do { _ \<leftarrow> prune_parents sd; sd' \<leftarrow> drop_degenerate sd; borrow_groupmask K sd' }) s"
  define sd' where "sd' = result (drop_degenerate sd) (exec (prune_parents sd) s)"
  have "robs s1 = robs s" unfolding s1_def by (rule keepsD) (intro keeps_intros)
  note e = roots_part_cong [OF this]
  define s2 where "s2 = exec (rq_attach_root K c d) s1"
  have run: "s' = s2\<lparr>k_rq := (k_rq s2)(c := (k_rq s2 c)\<lparr>rq_sd := sd'\<rparr>)\<rparr>"
    by (simp add: s' s2_def s1_def sd'_def cpu_attach_domain_def)
  have "robs s' = robs s2" by (simp add: run)
  note e' = roots_part_cong [OF this]
  have t2: "topo s2 = a_attach c d (topo s1)" unfolding s2_def by (rule rq_attach_root_refines [OF K])
  have pre: "roots_ok (topo s1)" "d \<in> live (topo s1)" "tp_root (topo s1) c \<noteq> Some d \<or> d = DEF_ROOT_DOMAIN"
    using ok d r by (simp_all only: e)
  note a = a_attach_ok [OF pre(1) c pre(2,3), folded t2]
  show "roots_ok (topo s')" using a(1) by (simp only: e')
  show root: "tp_root (topo s') = (tp_root (topo s))(c := Some d)" using a(2) by (simp only: e e')
  have lv: "live (topo s') = live (topo s) - {x. tp_root (topo s) c = Some x \<and> x \<noteq> DEF_ROOT_DOMAIN \<and>
      members (tp_root (topo s)) x = {c}}"
    using a(4) attach_kills [OF pre(1) c] by (simp only: e e')
  then show "live (topo s') \<subseteq> live (topo s)" by blast
  show "d \<in> live (topo s')" using a(5) by (simp only: e')
  show "\<not> leaked_but d (topo s')" if "\<not> leaked_but d (topo s)"
  proof -
    have "members (tp_root (topo s')) x \<noteq> {}" if x: "x \<in> live (topo s')" "x \<noteq> DEF_ROOT_DOMAIN" "x \<noteq> d" for x
    proof
      assume "members (tp_root (topo s')) x = {}"
      then have sub: "members (tp_root (topo s)) x \<subseteq> {c}" using c x(3) by (simp add: root members_upd)
      have "x \<in> live (topo s)" using x(1) lv by simp
      then have "members (tp_root (topo s)) x \<noteq> {}"
        using \<open>\<not> leaked_but d (topo s)\<close> x(2,3) by (simp add: leaked_but_def)
      with sub have m: "members (tp_root (topo s)) x = {c}" by blast
      then have "c \<in> members (tp_root (topo s)) x" by simp
      then have "tp_root (topo s) c = Some x" by (simp add: members_def)
      then show False using x(1,2) m lv by simp
    qed
    then show ?thesis by (auto simp: leaked_but_def)
  qed
qed

lemma attach_loop:
  fixes s :: "'x kst"
  assumes K: "root_ops_keep K" and "roots_ok (topo s)" and "set cs \<subseteq> set possible_cpus" and "distinct cs"
    and "d \<in> live (topo s)" and "\<And>c. c \<in> set cs \<Longrightarrow> tp_root (topo s) c \<noteq> Some d \<or> d = DEF_ROOT_DOMAIN"
    and s': "s' = exec (for_each cs (\<lambda>i. cpu_attach_domain K (sd i) d i)) s"
  shows "roots_ok (topo s') \<and> tp_root (topo s') = (\<lambda>c. if c \<in> set cs then Some d else tp_root (topo s) c) \<and>
    live (topo s') \<subseteq> live (topo s) \<and> d \<in> live (topo s') \<and> (\<not> leaked_but d (topo s) \<longrightarrow> \<not> leaked_but d (topo s'))"
  using assms(2-6) unfolding s'
proof (induction cs arbitrary: s)
  case (Cons c cs)
  define s1 where "s1 = exec (cpu_attach_domain K (sd c) d c) s"
  have c: "c \<in> set possible_cpus" using Cons.prems(2) by simp
  have r: "tp_root (topo s) c \<noteq> Some d \<or> d = DEF_ROOT_DOMAIN" using Cons.prems(5) [of c] by simp
  note a = cpu_attach_roots [OF K Cons.prems(1) c Cons.prems(4) r s1_def]
  have r1: "tp_root (topo s1) x \<noteq> Some d \<or> d = DEF_ROOT_DOMAIN" if "x \<in> set cs" for x
    using Cons.prems(3,5) that unfolding a(2) by auto
  have IH: "roots_ok (topo (exec (for_each cs (\<lambda>i. cpu_attach_domain K (sd i) d i)) s1)) \<and>
    tp_root (topo (exec (for_each cs (\<lambda>i. cpu_attach_domain K (sd i) d i)) s1)) =
      (\<lambda>c. if c \<in> set cs then Some d else tp_root (topo s1) c) \<and>
    live (topo (exec (for_each cs (\<lambda>i. cpu_attach_domain K (sd i) d i)) s1)) \<subseteq> live (topo s1) \<and>
    d \<in> live (topo (exec (for_each cs (\<lambda>i. cpu_attach_domain K (sd i) d i)) s1)) \<and>
    (\<not> leaked_but d (topo s1) \<longrightarrow> \<not> leaked_but d (topo (exec (for_each cs (\<lambda>i. cpu_attach_domain K (sd i) d i)) s1)))"
  proof (rule Cons.IH [OF a(1) _ _ a(4) r1])
    show "set cs \<subseteq> set possible_cpus" "distinct cs" using Cons.prems(2,3) by simp_all
  qed
  have run: "exec (for_each (c # cs) (\<lambda>i. cpu_attach_domain K (sd i) d i)) s =
      exec (for_each cs (\<lambda>i. cpu_attach_domain K (sd i) d i)) s1"
    by (simp add: s1_def)
  show ?case unfolding run using IH a(2,3,5) by (auto simp: fun_eq_iff simp del: topo_sel)
qed (simp del: topo_sel)

lemma cpus_of_facts [simp]: "set (cpus_of m) = m \<inter> set possible_cpus" "distinct (cpus_of m)"
  by (auto simp: cpus_of_def possible_cpus_def)

definition roots_good :: "'x kst \<Rightarrow> bool" where
  "roots_good s \<longleftrightarrow> roots_ok (topo s) \<and> none_leaked (topo s)"

lemma roots_good_cong: "robs s = robs t \<Longrightarrow> roots_good s = roots_good t"
  unfolding roots_good_def using roots_part_cong(1-3) [of "topo s" "topo t"] by simp

lemma leaked_def: "none_leaked t \<longleftrightarrow> \<not> leaked_but DEF_ROOT_DOMAIN t"
  by (auto simp: none_leaked_def leaked_but_def)

lemma detach_good:
  fixes s :: "'x kst" and m :: cpumask
  assumes K: "root_ops_keep K" and g: "roots_good s"
  defines "s' \<equiv> exec (detach_destroy_domains K m) s"
  shows "roots_good s'"
    and "c \<in> set possible_cpus \<Longrightarrow>
      tp_root (topo s') c = (if c \<in> m then Some DEF_ROOT_DOMAIN else tp_root (topo s) c)"
proof -
  define s1 where "s1 = exec (for_each (cpus_of m) (\<lambda>i. cpu_attach_domain K None DEF_ROOT_DOMAIN i)) s"
  have "roots_ok (topo s)" "DEF_ROOT_DOMAIN \<in> live (topo s)" using g by (simp_all add: roots_good_def live_def)
  note l = attach_loop [where sd = "\<lambda>_. None", OF K this(1) _ _ this(2) _ s1_def]
  have "robs s' = robs s1"
    by (simp add: s'_def detach_destroy_domains_def s1_def)
  note e = roots_good_cong [OF this] roots_part_cong(4) [OF this]
  have "roots_good s1" using l g by (auto simp: roots_good_def leaked_def)
  then show "roots_good s'" by (simp add: e(1))
  show "tp_root (topo s') c = (if c \<in> m then Some DEF_ROOT_DOMAIN else tp_root (topo s) c)"
    if "c \<in> set possible_cpus"
    using l that unfolding e(2) by (simp del: topo_sel)
qed

lemma detach_all:
  fixes s :: "'x kst" and doms :: "nat \<Rightarrow> cpumask"
  assumes K: "root_ops_keep K" and "roots_good s"
  defines "s' \<equiv> \<lambda>xs s. exec (for_each xs (\<lambda>i. detach_destroy_domains K (doms i))) s"
  shows "roots_good (s' xs s) \<and> (\<forall>c \<in> set possible_cpus. tp_root (topo (s' xs s)) c =
    (if \<exists>i \<in> set xs. c \<in> doms i then Some DEF_ROOT_DOMAIN else tp_root (topo s) c))"
  using assms(2)
proof (induction xs arbitrary: s)
  case (Cons i xs)
  note d = detach_good [OF K Cons.prems, where m = "doms i"]
  have "s' (i # xs) s = s' xs (exec (detach_destroy_domains K (doms i)) s)" by (simp add: s'_def)
  then show ?case using Cons.IH [OF d(1)] d(2) by (simp del: topo_sel)
qed (simp add: s'_def)

lemma only_default:
  assumes "none_leaked t" and "\<And>c. c \<in> set possible_cpus \<Longrightarrow> tp_root t c = Some DEF_ROOT_DOMAIN \<or> c \<in> m \<and> tp_root t c = Some d"
  shows "live t \<subseteq> {DEF_ROOT_DOMAIN, d}"
proof
  fix x assume x: "x \<in> live t"
  show "x \<in> {DEF_ROOT_DOMAIN, d}"
  proof (cases "x = DEF_ROOT_DOMAIN")
    case False
    then obtain c where "c \<in> set possible_cpus" "tp_root t c = Some x"
      using assms(1) x by (auto simp: none_leaked_def members_def)
    then show ?thesis using assms(2) [of c] by auto
  qed simp
qed

text \<open>What is asked of the allocator: memory it gives out is not in use (but may have been), and is not
  the default root domain, a static variable. What the allocations do to the root domains: nothing, or a
  fresh one is cleared.\<close>

definition fresh_roots :: "'x kops \<Rightarrow> bool" where
  "fresh_roots K \<longleftrightarrow> (\<forall>used x d. fst (alloc_root_domain (services K) used x) = Some d \<longrightarrow>
     \<not> used d \<and> d \<noteq> DEF_ROOT_DOMAIN)"

definition no_cpus :: root_domain where
  "no_cpus = \<lparr>rd_refcount = 0, rd_span = {}, rd_online = {}\<rparr>"

definition cleared :: "'x kops \<Rightarrow> (nat \<Rightarrow> bool) \<Rightarrow> nat option \<Rightarrow> (nat \<Rightarrow> root_domain) \<Rightarrow> (nat \<Rightarrow> root_domain) \<Rightarrow> bool" where
  "cleared K used rd r r' \<longleftrightarrow> rd = None \<and> r' = r \<or>
     (\<exists>d x. fst (alloc_root_domain (services K) used x) = Some d \<and> r' = r(d := no_cpus) \<and> (rd = None \<or> rd = Some d))"

lemma init_rootdomain_rd: "k_rd (exec (init_rootdomain K d) s) = (k_rd s)(d := no_cpus)"
proof -
  have a: "keeps k_rd (alloc_mask K m)" "keeps k_rd (free_mask m)" for m
    unfolding alloc_mask_def free_mask_def by (intro keeps_intros; simp)+
  define rest where "rest = do {
     span \<leftarrow> alloc_mask K (Rd_span d);
     if \<not> span then ret False
     else do {
       online \<leftarrow> alloc_mask K (Rd_online d);
       if \<not> online then do { free_mask (Rd_span d); ret False }
       else do {
         rto \<leftarrow> alloc_mask K (Rd_rto_mask d);
         if \<not> rto then do { free_mask (Rd_online d); free_mask (Rd_span d); ret False }
         else do {
           pri \<leftarrow> service (cpupri_init (services K) d);
           if \<not> pri then do {
             free_mask (Rd_rto_mask d); free_mask (Rd_online d); free_mask (Rd_span d); ret False }
           else do { log_event (Alloc (Cpupri d)); ret True } } } } }"
  have "keeps k_rd rest" unfolding rest_def by (intro keeps_intros a; simp)
  moreover have "init_rootdomain K d =
      do { upd_rd (Some d) (\<lambda>_. \<lparr>rd_refcount = 0, rd_span = {}, rd_online = {}\<rparr>); rest }"
    by (simp only: init_rootdomain_def rest_def)
  ultimately show ?thesis by (simp add: keepsD no_cpus_def)
qed

lemma alloc_rootdomain_rd:
  "cleared K (roots_in_use s) (result (alloc_rootdomain K) s) (k_rd s) (k_rd (exec (alloc_rootdomain K) s))"
proof (cases "fst (alloc_root_domain (services K) (roots_in_use s) (k_ext s))")
  case None
  then show ?thesis by (simp add: alloc_rootdomain_def cleared_def)
next
  case (Some d)
  then show ?thesis
    by (auto simp: alloc_rootdomain_def cleared_def init_rootdomain_rd)
qed

lemma roots_in_use_mask:
  "(\<And>d. m \<noteq> Root_domain d) \<Longrightarrow> roots_in_use (exec (alloc_mask K m) s) = roots_in_use s"
  by (simp add: roots_in_use_def alloc_mask_def fun_eq_iff)

lemma descend_rd:
  assumes "snd r0 = None" and "\<And>d. m \<noteq> Root_domain d"
    and "\<And>s. cleared K (roots_in_use s) (snd (result deeper s)) (k_rd s) (k_rd (exec deeper s))"
  shows "cleared K (roots_in_use s) (snd (result (do { a \<leftarrow> alloc_mask K m; if \<not> a then ret r0 else deeper }) s)) (k_rd s)
    (k_rd (exec (do { a \<leftarrow> alloc_mask K m; if \<not> a then ret r0 else deeper }) s))"
proof (cases "fst (alloc_cpumask_var (services K) (k_ext s))")
  case True
  then show ?thesis
    using assms(3) [of "exec (alloc_mask K m) s"] roots_in_use_mask [OF assms(2), of K s] by simp
next
  case False
  then show ?thesis using assms(1) by (simp add: cleared_def)
qed

lemma visit_rd:
  "cleared K (roots_in_use s) (snd (result (visit_domain_allocation_hell K) s)) (k_rd s) (k_rd (exec (visit_domain_allocation_hell K) s))"
proof -
  have "cleared K (roots_in_use s) (snd (result (do { rd \<leftarrow> alloc_rootdomain K;
       (case rd of None \<Rightarrow> ret (Sa_tmpmask, None) | Some d \<Rightarrow> ret (Sa_rootdomain, Some d)) }) s)) (k_rd s)
     (k_rd (exec (do { rd \<leftarrow> alloc_rootdomain K;
       (case rd of None \<Rightarrow> ret (Sa_tmpmask, None) | Some d \<Rightarrow> ret (Sa_rootdomain, Some d)) }) s))" for s
    using alloc_rootdomain_rd [of K s] by (cases "result (alloc_rootdomain K) s") simp_all
  then show ?thesis unfolding visit_domain_allocation_hell_def by (intro descend_rd) simp_all
qed

lemma roots_in_live: "roots_ok t \<Longrightarrow> c \<in> set possible_cpus \<Longrightarrow> tp_root t c = Some d \<Longrightarrow> d \<in> live t"
  by (auto simp: roots_ok_def roots_inv_def split: option.splits)

lemma members_dead: "roots_ok t \<Longrightarrow> d \<notin> live t \<Longrightarrow> members (tp_root t) d = {}"
  using roots_in_live by (auto simp: members_def)

text \<open>Memory for a root domain that no runqueue uses: cleared, and perhaps kept.\<close>

lemma roots_ok_fresh:
  assumes ok: "roots_ok t" and d: "d \<notin> live t"
    and same: "tp_root u = tp_root t" "tp_on u = tp_on t" and rd: "tp_rd u = (tp_rd t)(d := no_cpus)"
    and held: "\<And>e. tp_held u (Root_domain e) = tp_held t (Root_domain e) + (if kept \<and> e = d then 1 else 0)"
  shows "roots_ok u" and "live u = (if kept then insert d (live t) else live t)"
proof -
  have d0: "d \<noteq> DEF_ROOT_DOMAIN" "tp_held t (Root_domain d) = 0" using d by (auto simp: live_def)
  show l: "live u = (if kept then insert d (live t) else live t)" using d0 by (auto simp: live_def held)
  have "members (tp_root t) d = {}" using members_dead [OF ok d] .
  then have "rd_ok d no_cpus (members (tp_root t) d)" using d0 by (simp add: rd_ok_def no_cpus_def)
  then have "roots_inv (live u) (tp_rd u) (tp_root u) (tp_on u)"
    using ok d unfolding roots_ok_def roots_inv_def l rd same
    by (auto split: option.splits if_splits)
  then show "roots_ok u" using ok d0 by (auto simp: roots_ok_def held)
qed

lemma blocks_append [simp]: "blocks (xs @ ys) k = blocks xs k + blocks ys k"
  by (simp add: blocks_def)

lemma blocks_scratch [simp]: "blocks (map Scratch ms) (Root_domain d) = 0"
  by (induction ms) simp_all

lemma visit_roots:
  fixes s :: "'x kst"
  assumes ok: "roots_ok (topo s)" and fresh: "fresh_roots K"
    and s1: "s1 = exec (visit_domain_allocation_hell K) s" and rd: "rd = snd (result (visit_domain_allocation_hell K) s)"
  shows "roots_ok (topo s1)" and "live (topo s1) = live (topo s) \<union> set_option rd"
    and "tp_root (topo s1) = tp_root (topo s)" and "set_option rd \<inter> live (topo s) = {}"
proof -
  have q: "(k_rq s1, k_active s1) = (k_rq s, k_active s)"
    unfolding s1 by (rule keepsD [where obs = "\<lambda>s. (k_rq s, k_active s)"], rule keeps_visit) simp_all
  then have same: "tp_root (topo s1) = tp_root (topo s)" "tp_on (topo s1) = tp_on (topo s)"
    by (simp_all add: topo_def)
  have held: "tp_held (topo s1) (Root_domain e) = tp_held (topo s) (Root_domain e) + (if rd = Some e then 1 else 0)" for e
    using allocatesD [OF visit_allocates, of "Root_domain e" K s]
    by (cases rd) (simp_all add: s1 rd case_prod_beta)
  have c: "cleared K (roots_in_use s) rd (k_rd s) (k_rd s1)" using visit_rd [of K s] by (simp add: s1 rd)
  have "roots_ok (topo s1) \<and> live (topo s1) = live (topo s) \<union> set_option rd \<and> set_option rd \<inter> live (topo s) = {}"
  proof (cases "rd = None \<and> k_rd s1 = k_rd s")
    case True
    then have "robs s1 = robs s" using same held q by (simp add: roots_part_def)
    from roots_part_cong [OF this] True ok show ?thesis by simp
  next
    case False
    then obtain d x where d: "fst (alloc_root_domain (services K) (roots_in_use s) x) = Some d" "k_rd s1 = (k_rd s)(d := no_cpus)"
      "rd = None \<or> rd = Some d" using c unfolding cleared_def by blast
    have "\<not> roots_in_use s d \<and> d \<noteq> DEF_ROOT_DOMAIN" using fresh d(1) unfolding fresh_roots_def by blast
    then have "d \<notin> live (topo s)" by (simp add: live_def roots_in_use_def)
    from roots_ok_fresh [where u = "topo s1" and kept = "rd = Some d", OF ok this same] d held
    show ?thesis using \<open>d \<notin> live (topo s)\<close> by auto
  qed
  then show "roots_ok (topo s1)" and "live (topo s1) = live (topo s) \<union> set_option rd"
    and "set_option rd \<inter> live (topo s) = {}" by blast+
  show "tp_root (topo s1) = tp_root (topo s)" by (fact same)
qed

lemma finite_set_events: "finite {d. Alloc (Root_domain d) \<in> set l \<or> Free (Root_domain d) \<in> set l}"
proof -
  have "{d. Alloc (Root_domain d) \<in> set l \<or> Free (Root_domain d) \<in> set l} \<subseteq>
      (\<lambda>e. case e of Alloc (Root_domain d) \<Rightarrow> d | Free (Root_domain d) \<Rightarrow> d | _ \<Rightarrow> 0) ` set l"
    by (force simp: image_iff)
  then show ?thesis by (rule finite_subset) simp
qed

lemma keeps_robs_free [keeps_intros]: "keeps robs (for_each ms (\<lambda>m. free_mask (Scratch m)))"
  by (intro keeps_intros) simp

lemma build_roots:
  fixes s :: "'x kst"
  assumes K: "root_ops_keep K" and ok: "roots_ok (topo s)" and fresh: "fresh_roots K"
  shows "let s' = exec (build_sched_domains_attr K m attr) s;
      r = result (build_sched_domains_attr K m attr) s
    in roots_ok (topo s') \<and>
      (\<exists>d. d \<notin> live (topo s) \<and> (\<forall>c \<in> set possible_cpus. rq_rd (k_rq s' c) =
         (if r = 0 \<and> c \<in> m then Some d else rq_rd (k_rq s c)))) \<and>
      (none_leaked (topo s) \<longrightarrow> (none_leaked (topo s') \<longleftrightarrow> r \<noteq> 0 \<or> cpus_of m \<noteq> []))"
proof -
  define s1 where "s1 = exec (visit_domain_allocation_hell K) s"
  obtain what rd where v: "result (visit_domain_allocation_hell K) s = (what, rd)"
    by (cases "result (visit_domain_allocation_hell K) s")
  then have rd: "rd = snd (result (visit_domain_allocation_hell K) s)" by simp
  note vr = visit_roots [OF ok fresh s1_def rd]
  have w: "(what = Sa_rootdomain) = (rd \<noteq> None)" "what \<noteq> Sa_sched_groups"
    using visit_complete [of K s] v by simp_all
  have other: "\<exists>d. d \<notin> live (topo s)" if "rd = None"
  proof -
    have "finite (live (topo s))"
    proof -
      have "{d. held (Root_domain d) (k_log s) \<noteq> 0} \<subseteq> {d. Alloc (Root_domain d) \<in> set (k_log s) \<or> Free (Root_domain d) \<in> set (k_log s)}"
        by (auto simp: held_def count_list_0_iff)
      moreover have "finite {d. Alloc (Root_domain d) \<in> set (k_log s) \<or> Free (Root_domain d) \<in> set (k_log s)}"
        by (rule finite_set_events)
      ultimately show ?thesis by (simp add: live_def finite_subset)
    qed
    then show ?thesis using ex_new_if_finite infinite_UNIV_nat by blast
  qed
  show ?thesis
  proof (cases rd)
    case None
    define s' where "s' = exec (build_sched_domains_attr K m attr) s"
    have run: "result (build_sched_domains_attr K m attr) s = - NO_MEMORY"
      "s' = exec (for_each (scratch_masks what) (\<lambda>m. free_mask (Scratch m))) s1"
      using v None w by (auto simp: s'_def build_sched_domains_attr_def s1_def free_domain_allocs_def split: s_alloc.split)
    have "robs s' = robs s1" unfolding run(2) by (rule keepsD) (rule keeps_robs_free)
    note e = roots_part_cong [OF this]
    have "tp_root (topo s') = tp_root (topo s)" using e(4) vr(3) by simp
    then have root: "rq_rd (k_rq s' c) = rq_rd (k_rq s c)" for c by (metis topo_sel(5))
    have "none_leaked (topo s') = none_leaked (topo s)"
      using e(1,4) vr(2,3) None by (simp add: none_leaked_def)
    moreover have "roots_ok (topo s')" using e(2) vr(1) by simp
    ultimately show ?thesis
      using other None root unfolding s'_def [symmetric] run(1) Let_def by (simp add: NO_MEMORY_def)
  next
    case (Some d)
    have what: "what = Sa_rootdomain" using w Some by simp
    define s2 where "s2 = exec (set_up_domains K m attr) s1"
    define s3 where "s3 = exec (for_each (cpus_of m) (\<lambda>i. cpu_attach_domain K (Some i) d i)) s2"
    define s' where "s' = exec (build_sched_domains_attr K m attr) s"
    have run: "result (build_sched_domains_attr K m attr) s = 0"
      "s' = exec (for_each (scratch_masks Sa_tmpmask) (\<lambda>m. free_mask (Scratch m))) s3"
      using v Some what
      by (simp_all add: s'_def build_sched_domains_attr_def s1_def s2_def s3_def free_domain_allocs_def)
    have "robs s2 = robs s1" unfolding s2_def by (rule keepsD) (rule keeps_robs_set_up)
    note e2 = roots_part_cong [OF this]
    have "robs s' = robs s3" unfolding run(2) by (rule keepsD) (rule keeps_robs_free)
    note e3 = roots_part_cong [OF this]
    have ok2: "roots_ok (topo s2)" and live2: "live (topo s2) = insert d (live (topo s))"
      and root2: "tp_root (topo s2) = tp_root (topo s)" and d: "d \<notin> live (topo s)"
      using e2(1,2,4) vr Some by auto
    have new: "tp_root (topo s2) c \<noteq> Some d \<or> d = DEF_ROOT_DOMAIN" if "c \<in> set (cpus_of m)" for c
      using roots_in_live [OF ok, of c d] d that by (auto simp: root2)
    have "d \<in> live (topo s2)" by (simp add: live2)
    from attach_loop [where sd = Some, OF K ok2 _ _ this new s3_def]
    have a: "roots_ok (topo s3)" "tp_root (topo s3) = (\<lambda>c. if c \<in> set (cpus_of m) then Some d else tp_root (topo s2) c)"
      "live (topo s3) \<subseteq> live (topo s2)" "d \<in> live (topo s3)" "\<not> leaked_but d (topo s2) \<longrightarrow> \<not> leaked_but d (topo s3)"
      by auto
    have root: "rq_rd (k_rq s' c) = (if c \<in> m then Some d else rq_rd (k_rq s c))" if "c \<in> set possible_cpus" for c
    proof -
      have "tp_root (topo s') c = (if c \<in> m then Some d else tp_root (topo s) c)"
        unfolding e3(4) a(2) root2 using that by simp
      then show ?thesis by simp
    qed
    have "none_leaked (topo s') \<longleftrightarrow> cpus_of m \<noteq> []" if "none_leaked (topo s)"
    proof -
      have "\<not> leaked_but d (topo s2)"
        using that by (auto simp: leaked_but_def none_leaked_def live2 root2)
      then have "\<not> leaked_but d (topo s3)" using a(5) by blast
      then have "none_leaked (topo s3) \<longleftrightarrow> members (tp_root (topo s3)) d \<noteq> {}"
        using a(4) d by (auto simp: leaked_but_def none_leaked_def live_def)
      also have "members (tp_root (topo s3)) d = set (cpus_of m)"
        using members_dead [OF ok d] unfolding a(2) root2 by (auto simp: members_def)
      finally show ?thesis using e3(3) by (simp only: set_empty)
    qed
    then show ?thesis
      using e3(2) a(1) d root unfolding s'_def [symmetric] run(1) Let_def by auto
  qed
qed

text \<open>C25. Building domains for a set of CPUs keeps the invariant of root domains. If it succeeds, its CPUs
  share a new root domain and the others stay where they are; if it fails, all stay. No root domain
  is left without CPUs, except by a successful construction for an empty set of CPUs.\<close>

theorem build_keeps_roots:
  fixes s :: "'x kst"
  assumes K: "root_ops_keep K" and ok: "roots_ok (topo s)" and fresh: "fresh_roots K"
  shows "let s' = exec (build_sched_domains_attr K m attr) s;
      r = result (build_sched_domains_attr K m attr) s
    in roots_ok (topo s') \<and>
      (\<exists>d. d \<notin> live (topo s) \<and> (\<forall>c \<in> set possible_cpus. rq_rd (k_rq s' c) =
         (if r = 0 \<and> c \<in> m then Some d else rq_rd (k_rq s c)))) \<and>
      (none_leaked (topo s) \<longrightarrow> (none_leaked (topo s') \<longleftrightarrow> r \<noteq> 0 \<or> cpus_of m \<noteq> []))"
  using assms by (rule build_roots)

lemma roots_goodD: "roots_good s \<Longrightarrow> roots_ok (topo s)" "roots_good s \<Longrightarrow> none_leaked (topo s)"
  by (simp_all add: roots_good_def)

lemma keeps_doms_fill:
  "(\<And>x. keeps k_doms_cur (mk x)) \<Longrightarrow> keeps k_doms_cur (fill_directories K mk i ds t)"
  by (induction ds arbitrary: i t) (auto simp: kstrdup_def intro!: keeps_intros)

lemma keeps_doms_register: "keeps k_doms_cur (register_sched_domain_sysctl K)"
  unfolding register_sched_domain_sysctl_def sd_alloc_ctl_entry_def sd_alloc_ctl_cpu_table_def
    sd_alloc_ctl_domain_table_def for_each_domain_def Let_def
  by ((intro keeps_intros keeps_doms_fill; simp?)+)

lemma keeps_doms_unregister: "keeps k_doms_cur unregister_sched_domain_sysctl"
proof -
  have "keeps k_doms_cur (sd_free_ctl_entry t)" for t by (rule keepsI) simp
  then show ?thesis
    unfolding unregister_sched_domain_sysctl_def by ((intro keeps_intros; simp?)+)
qed

text \<open>The part of a rebuild before the new domain is built: every CPU is in the default root domain.\<close>

definition rebuild_start :: "'x kops \<Rightarrow> ('x kst, unit) state" where
  "rebuild_start K = do {
     log_event (Spin_lock Domains_mutex);
     unregister_sched_domain_sysctl;
     cur \<leftarrow> gets k_doms_cur;
     for_each [0..<length cur] (\<lambda>i. detach_destroy_domains K (cur ! i)) }"

definition rebuild_end :: "'x kops \<Rightarrow> cpumask \<Rightarrow> ('x kst, unit) state" where
  "rebuild_end K ds = do {
     _ \<leftarrow> build_sched_domains_attr K ds None;
     modify (\<lambda>s. s\<lparr>k_doms_cur := [ds], k_dattr_cur := None\<rparr>);
     register_sched_domain_sysctl K;
     log_event (Spin_unlock Domains_mutex) }"

lemma update_sched_domains_split:
  assumes "action = CPU_ONLINE \<or> action = CPU_DEAD"
  shows "exec (update_sched_domains K action) s =
    (let s1 = exec (rebuild_start K) s in exec (rebuild_end K (k_online s1 - k_isolated_map s1)) s1)"
  using assms
  by (auto simp: update_sched_domains_def partition_sched_domains_def partition_locked_def rebuild_start_def
      rebuild_end_def Let_def when_m_def)

text \<open>C26. CPUs come and go: when \<open>update_sched_domains\<close> replaces all domains by one of the online CPUs
  that are not isolated, whether or not there is memory for it, every runqueue stays in a root domain that
  exists, with right reference counts, and no root domain is left over, provided the new domain has a CPU.
  If every CPU outside the default root domain was in one of the domains, the old root domains have all
  been given back: at most one exists besides the default one, with CPUs of the new domain only. (The allocator
  may give the same memory again, but none that is in use.)\<close>

theorem hotplug_keeps_roots:
  fixes s :: "'x kst"
  assumes K: "root_ops_keep K" and ok: "roots_ok (topo s)" and leak: "none_leaked (topo s)"
    and fresh: "fresh_roots K" and action: "action = CPU_ONLINE \<or> action = CPU_DEAD"
  defines "root \<equiv> \<lambda>s c. rq_rd (k_rq s c)"
  shows "let s' = exec (update_sched_domains K action) s in
    roots_ok (topo s') \<and> (\<exists>ds. k_doms_cur s' = [ds] \<and> (cpus_of ds \<noteq> [] \<longrightarrow> none_leaked (topo s') \<and>
      ((\<forall>c \<in> set possible_cpus. root s c = Some DEF_ROOT_DOMAIN \<or> (\<exists>m \<in> set (k_doms_cur s). c \<in> m)) \<longrightarrow>
       (\<exists>d. live (topo s') \<subseteq> {DEF_ROOT_DOMAIN, d} \<and>
         (\<forall>c \<in> set possible_cpus. root s' c = Some DEF_ROOT_DOMAIN \<or> c \<in> ds \<and> root s' c = Some d)))))"
proof -
  define s1 where "s1 = exec (rebuild_start K) s"
  define ds where "ds = k_online s1 - k_isolated_map s1"
  define s0 where "s0 = exec (do { log_event (Spin_lock Domains_mutex); unregister_sched_domain_sysctl }) s"
  have doms: "k_doms_cur s0 = k_doms_cur s"
    unfolding s0_def by (rule keepsD) (intro keeps_bind keeps_doms_unregister keeps_kst_access; simp)
  have "robs s0 = robs s" unfolding s0_def by (rule keepsD) (intro keeps_intros; simp)
  note e0 = roots_part_cong [OF this]
  have "roots_good s0" using ok leak e0(2,3) by (simp add: roots_good_def)
  note d = detach_all [OF K this, where xs = "[0..<length (k_doms_cur s)]" and doms = "\<lambda>i. k_doms_cur s ! i"]
  have "s1 = exec (for_each [0..<length (k_doms_cur s0)] (\<lambda>i. detach_destroy_domains K (k_doms_cur s0 ! i))) s0"
    by (simp add: s1_def rebuild_start_def s0_def)
  note d = d [folded this [unfolded doms]]
  then have g1: "roots_good s1" by blast
  have m: "(\<exists>i \<in> set [0..<length (k_doms_cur s)]. c \<in> k_doms_cur s ! i) \<longleftrightarrow> (\<exists>m \<in> set (k_doms_cur s). c \<in> m)" for c
    unfolding set_upt set_conv_nth [of "k_doms_cur s"] by (simp add: Bex_def) blast
  have r1: "root s1 c = (if \<exists>m \<in> set (k_doms_cur s). c \<in> m then Some DEF_ROOT_DOMAIN else root s c)"
    if "c \<in> set possible_cpus" for c
    using d [THEN conjunct2, rule_format, OF that] unfolding m fun_cong [OF e0(4)] by (simp add: root_def)
  define s2 where "s2 = exec (build_sched_domains_attr K ds None) s1"
  obtain d b where b: "roots_ok (topo s2)" "cpus_of ds \<noteq> [] \<longrightarrow> none_leaked (topo s2)"
    "\<And>c. c \<in> set possible_cpus \<Longrightarrow> root s2 c = (if b \<and> c \<in> ds then Some d else root s1 c)"
    using build_roots [OF K roots_goodD(1) [OF g1] fresh, of ds None] roots_goodD(2) [OF g1]
    unfolding Let_def s2_def [symmetric] root_def by blast
  define s' where "s' = exec (update_sched_domains K action) s"
  define s3 where "s3 = s2\<lparr>k_doms_cur := [ds], k_dattr_cur := None\<rparr>"
  have s': "s' = exec (do { register_sched_domain_sysctl K; log_event (Spin_unlock Domains_mutex) }) s3"
    using update_sched_domains_split [OF action, of K s]
    by (simp add: s'_def Let_def s1_def [symmetric] ds_def [symmetric] rebuild_end_def s2_def s3_def)
  have "robs s' = robs s3" unfolding s' by (rule keepsD) (intro keeps_intros; simp)
  also have "robs s3 = robs s2" by (simp add: s3_def roots_part_def topo_def)
  finally have "robs s' = robs s2" .
  note e = roots_part_cong [OF this]
  have "k_doms_cur s' = k_doms_cur s3"
    unfolding s' by (rule keepsD) (intro keeps_bind keeps_doms_register keeps_kst_access; simp)
  then have ds': "k_doms_cur s' = [ds]" by (simp add: s3_def)
  have new: "live (topo s') \<subseteq> {DEF_ROOT_DOMAIN, d} \<and>
      (\<forall>c \<in> set possible_cpus. root s' c = Some DEF_ROOT_DOMAIN \<or> c \<in> ds \<and> root s' c = Some d)"
    if "cpus_of ds \<noteq> []"
      "\<forall>c \<in> set possible_cpus. root s c = Some DEF_ROOT_DOMAIN \<or> (\<exists>m \<in> set (k_doms_cur s). c \<in> m)"
  proof -
    have c: "root s' c = Some DEF_ROOT_DOMAIN \<or> c \<in> ds \<and> root s' c = Some d" if "c \<in> set possible_cpus" for c
      using b(3) r1 that \<open>\<forall>c \<in> set possible_cpus. _ c\<close> fun_cong [OF e(4)] by (auto simp: root_def)
    have "none_leaked (topo s')" using b(2) that(1) e(3) by simp
    from only_default [OF this, of ds d] c show ?thesis by (simp add: root_def)
  qed
  have "roots_ok (topo s')" "cpus_of ds \<noteq> [] \<longrightarrow> none_leaked (topo s')" using b e(2,3) by simp_all
  with ds' new show ?thesis unfolding s'_def [symmetric] Let_def by blast
qed

lemma demo_fresh: "fresh_roots (demo_kops :: 'x kops)"
  by (auto simp: fresh_roots_def demo_kops_def quiet_services_def DEF_ROOT_DOMAIN_def split: if_splits)

text \<open>Both CPUs are in the domain \<open>{0, 1}\<close> and its root domain, number 7.\<close>

definition demo_partitioned :: "unit kst" where
  "demo_partitioned = (blank_kst ())\<lparr>k_rq := (\<lambda>_. blank_rq\<lparr>rq_rd := Some 7\<rparr>),
     k_rd := (\<lambda>d. if d = 7 then \<lparr>rd_refcount = 2, rd_span = {0, 1}, rd_online = {0, 1}\<rparr>
       else \<lparr>rd_refcount = 1, rd_span = {}, rd_online = {}\<rparr>), k_log := map Alloc (root_domain_blocks 7)\<rparr>"

lemma partitioned_roots:
  "roots_ok (topo demo_partitioned)" "live (topo demo_partitioned) = {DEF_ROOT_DOMAIN, 7}"
  "none_leaked (topo demo_partitioned)"
proof -
  show l: "live (topo demo_partitioned) = {DEF_ROOT_DOMAIN, 7}"
    by (auto simp: live_def demo_partitioned_def root_domain_blocks_def DEF_ROOT_DOMAIN_def)
  have m: "members (\<lambda>c. Some 7) 7 = {0, 1}" "members (\<lambda>c. Some 7) 0 = {}" by (auto simp: members_def demo_cpus)
  show "roots_ok (topo demo_partitioned)"
    unfolding roots_ok_def l
    by (simp add: roots_inv_def rd_ok_def demo_cpus DEF_ROOT_DOMAIN_def topo_def demo_partitioned_def blank_rq_def m
        root_domain_blocks_def)
  show "none_leaked (topo demo_partitioned)"
    unfolding none_leaked_def l by (simp add: topo_def demo_partitioned_def m DEF_ROOT_DOMAIN_def)
qed

theorem hotplug_keeps_roots_witness:
  "let s' = exec (update_sched_domains demo_kops CPU_ONLINE) demo_partitioned in
   live (topo demo_partitioned) = {DEF_ROOT_DOMAIN, 7} \<and> roots_ok (topo s') \<and>
   (\<exists>ds. k_doms_cur s' = [ds] \<and> (cpus_of ds \<noteq> [] \<longrightarrow> (\<exists>d. live (topo s') \<subseteq> {DEF_ROOT_DOMAIN, d})))"
proof -
  have "\<forall>c \<in> set possible_cpus. rq_rd (k_rq demo_partitioned c) = Some DEF_ROOT_DOMAIN \<or>
      (\<exists>m \<in> set (k_doms_cur demo_partitioned). c \<in> m)"
    by (simp add: demo_partitioned_def blank_kst_def demo_cpus)
  then show ?thesis
    using hotplug_keeps_roots [where action = CPU_ONLINE, OF demo_root_ops partitioned_roots(1,3) demo_fresh]
      partitioned_roots(2)
    unfolding Let_def by blast
qed

theorem build_keeps_roots_witness:
  "roots_ok (topo (exec (build_sched_domains_attr demo_kops {} None) (blank_kst ()))) \<and>
   \<not> none_leaked (topo (exec (build_sched_domains_attr demo_kops {} None) (blank_kst ())))"
proof -
  have "none_leaked (topo (blank_kst ()))" by (simp add: none_leaked_def blank_roots)
  moreover have "fresh_roots (demo_kops :: unit kops)" by (rule demo_fresh)
  moreover have "result (build_sched_domains_attr demo_kops {} None) (blank_kst ()) = 0"
    by (simp add: build_sched_domains_attr_def visit_domain_allocation_hell_def alloc_rootdomain_def
        roots_in_use_def blank_kst_def init_rootdomain_def demo_kops_def quiet_services_def)
  moreover have "cpus_of {} = []" by (simp add: cpus_of_def)
  ultimately show ?thesis
    using build_keeps_roots [where s = "blank_kst ()" and m = "{}" and attr = None, OF demo_root_ops blank_roots(1)] by (simp add: Let_def)
qed

end
