(* ===== verification/Sched_domains_built.thy ===== *)
theory Sched_domains_built
  imports Sched_domains_correct
begin

text \<open>
  The domains that \<open>build_sched_domains\<close> builds: on one node there is one level and no parent, and
  \<open>sched_domain_debug\<close>, which the code runs over each domain it attaches, finds nothing to report.
\<close>

subsection \<open>The domains that are built are sound\<close>

text \<open>What is relied on of \<open>SD_CPU_INIT\<close> and of the one node there is.\<close>

definition cpu_init_law :: "'x kops \<Rightarrow> bool" where
  "cpu_init_law K \<longleftrightarrow> sd_child (sd_cpu_init (services K)) = None \<and>
     sd_flags (sd_cpu_init (services K)) AND SD_LOAD_BALANCE \<noteq> 0 \<and>
     sd_flags (sd_cpu_init (services K)) AND SD_SHARE_CPUPOWER = 0"

definition one_node :: "'x kops \<Rightarrow> cpumask \<Rightarrow> bool" where
  "one_node K m \<longleftrightarrow> m \<subseteq> set possible_cpus \<and> (\<forall>x. m \<subseteq> cpumask_of_node (services K) 0 x)"

definition attr_flags :: "int \<Rightarrow> int option \<Rightarrow> nat \<Rightarrow> u32 \<Rightarrow> u32" where
  "attr_flags def attr level f = (case (case attr of
       Some a \<Rightarrow> if a < 0 then (if def < 0 then None else Some def) else Some a
     | None \<Rightarrow> if def < 0 then None else Some def) of
       None \<Rightarrow> f
     | Some r \<Rightarrow> if r < int level then f AND NOT (SD_BALANCE_WAKE OR SD_BALANCE_NEWIDLE)
         else f OR (SD_BALANCE_WAKE OR SD_BALANCE_NEWIDLE))"

lemma set_domain_attribute_run:
  "exec (set_domain_attribute sd attr) s = s\<lparr>k_sd := (k_sd s)(sd := (k_sd s sd)\<lparr>sd_flags :=
     attr_flags (k_relax_domain_level s) attr (sd_level (k_sd s sd)) (sd_flags (k_sd s sd))\<rparr>)\<rparr>"
  by (auto simp: set_domain_attribute_def attr_flags_def Let_def split: option.split)

lemma attr_flags_keep:
  "attr_flags def attr level f AND SD_LOAD_BALANCE = f AND SD_LOAD_BALANCE"
  "attr_flags def attr level f AND SD_SHARE_CPUPOWER = f AND SD_SHARE_CPUPOWER"
proof -
  have m: "(f AND NOT (SD_BALANCE_WAKE OR SD_BALANCE_NEWIDLE)) AND SD_LOAD_BALANCE = f AND SD_LOAD_BALANCE"
    "(f OR (SD_BALANCE_WAKE OR SD_BALANCE_NEWIDLE)) AND SD_LOAD_BALANCE = f AND SD_LOAD_BALANCE"
    "(f AND NOT (SD_BALANCE_WAKE OR SD_BALANCE_NEWIDLE)) AND SD_SHARE_CPUPOWER = f AND SD_SHARE_CPUPOWER"
    "(f OR (SD_BALANCE_WAKE OR SD_BALANCE_NEWIDLE)) AND SD_SHARE_CPUPOWER = f AND SD_SHARE_CPUPOWER"
    by (simp_all add: SD_BALANCE_WAKE_def SD_BALANCE_NEWIDLE_def SD_LOAD_BALANCE_def SD_SHARE_CPUPOWER_def
        and.assoc bit.conj_disj_distrib2)
  show "attr_flags def attr level f AND SD_LOAD_BALANCE = f AND SD_LOAD_BALANCE"
    "attr_flags def attr level f AND SD_SHARE_CPUPOWER = f AND SD_SHARE_CPUPOWER"
    by (simp only: attr_flags_def m split: option.split if_split; simp)+
qed

text \<open>The domain of a CPU as \<open>build_cpu_sched_domain\<close> makes it.\<close>

definition fresh_domain :: "'x kops \<Rightarrow> int \<Rightarrow> int option \<Rightarrow> cpumask \<Rightarrow> cpu \<Rightarrow> sched_domain" where
  "fresh_domain K def attr m i = (sd_cpu_init (services K))\<lparr>sd_level := 3,
     sd_flags := attr_flags def attr 3 (sd_flags (sd_cpu_init (services K))), sd_span := m, sd_parent := None,
     sd_groups := i\<rparr>"

lemma build_cpu_sched_domain_run:
  "exec (build_cpu_sched_domain K nodemask m attr None i) s =
     s\<lparr>k_sd := (k_sd s)(i := fresh_domain K (k_relax_domain_level s) attr nodemask i)\<rparr>"
  by (simp add: build_cpu_sched_domain_def sd_init_CPU_def set_domain_attribute_run fresh_domain_def Let_def
      cpu_to_phys_group_def)

lemma fill_group_run:
  "exec (fill_group g js) s = s\<lparr>k_sg := (k_sg s)(g := (k_sg s g)\<lparr>sg_cpu_power := 0, sg_cpumask := set js\<rparr>)\<rparr>"
proof -
  have l: "exec (for_each js (\<lambda>j. upd_sg g (\<lambda>x. x\<lparr>sg_cpumask := insert j (sg_cpumask x)\<rparr>))) t =
      t\<lparr>k_sg := (k_sg t)(g := (k_sg t g)\<lparr>sg_cpumask := sg_cpumask (k_sg t g) \<union> set js\<rparr>)\<rparr>" for t :: "'a kst"
    by (induction js arbitrary: t) simp_all
  show ?thesis by (simp add: fill_group_def l)
qed

lemma subsets_of_cpus: "m \<subseteq> set possible_cpus \<Longrightarrow> m = {} \<or> m = {0} \<or> m = {1} \<or> m = {0, 1}"
  by (auto simp: demo_cpus)

lemma cpus_of_cases [simp]:
  "cpus_of {} = []" "cpus_of {0} = [0]" "cpus_of {Suc 0} = [1]" "cpus_of {0, Suc 0} = [0, 1]"
  by (simp_all add: cpus_of_def demo_cpus)

text \<open>The group of a CPU, linked to the next one.\<close>

definition fresh_group :: "cpu \<Rightarrow> nat \<Rightarrow> sched_group" where
  "fresh_group i next_sg = \<lparr>sg_next = next_sg, sg_cpumask = {i}, sg_cpu_power = SCHED_LOAD_SCALE\<rparr>"

definition group_after :: "cpumask \<Rightarrow> cpu \<Rightarrow> cpu" where
  "group_after m i = (if m = {0, 1} then 1 - i else i)"

lemma set_up_loop:
  fixes s :: "'x kst"
  assumes "one_node K m"
  shows "exec (for_each cs (\<lambda>i. do {
       node \<leftarrow> gets (\<lambda>s. cpumask_of_node (services K) (cpu_to_node i) (k_ext s));
       _ \<leftarrow> build_cpu_sched_domain K (node \<inter> m) m attr None i;
       skip })) s =
     s\<lparr>k_sd := (\<lambda>i. if i \<in> set cs then fresh_domain K (k_relax_domain_level s) attr m i else k_sd s i)\<rparr>"
proof (induction cs arbitrary: s)
  case (Cons c cs)
  have n: "cpumask_of_node (services K) 0 x \<inter> m = m" for x using assms by (auto simp: one_node_def)
  show ?case
    by (simp add: Cons [unfolded cpu_to_node_def] build_cpu_sched_domain_run cpu_to_node_def n)
      (auto simp: fun_eq_iff)
qed simp

lemma smt_power_none:
  "sd_flags d AND SD_SHARE_CPUPOWER = 0 \<Longrightarrow> smt_power d = SCHED_LOAD_SCALE"
  by (simp add: smt_power_def Let_def)

lemma fresh_domain_fields [simp]:
  "sd_groups (fresh_domain K def attr m i) = i" "sd_span (fresh_domain K def attr m i) = m"
  "sd_parent (fresh_domain K def attr m i) = None"
  "cpu_init_law K \<Longrightarrow> sd_child (fresh_domain K def attr m i) = None"
  "cpu_init_law K \<Longrightarrow> sd_flags (fresh_domain K def attr m i) AND SD_LOAD_BALANCE \<noteq> 0"
  "cpu_init_law K \<Longrightarrow> smt_power (fresh_domain K def attr m i) = SCHED_LOAD_SCALE"
  by (simp_all add: fresh_domain_def cpu_init_law_def attr_flags_keep smt_power_none)

text \<open>The power of a group of one CPU.\<close>

lemma init_power_run:
  assumes "sd_groups (k_sd s i) = i" and "sd_child (k_sd s i) = None" and "sg_cpumask (k_sg s i) = {i}"
    and "i \<in> set possible_cpus" and "smt_power (k_sd s i) = SCHED_LOAD_SCALE"
  shows "exec (init_sched_groups_power i i) s =
    s\<lparr>k_sg := (k_sg s)(i := (k_sg s i)\<lparr>sg_cpu_power := SCHED_LOAD_SCALE\<rparr>)\<rparr>"
proof -
  have "cpumask_first {i} = i" using assms(4) by (auto simp: cpumask_first_def demo_cpus)
  then show ?thesis using assms by (simp add: init_sched_groups_power_def group_first_cpu_def)
qed

definition linked_groups :: "cpumask \<Rightarrow> (nat \<Rightarrow> sched_group) \<Rightarrow> nat \<Rightarrow> sched_group" where
  "linked_groups m g i = (if i \<in> m then (fresh_group i (group_after m i))\<lparr>sg_cpu_power := 0\<rparr> else g i)"

lemma group_full:
  "(g :: sched_group)\<lparr>sg_cpu_power := p, sg_cpumask := c, sg_next := n\<rparr> = \<lparr>sg_next = n, sg_cpumask = c, sg_cpu_power = p\<rparr>"
  by (cases g) simp

lemma build_groups_run:
  assumes "m = {0} \<or> m = {1} \<or> m = {0, 1}"
  shows "exec (init_sched_build_groups m m cpu_to_phys_group) s = s\<lparr>k_sg := linked_groups m (k_sg s)\<rparr>"
proof -
  have one: "exec (init_sched_build_groups {i} {i} cpu_to_phys_group) s = s\<lparr>k_sg := linked_groups {i} (k_sg s)\<rparr>"
    if "i = 0 \<or> i = 1" for i
  proof -
    have c: "cpus_of {i} = [i]" using that by auto
    have l: "linked_groups {i} g = g(i := \<lparr>sg_next = i, sg_cpumask = {i}, sg_cpu_power = 0\<rparr>)" for g
      using that by (auto simp: linked_groups_def fresh_group_def group_after_def fun_eq_iff)
    show ?thesis
      by (simp add: init_sched_build_groups_def c cpu_to_phys_group_def fill_group_run l group_full Let_def)
  qed
  have l: "linked_groups {0, 1} g = g(0 := \<lparr>sg_next = 1, sg_cpumask = {0}, sg_cpu_power = 0\<rparr>,
      1 := \<lparr>sg_next = 0, sg_cpumask = {1}, sg_cpu_power = 0\<rparr>)" for g
    by (auto simp: linked_groups_def fresh_group_def group_after_def fun_eq_iff)
  have two: "exec (init_sched_build_groups {0, 1} {0, 1} cpu_to_phys_group) s = s\<lparr>k_sg := linked_groups {0, 1} (k_sg s)\<rparr>"
    unfolding l by (simp add: init_sched_build_groups_def cpu_to_phys_group_def fill_group_run group_full Let_def)
  show ?thesis using assms one [of 0] one [of 1] two by (elim disjE) simp_all
qed

lemma powers_run:
  fixes s :: "'x kst"
  assumes "\<And>i. i \<in> set cs \<Longrightarrow> sd_groups (k_sd s i) = i \<and> sd_child (k_sd s i) = None \<and>
      smt_power (k_sd s i) = SCHED_LOAD_SCALE \<and> sg_cpumask (k_sg s i) = {i} \<and> i \<in> set possible_cpus"
    and "distinct cs"
  shows "exec (for_each cs (\<lambda>i. init_sched_groups_power i i)) s =
    s\<lparr>k_sg := (\<lambda>i. if i \<in> set cs then (k_sg s i)\<lparr>sg_cpu_power := SCHED_LOAD_SCALE\<rparr> else k_sg s i)\<rparr>"
  using assms
proof (induction cs arbitrary: s)
  case (Cons c cs)
  define s1 where "s1 = s\<lparr>k_sg := (k_sg s)(c := (k_sg s c)\<lparr>sg_cpu_power := SCHED_LOAD_SCALE\<rparr>)\<rparr>"
  have run: "exec (init_sched_groups_power c c) s = s1"
    unfolding s1_def by (rule init_power_run) (use Cons.prems(1) [of c] in auto)
  have "exec (for_each cs (\<lambda>i. init_sched_groups_power i i)) s1 =
      s1\<lparr>k_sg := (\<lambda>i. if i \<in> set cs then (k_sg s1 i)\<lparr>sg_cpu_power := SCHED_LOAD_SCALE\<rparr> else k_sg s1 i)\<rparr>"
    by (rule Cons.IH) (use Cons.prems in \<open>auto simp: s1_def\<close>)
  also have "\<dots> = s\<lparr>k_sg := (\<lambda>i. if i \<in> set (c # cs) then (k_sg s i)\<lparr>sg_cpu_power := SCHED_LOAD_SCALE\<rparr> else k_sg s i)\<rparr>"
    by (auto simp: s1_def fun_eq_iff)
  finally show ?case by (simp add: run)
qed simp

lemma set_up_domains_run:
  fixes s :: "'x kst"
  assumes law: "cpu_init_law K" and node: "one_node K m" and ne: "m \<noteq> {}"
  shows "exec (set_up_domains K m attr) s =
    s\<lparr>k_sd := (\<lambda>i. if i \<in> m then fresh_domain K (k_relax_domain_level s) attr m i else k_sd s i),
      k_sg := (\<lambda>i. if i \<in> m then fresh_group i (group_after m i) else k_sg s i)\<rparr>"
proof -
  have n: "cpumask_of_node (services K) 0 x \<inter> m = m" for x using node by (auto simp: one_node_def)
  have sub: "m \<subseteq> set possible_cpus" using node by (simp add: one_node_def)
  then have m: "m = {0} \<or> m = {1} \<or> m = {0, 1}" using ne subsets_of_cpus by auto
  have cs: "set (cpus_of m) = m" using sub by auto
  then have cne: "cpus_of m \<noteq> []" using ne by (metis list.set(1))
  define s1 where "s1 = s\<lparr>k_sd := (\<lambda>i. if i \<in> m then fresh_domain K (k_relax_domain_level s) attr m i else k_sd s i)\<rparr>"
  have none: "exec (for_each xs (\<lambda>i. do { build_sched_groups K SD_LV_SIBLING m i; build_sched_groups K SD_LV_MC m i })) t = t"
    for xs and t :: "'x kst"
    by (induction xs) (simp_all add: build_sched_groups_def)
  define s2 where "s2 = s1\<lparr>k_sg := linked_groups m (k_sg s1)\<rparr>"
  have groups: "exec (for_each [0..<nr_node_ids] (\<lambda>i. build_sched_groups K SD_LV_CPU m i)) s1 = s2"
    using n cne build_groups_run [OF m, of s1]
    by (simp add: nr_node_ids_def build_sched_groups_def Let_def s2_def)
  have p: "exec (for_each (cpus_of m) (\<lambda>i. init_sched_groups_power i i)) s2 =
      s2\<lparr>k_sg := (\<lambda>i. if i \<in> m then (k_sg s2 i)\<lparr>sg_cpu_power := SCHED_LOAD_SCALE\<rparr> else k_sg s2 i)\<rparr>"
  proof (rule powers_run [of "cpus_of m" s2, unfolded cs])
    fix i
    assume "i \<in> m"
    then show "sd_groups (k_sd s2 i) = i \<and> sd_child (k_sd s2 i) = None \<and>
      smt_power (k_sd s2 i) = SCHED_LOAD_SCALE \<and> sg_cpumask (k_sg s2 i) = {i} \<and> i \<in> set possible_cpus"
      using sub law by (auto simp: s2_def s1_def linked_groups_def fresh_group_def)
  qed simp
  have "exec (set_up_domains K m attr) s = exec (for_each (cpus_of m) (\<lambda>i. init_sched_groups_power i i)) s2"
    by (simp only: set_up_domains_def exec_bind set_up_loop [OF node] cs s1_def [symmetric] none groups)
  also have "\<dots> = s\<lparr>k_sd := (\<lambda>i. if i \<in> m then fresh_domain K (k_relax_domain_level s) attr m i else k_sd s i),
      k_sg := (\<lambda>i. if i \<in> m then fresh_group i (group_after m i) else k_sg s i)\<rparr>"
  proof -
    have "(\<lambda>i. if i \<in> m then (k_sg s2 i)\<lparr>sg_cpu_power := SCHED_LOAD_SCALE\<rparr> else k_sg s2 i) =
        (\<lambda>i. if i \<in> m then fresh_group i (group_after m i) else k_sg s i)"
      by (simp add: s2_def s1_def linked_groups_def fresh_group_def fun_eq_iff)
    then show ?thesis unfolding p by (simp add: s2_def s1_def)
  qed
  finally show ?thesis .
qed

lemma a_attach_frame [simp]:
  "tp_sd (a_attach c d t) = tp_sd t" "tp_sg (a_attach c d t) = tp_sg t" "tp_dom (a_attach c d t) = tp_dom t"
  by (simp_all add: a_attach_def a_free_def a_enter_def a_online_def a_leave_def a_release_def a_offline_def Let_def
      split: option.split)

lemma prune_lonely: "sd_parent (k_sd s i) = None \<Longrightarrow> exec (prune_parents (Some i)) s = s"
  by (simp add: prune_parents_def)

lemma drop_lonely:
  assumes "sd_parent (k_sd s i) = None"
  shows "result (drop_degenerate (Some i)) s = (if sd_degenerate (k_sg s) (k_sd s i) then None else Some i)"
    and "exec (drop_degenerate (Some i)) s = s"
  using assms by (simp_all add: drop_degenerate_def)

lemma borrow_run: "\<exists>x. exec (borrow_groupmask K sd) s = s\<lparr>k_ext := x\<rparr>"
proof (cases sd)
  case None
  then show ?thesis by (intro exI [of _ "k_ext s"]) (simp add: borrow_groupmask_def)
qed (simp add: borrow_groupmask_def, blast)

lemma cpu_attach_domains:
  fixes s :: "'x kst" and d :: nat
  assumes K: "root_ops_keep K" and p: "sd_parent (k_sd s i) = None"
  defines "s' \<equiv> exec (cpu_attach_domain K (Some i) d i) s"
  shows "k_sd s' = k_sd s" and "k_sg s' = k_sg s"
    and "rq_sd (k_rq s' c) = (if c = i then if sd_degenerate (k_sg s) (k_sd s i) then None else Some i
      else rq_sd (k_rq s c))"
proof -
  define sd' where "sd' = (if sd_degenerate (k_sg s) (k_sd s i) then None else Some i)"
  obtain x where x: "exec (borrow_groupmask K sd') s = s\<lparr>k_ext := x\<rparr>" using borrow_run [of K sd' s] by blast
  define s1 where "s1 = exec (rq_attach_root K i d) (s\<lparr>k_ext := x\<rparr>)"
  have t: "topo s1 = a_attach i d (topo s)"
    unfolding s1_def using rq_attach_root_refines [OF K] by (simp add: topo_upd)
  have run: "s' = s1\<lparr>k_rq := (k_rq s1)(i := (k_rq s1 i)\<lparr>rq_sd := sd'\<rparr>)\<rparr>"
    by (simp add: s'_def cpu_attach_domain_def prune_lonely [OF p] drop_lonely [OF p] sd'_def [symmetric] x s1_def)
  have "tp_sd (topo s1) = tp_sd (topo s)" "tp_sg (topo s1) = tp_sg (topo s)" "tp_dom (topo s1) = tp_dom (topo s)"
    by (simp_all only: t a_attach_frame)
  then have e: "k_sd s1 = k_sd s" "k_sg s1 = k_sg s" "\<And>c. rq_sd (k_rq s1 c) = rq_sd (k_rq s c)"
    by (simp_all add: topo_def fun_eq_iff)
  show "k_sd s' = k_sd s" "k_sg s' = k_sg s"
    "rq_sd (k_rq s' c) = (if c = i then if sd_degenerate (k_sg s) (k_sd s i) then None else Some i else rq_sd (k_rq s c))"
    by (simp_all add: run e sd'_def)
qed

lemma attach_domains_loop:
  fixes s :: "'x kst"
  assumes K: "root_ops_keep K" and "\<And>i. i \<in> set cs \<Longrightarrow> sd_parent (k_sd s i) = None"
  shows "k_sd (exec (for_each cs (\<lambda>i. cpu_attach_domain K (Some i) d i)) s) = k_sd s \<and>
    k_sg (exec (for_each cs (\<lambda>i. cpu_attach_domain K (Some i) d i)) s) = k_sg s \<and>
    (\<forall>c. rq_sd (k_rq (exec (for_each cs (\<lambda>i. cpu_attach_domain K (Some i) d i)) s) c) =
      (if c \<in> set cs then if sd_degenerate (k_sg s) (k_sd s c) then None else Some c else rq_sd (k_rq s c)))"
  using assms(2)
proof (induction cs arbitrary: s)
  case (Cons i cs)
  have p: "sd_parent (k_sd s i) = None" using Cons.prems by simp
  note a = cpu_attach_domains [OF K p, of d]
  define s1 where "s1 = exec (cpu_attach_domain K (Some i) d i) s"
  note a = a [folded s1_def]
  have run: "exec (for_each (i # cs) (\<lambda>i. cpu_attach_domain K (Some i) d i)) s =
    exec (for_each cs (\<lambda>i. cpu_attach_domain K (Some i) d i)) s1" by (simp add: s1_def)
  have "\<And>j. j \<in> set cs \<Longrightarrow> sd_parent (k_sd s1 j) = None" using Cons.prems by (simp add: a)
  from Cons.IH [OF this] show ?case unfolding run by (auto simp: a)
qed simp

lemma group_flags_nonzero: "f AND SD_LOAD_BALANCE \<noteq> 0 \<Longrightarrow> f AND group_flags \<noteq> 0"
proof
  assume "f AND group_flags = 0"
  then have "(f AND group_flags) AND SD_LOAD_BALANCE = 0" by simp
  moreover have "group_flags AND SD_LOAD_BALANCE = SD_LOAD_BALANCE"
    by (simp add: group_flags_def SD_LOAD_BALANCE_def SD_BALANCE_NEWIDLE_def SD_BALANCE_FORK_def SD_BALANCE_EXEC_def
        SD_SHARE_CPUPOWER_def SD_SHARE_PKG_RESOURCES_def)
  ultimately have "f AND SD_LOAD_BALANCE = 0" by (simp add: and.assoc)
  moreover assume "f AND SD_LOAD_BALANCE \<noteq> 0"
  ultimately show False by simp
qed

lemma weight_cases [simp]:
  "cpumask_weight {0} = 1" "cpumask_weight {Suc 0} = 1" "cpumask_weight {0, Suc 0} = 2"
  by (simp_all add: cpumask_weight_def demo_cpus)

lemma fresh_degenerate:
  assumes law: "cpu_init_law K" and m: "m = {0} \<or> m = {1} \<or> m = {0, 1}" and c: "c \<in> m"
    and g: "sgs c = fresh_group c (group_after m c)"
  shows "sd_degenerate sgs (fresh_domain K def attr m c) \<longleftrightarrow> m = {c}"
proof (cases "m = {c}")
  case True
  then show ?thesis using m by (auto simp: sd_degenerate_def)
next
  case False
  then have m2: "m = {0, 1}" using m c by auto
  then have "group_after m c \<noteq> c" using c by (auto simp: group_after_def)
  moreover have "sd_flags (fresh_domain K def attr m c) AND group_flags \<noteq> 0"
    using law by (intro group_flags_nonzero) simp
  ultimately show ?thesis
    using False m2 by (simp add: sd_degenerate_def one_group_def g) (simp add: fresh_group_def)
qed

text \<open>The kernel's own check finds nothing to complain about.\<close>

lemma two_cpus_pass:
  assumes law: "cpu_init_law K" and c: "c = 0 \<or> c = (1 :: nat)"
    and sd: "sds c = fresh_domain K def attr {0, 1} c"
    and sg: "sgs 0 = fresh_group 0 1" "sgs 1 = fresh_group 1 0"
  shows "sched_domain_debug (Suc NR_CPUS) sds sgs (Some c) c = Some []"
    and "ring NR_CPUS sgs c c = [c, 1 - c]"
proof -
  have n: "NR_CPUS = Suc (Suc 0)" by (simp add: NR_CPUS_def)
  have sg': "sgs 0 = \<lparr>sg_next = Suc 0, sg_cpumask = {0}, sg_cpu_power = 1024\<rparr>"
    "sgs (Suc 0) = \<lparr>sg_next = 0, sg_cpumask = {Suc 0}, sg_cpu_power = 1024\<rparr>"
    using sg by (simp_all add: fresh_group_def SCHED_LOAD_SCALE_def SCHED_LOAD_SHIFT_def)
  have "debug_groups (Suc NR_CPUS) sgs 0 0 {} = Some ([], {0, 1})"
    "debug_groups (Suc NR_CPUS) sgs (Suc 0) (Suc 0) {} = Some ([], {0, 1})"
    unfolding n by (simp_all add: sg' Let_def insert_commute)
  then have g: "debug_groups (Suc NR_CPUS) sgs c c {} = Some ([], {0, 1})" using c by (elim disjE) simp_all
  have l: "sd_flags (fresh_domain K def attr {0, 1} c) AND SD_LOAD_BALANCE \<noteq> 0" using law by simp
  have m: "c \<in> sg_cpumask (sgs c)" using c sg by (auto simp: fresh_group_def)
  have "sched_domain_debug_one (Suc NR_CPUS) sds sgs c c = Some (False, [])"
    using g l m c unfolding sched_domain_debug_one_def Let_def sd by auto
  then show "sched_domain_debug (Suc NR_CPUS) sds sgs (Some c) c = Some []"
    by (simp add: sd del: debug_groups.simps)
  show "ring NR_CPUS sgs c c = [c, 1 - c]"
    using c sg' by (elim disjE) (simp_all add: n)
qed

text \<open>C27. The domains that are built are sound. After a successful construction for some CPUs, the kernel's own
  check (\<open>sched_domain_debug\<close>) has nothing to complain about for any of them: each spans exactly these CPUs, its
  groups form a ring of all of them, one each, beginning with this CPU, with their power set. A CPU alone has
  no domain.\<close>

theorem built_domains_pass_debug:
  fixes s :: "'x kst"
  assumes K: "root_ops_keep K" and law: "cpu_init_law K" and node: "one_node K m" and c: "c \<in> m"
    and res: "result (build_sched_domains_attr K m attr) s = 0"
  shows "let s' = exec (build_sched_domains_attr K m attr) s in
    sched_domain_debug (Suc NR_CPUS) (k_sd s') (k_sg s') (rq_sd (k_rq s' c)) c = Some [] \<and>
    (if m = {c} then rq_sd (k_rq s' c) = None
     else rq_sd (k_rq s' c) = Some c \<and> sd_span (k_sd s' c) = m \<and> sd_parent (k_sd s' c) = None \<and>
       set (ring NR_CPUS (k_sg s') c c) = m \<and> (\<forall>i \<in> m. sg_cpumask (k_sg s' i) = {i}))"
proof -
  define s1 where "s1 = exec (visit_domain_allocation_hell K) s"
  obtain what rd where v: "result (visit_domain_allocation_hell K) s = (what, rd)"
    by (cases "result (visit_domain_allocation_hell K) s")
  have w: "(what = Sa_rootdomain) = (rd \<noteq> None)" using visit_complete [of K s] v by simp
  have "rd \<noteq> None"
  proof
    assume "rd = None"
    then have "result (build_sched_domains_attr K m attr) s = - NO_MEMORY"
      using v w by (simp add: build_sched_domains_attr_def split: s_alloc.split)
    then show False using res by (simp add: NO_MEMORY_def)
  qed
  then obtain d where d: "rd = Some d" "what = Sa_rootdomain" using w by auto
  have sub: "m \<subseteq> set possible_cpus" using node by (simp add: one_node_def)
  then have cs: "set (cpus_of m) = m" by auto
  have m: "m = {0} \<or> m = {1} \<or> m = {0, 1}" using c sub subsets_of_cpus by auto
  define s2 where "s2 = exec (set_up_domains K m attr) s1"
  have "m \<noteq> {}" using c by auto
  from set_up_domains_run [OF law node this, of attr s1]
  have up: "k_sd s2 i = fresh_domain K (k_relax_domain_level s1) attr m i" "k_sg s2 i = fresh_group i (group_after m i)"
    if "i \<in> m" for i using that by (simp_all add: s2_def)
  define s3 where "s3 = exec (for_each (cpus_of m) (\<lambda>i. cpu_attach_domain K (Some i) d i)) s2"
  have "\<And>i. i \<in> set (cpus_of m) \<Longrightarrow> sd_parent (k_sd s2 i) = None" using up cs by simp
  from attach_domains_loop [OF K this, of "cpus_of m" d]
  have a: "k_sd s3 = k_sd s2" "k_sg s3 = k_sg s2"
    "rq_sd (k_rq s3 c) = (if sd_degenerate (k_sg s2) (k_sd s2 c) then None else Some c)"
    using c unfolding s3_def cs by simp_all
  define s' where "s' = exec (build_sched_domains_attr K m attr) s"
  have run: "s' = exec (for_each (scratch_masks Sa_tmpmask) (\<lambda>m. free_mask (Scratch m))) s3"
    using v d by (simp add: s'_def build_sched_domains_attr_def s1_def s2_def s3_def free_domain_allocs_def)
  then have e: "k_sd s' = k_sd s2" "k_sg s' = k_sg s2" "k_rq s' = k_rq s3" by (simp_all add: free_scratch_run a)
  have deg: "sd_degenerate (k_sg s2) (k_sd s2 c) \<longleftrightarrow> m = {c}"
    using fresh_degenerate [OF law m c] up [OF c] by simp
  show ?thesis
  proof (cases "m = {c}")
    case True
    then show ?thesis using deg unfolding s'_def [symmetric] Let_def by (simp add: e a)
  next
    case False
    then have m2: "m = {0, 1}" and c': "c = 0 \<or> c = 1" using m c by auto
    have g: "k_sg s2 0 = fresh_group 0 1" "k_sg s2 1 = fresh_group 1 0" using up m2 by (simp_all add: group_after_def)
    note pass = two_cpus_pass [OF law c', of "k_sd s2" "k_relax_domain_level s1" attr "k_sg s2"]
    have "k_sd s2 c = fresh_domain K (k_relax_domain_level s1) attr {0, 1} c" using up c m2 by simp
    note pass = pass [OF this g]
    have "set [c, 1 - c] = m" using c' m2 by auto
    moreover have "\<forall>i \<in> m. sg_cpumask (k_sg s2 i) = {i}" using up by (simp add: fresh_group_def)
    ultimately show ?thesis
      using False deg pass up [OF c] unfolding s'_def [symmetric] Let_def e a by simp
  qed
qed

theorem built_domains_pass_debug_witness:
  "sched_domain_debug (Suc NR_CPUS) (k_sd (exec (build_sched_domains_attr demo_kops {0, 1} (Some 4)) (blank_kst ())))
     (k_sg (exec (build_sched_domains_attr demo_kops {0, 1} (Some 4)) (blank_kst ())))
     (rq_sd (k_rq (exec (build_sched_domains_attr demo_kops {0, 1} (Some 4)) (blank_kst ())) 1)) 1 = Some []"
proof -
  have law: "cpu_init_law (demo_kops :: unit kops)"
    by (simp add: cpu_init_law_def demo_kops_def quiet_services_def SD_LOAD_BALANCE_def SD_SHARE_CPUPOWER_def)
  have node: "one_node (demo_kops :: unit kops) {0, 1}"
    by (simp add: one_node_def demo_kops_def quiet_services_def demo_cpus)
  have res: "result (build_sched_domains_attr demo_kops {0, 1} (Some 4)) (blank_kst ()) = 0"
    by (simp add: build_sched_domains_attr_def visit_domain_allocation_hell_def alloc_rootdomain_def roots_in_use_def blank_kst_def
        init_rootdomain_def demo_kops_def quiet_services_def)
  have "(1 :: nat) \<in> {0, 1}" by simp
  from built_domains_pass_debug [OF demo_root_ops law node this res] show ?thesis
    unfolding Let_def by (rule conjunct1)
qed

end
