(* ===== verification/Sched_boot.thy ===== *)
theory Sched_boot
  imports Sched_domains_built Sched_schedule
begin

text \<open>
  \<open>sched_mod.c\<close>, lines 9276 to 9620 and 9937 to 10046: the state of the scheduler at boot, and task
  groups. Groups are per user (\<open>CONFIG_USER_SCHED\<close>), and neither the fair nor the real-time class is
  grouped, so that a group is only a node of a tree and moving a task between groups only takes it off
  its queue and puts it back.
\<close>

definition INIT_TASK :: task where "INIT_TASK = 0"
definition ROOT_TASK_GROUP :: nat where "ROOT_TASK_GROUP = 0"
definition INIT_TASK_GROUP :: nat where "INIT_TASK_GROUP = 1"

subsection \<open>Boot\<close>

definition init_cfs_rq :: "cpu \<Rightarrow> ('x kst, unit) state" where
  "init_cfs_rq c = upd_rq c (\<lambda>r. r\<lparr>rq_cfs := (rq_cfs r)\<lparr>cfs_min_vruntime := - push_bit 20 1\<rparr>\<rparr>)"

text \<open>The fields the code does not name here are 0 in a static variable.\<close>

definition init_rt_rq :: "cpu \<Rightarrow> ('x kst, unit) state" where
  "init_rt_rq c = do {
     for_each [0..<nat MAX_RT_PRIO] (\<lambda>i. do {
       upd_rt c (\<lambda>r. r\<lparr>rt_queue := (rt_queue r)(i := [])\<rparr>);
       upd_rt c (\<lambda>r. r\<lparr>rt_bitmap := rt_bitmap r - {i}\<rparr>) });
     upd_rt c (\<lambda>r. r\<lparr>rt_bitmap := insert (nat MAX_RT_PRIO) (rt_bitmap r)\<rparr>);
     upd_rt c (\<lambda>r. r\<lparr>rt_highest_curr := MAX_RT_PRIO\<rparr>);
     upd_rt c (\<lambda>r. r\<lparr>rt_highest_next := MAX_RT_PRIO\<rparr>);
     upd_rt c (\<lambda>r. r\<lparr>rt_nr_migratory := 0\<rparr>);
     upd_rt c (\<lambda>r. r\<lparr>rt_overloaded := False\<rparr>);
     upd_rt c (\<lambda>r. r\<lparr>rt_pushable_tasks := []\<rparr>);
     upd_rt c (\<lambda>r. r\<lparr>rt_time := 0\<rparr>);
     upd_rt c (\<lambda>r. r\<lparr>rt_throttled := False\<rparr>);
     upd_rt c (\<lambda>r. r\<lparr>rt_runtime := 0\<rparr>) }"

definition init_rq_hrtick :: "cpu \<Rightarrow> ('x kst, unit) state" where
  "init_rq_hrtick c = upd_rq c (\<lambda>r. r\<lparr>rq_hrtick_csd_pending := False\<rparr>)"

text \<open>The body of the loop over all CPUs, up to and from where the root domain is attached.\<close>

definition clear_rq :: "cpu \<Rightarrow> ('x kst, unit) state" where
  "clear_rq i = do {
     upd_rq i (\<lambda>r. r\<lparr>rq_nr_running := 0\<rparr>);
     upd_rq i (\<lambda>r. r\<lparr>rq_calc_load_active := 0\<rparr>);
     now \<leftarrow> gets k_jiffies;
     upd_rq i (\<lambda>r. r\<lparr>rq_calc_load_update := now + LOAD_FREQ\<rparr>);
     init_cfs_rq i;
     init_rt_rq i;
     runtime \<leftarrow> gets (\<lambda>s. rtb_runtime (k_def_rt_bandwidth s));
     upd_rt i (\<lambda>r. r\<lparr>rt_runtime := runtime\<rparr>);
     for_each [0..<CPU_LOAD_IDX_MAX] (\<lambda>j. upd_rq i (\<lambda>r. r\<lparr>rq_cpu_load := (rq_cpu_load r)[j := 0]\<rparr>));
     upd_rq i (\<lambda>r. r\<lparr>rq_sd := None\<rparr>);
     upd_rq i (\<lambda>r. r\<lparr>rq_rd := None\<rparr>);
     upd_rq i (\<lambda>r. r\<lparr>rq_post_schedule := False\<rparr>);
     upd_rq i (\<lambda>r. r\<lparr>rq_active_balance := False\<rparr>);
     upd_rq i (\<lambda>r. r\<lparr>rq_next_balance := now\<rparr>);
     upd_rq i (\<lambda>r. r\<lparr>rq_push_cpu := 0\<rparr>);
     upd_rq i (\<lambda>r. r\<lparr>rq_online := False\<rparr>);
     upd_rq i (\<lambda>r. r\<lparr>rq_migration_thread := None\<rparr>);
     upd_rq i (\<lambda>r. r\<lparr>rq_migration_queue := []\<rparr>) }"

definition sched_init_rq :: "'x kops \<Rightarrow> cpu \<Rightarrow> ('x kst, unit) state" where
  "sched_init_rq K i = do {
     clear_rq i;
     rq_attach_root K i DEF_ROOT_DOMAIN;
     init_rq_hrtick i;
     upd_rq i (\<lambda>r. r\<lparr>rq_nr_iowait := 0\<rparr>) }"

definition upd_tg :: "nat \<Rightarrow> (task_group \<Rightarrow> task_group) \<Rightarrow> ('x kst, unit) state" where
  "upd_tg g f = modify (\<lambda>s. s\<lparr>k_tg := (k_tg s)(g := f (k_tg s g))\<rparr>)"

text \<open>The first two groups: the root, and below it the group of all tasks so far. New elements go to the
  front of a list.\<close>

definition init_task_groups :: "('x kst, unit) state" where
  "init_task_groups = do {
     modify (\<lambda>s. s\<lparr>k_task_groups := INIT_TASK_GROUP # k_task_groups s\<rparr>);
     upd_tg INIT_TASK_GROUP (\<lambda>g. g\<lparr>tg_children := []\<rparr>);
     upd_tg ROOT_TASK_GROUP (\<lambda>g. g\<lparr>tg_children := []\<rparr>);
     upd_tg INIT_TASK_GROUP (\<lambda>g. g\<lparr>tg_parent := Some ROOT_TASK_GROUP\<rparr>);
     upd_tg ROOT_TASK_GROUP (\<lambda>g. g\<lparr>tg_children := INIT_TASK_GROUP # tg_children g\<rparr>) }"

text \<open>The masks that are allocated at the end are static in this configuration: they are cleared.\<close>

definition sched_init :: "'x kops \<Rightarrow> ('x kst, unit) state" where
  "sched_init K = do {
     init_defrootdomain K;
     y \<leftarrow> gets k_sysctl;
     init_rt_bandwidth (global_rt_period y) (global_rt_runtime y);
     init_task_groups;
     for_each possible_cpus (sched_init_rq K);
     set_load_weight INIT_TASK;
     log_event (Mm_count_inc (Some INIT_MM));
     me \<leftarrow> gets k_current;
     log_event (Lazy_tlb (Some INIT_MM) me);
     this \<leftarrow> gets k_this_cpu;
     init_idle K me this;
     now \<leftarrow> gets k_jiffies;
     modify (\<lambda>s. s\<lparr>k_calc_load_update := now + LOAD_FREQ\<rparr>);
     upd_task me (\<lambda>t. t\<lparr>t_sched_class := Fair_sched_class\<rparr>);
     modify (\<lambda>s. s\<lparr>k_nohz_mask := {}\<rparr>);
     modify (\<lambda>s. s\<lparr>k_isolated_map := {}\<rparr>);
     modify (\<lambda>s. s\<lparr>k_scheduler_running := True\<rparr>) }"

subsection \<open>Task groups\<close>

definition free_sched_group :: "nat \<Rightarrow> ('x kst, unit) state" where
  "free_sched_group tg = log_event (Free (Task_group tg))"

text \<open>The answer is the group or the error.\<close>

definition sched_create_group :: "'x kops \<Rightarrow> nat option \<Rightarrow> ('x kst, int + nat) state" where
  "sched_create_group K parent = do {
     tg \<leftarrow> service (alloc_task_group (services K));
     (case tg of
        None \<Rightarrow> ret (Inl (- NO_MEMORY))
      | Some tg \<Rightarrow> do {
          log_event (Alloc (Task_group tg));
          upd_tg tg (\<lambda>_. \<lparr>tg_parent = None, tg_children = []\<rparr>);
          flags \<leftarrow> spin_lock_irqsave Task_group_lock;
          modify (\<lambda>s. s\<lparr>k_task_groups := tg # k_task_groups s\<rparr>);
          when_m (parent = None) (log_event Warn);
          upd_tg tg (\<lambda>g. g\<lparr>tg_parent := parent\<rparr>);
          upd_tg tg (\<lambda>g. g\<lparr>tg_children := []\<rparr>);
          (case parent of
             None \<Rightarrow> log_event Sched_bug
           | Some p \<Rightarrow> upd_tg p (\<lambda>g. g\<lparr>tg_children := tg # tg_children g\<rparr>));
          spin_unlock_irqrestore Task_group_lock flags;
          ret (Inr tg) }) }"

definition free_sched_group_rcu :: "nat \<Rightarrow> ('x kst, unit) state" where
  "free_sched_group_rcu tg = free_sched_group tg"

text \<open>The group leaves both lists it is on at once, and is freed by a callback later.\<close>

definition sched_destroy_group :: "nat \<Rightarrow> ('x kst, unit) state" where
  "sched_destroy_group tg = do {
     flags \<leftarrow> spin_lock_irqsave Task_group_lock;
     modify (\<lambda>s. s\<lparr>k_task_groups := remove1 tg (k_task_groups s)\<rparr>);
     parent \<leftarrow> gets (\<lambda>s. tg_parent (k_tg s tg));
     (case parent of
        None \<Rightarrow> skip
      | Some p \<Rightarrow> upd_tg p (\<lambda>g. g\<lparr>tg_children := remove1 tg (tg_children g)\<rparr>));
     spin_unlock_irqrestore Task_group_lock flags;
     log_event (Call_rcu (Task_group tg)) }"

definition sched_move_task :: "'x kops \<Rightarrow> task \<Rightarrow> ('x kst, unit) state" where
  "sched_move_task K tsk = do {
     (rq, flags) \<leftarrow> task_rq_lock tsk;
     update_rq_clock K rq;
     running \<leftarrow> task_current rq tsk;
     on_rq \<leftarrow> task_get tsk (\<lambda>t. se_on_rq (t_se t));
     when_m on_rq (dequeue_task K rq tsk False);
     when_m running (do { cls \<leftarrow> task_get tsk t_sched_class; op_put_prev_task (classes K) cls rq tsk });
     when_m running (do { cls \<leftarrow> task_get tsk t_sched_class; op_set_curr_task (classes K) cls rq });
     when_m on_rq (enqueue_task K rq tsk False);
     task_rq_unlock rq flags }"

subsection \<open>What boot establishes\<close>

text \<open>A runqueue in its initial state, apart from the root domain.\<close>

definition fresh_rt :: "rt_rq \<Rightarrow> u64 \<Rightarrow> rt_rq" where
  "fresh_rt r v = \<lparr>rt_queue = (\<lambda>j. if j < 100 then [] else rt_queue r j),
     rt_bitmap = insert 100 (rt_bitmap r - {0..<100}), rt_highest_curr = MAX_RT_PRIO, rt_highest_next = MAX_RT_PRIO,
     rt_nr_migratory = 0, rt_overloaded = False, rt_pushable_tasks = [], rt_time = 0, rt_throttled = False,
     rt_runtime = v\<rparr>"

lemma clear_queues:
  "exec (for_each [0..<n] (\<lambda>i. do {
     upd_rt c (\<lambda>r. r\<lparr>rt_queue := (rt_queue r)(i := [])\<rparr>);
     upd_rt c (\<lambda>r. r\<lparr>rt_bitmap := rt_bitmap r - {i}\<rparr>) })) s =
   s\<lparr>k_rq := (k_rq s)(c := (k_rq s c)\<lparr>rq_rt := (rq_rt (k_rq s c))\<lparr>
     rt_queue := (\<lambda>j. if j < n then [] else rt_queue (rq_rt (k_rq s c)) j),
     rt_bitmap := rt_bitmap (rq_rt (k_rq s c)) - {0..<n}\<rparr>\<rparr>)\<rparr>"
proof (induction n)
  case (Suc n)
  have q: "(\<lambda>j. if j < n then [] else q j)(n := []) = (\<lambda>j. if j < Suc n then [] else q j)" for q :: "nat \<Rightarrow> task list"
    by (auto simp: fun_eq_iff)
  have b: "B - {0..<n} - {n} = B - {0..<Suc n}" for B :: "nat set" by auto
  have u: "[0..<Suc n] = [0..<n] @ [n]" by simp
  show ?case unfolding u for_each_append exec_bind Suc by (simp add: upd_rt_def fun_upd_same fun_upd_upd q b del: fun_upd_apply)
qed simp

lemma init_rt_rq_run:
  "exec (init_rt_rq c) s = s\<lparr>k_rq := (k_rq s)(c := (k_rq s c)\<lparr>rq_rt := fresh_rt (rq_rt (k_rq s c)) 0\<rparr>)\<rparr>"
  unfolding init_rt_rq_def exec_bind clear_queues MAX_RT_PRIO_def
  by (simp add: upd_rt_def fresh_rt_def MAX_RT_PRIO_def) (cases "rq_rt (k_rq s c)", simp)

definition clear_first :: "nat \<Rightarrow> u32 list \<Rightarrow> u32 list" where
  "clear_first n xs = map (\<lambda>j. if j < n then 0 else xs ! j) [0..<length xs]"

definition fresh_rq :: "'x kst \<Rightarrow> rq \<Rightarrow> rq" where
  "fresh_rq s r = r\<lparr>rq_nr_running := 0, rq_calc_load_active := 0, rq_calc_load_update := k_jiffies s + LOAD_FREQ,
     rq_cfs := (rq_cfs r)\<lparr>cfs_min_vruntime := - push_bit 20 1\<rparr>,
     rq_rt := fresh_rt (rq_rt r) (rtb_runtime (k_def_rt_bandwidth s)),
     rq_cpu_load := clear_first CPU_LOAD_IDX_MAX (rq_cpu_load r),
     rq_sd := None, rq_rd := None, rq_post_schedule := False, rq_active_balance := False, rq_next_balance := k_jiffies s,
     rq_push_cpu := 0, rq_online := False, rq_migration_thread := None, rq_migration_queue := []\<rparr>"

lemma clear_loads:
  "exec (for_each [0..<n] (\<lambda>j. upd_rq c (\<lambda>r. r\<lparr>rq_cpu_load := (rq_cpu_load r)[j := 0]\<rparr>))) s =
   s\<lparr>k_rq := (k_rq s)(c := (k_rq s c)\<lparr>rq_cpu_load := clear_first n (rq_cpu_load (k_rq s c))\<rparr>)\<rparr>"
proof (induction n)
  case 0
  show ?case by (simp add: clear_first_def map_nth)
next
  case (Suc n)
  have l: "(clear_first n xs)[n := 0] = clear_first (Suc n) xs" for xs :: "u32 list"
    by (auto intro!: nth_equalityI simp: clear_first_def nth_list_update less_Suc_eq)
  have u: "[0..<Suc n] = [0..<n] @ [n]" by simp
  show ?case unfolding u for_each_append exec_bind Suc by (simp add: l fun_upd_same fun_upd_upd del: fun_upd_apply)
qed

lemma clear_rq_run:
  "exec (clear_rq i) s = s\<lparr>k_rq := (k_rq s)(i := fresh_rq s (k_rq s i))\<rparr>"
proof -
  have f: "(fresh_rt r 0)\<lparr>rt_runtime := v\<rparr> = fresh_rt r v" for r v by (simp add: fresh_rt_def)
  show ?thesis
    unfolding clear_rq_def fresh_rq_def
    by (simp add: init_cfs_rq_def init_rt_rq_run upd_rt_def clear_loads f fun_upd_same fun_upd_upd del: fun_upd_apply)
qed

text \<open>An empty runqueue whose real-time run time is the default one.\<close>

definition quiet_rq :: "cpu \<Rightarrow> 'x kst \<Rightarrow> bool" where
  "quiet_rq c s \<longleftrightarrow> rq_nr_running (k_rq s c) = 0 \<and> rt_runtime (rq_rt (k_rq s c)) = rtb_runtime (k_def_rt_bandwidth s)"

text \<open>What is relied on of the classes' \<open>rq_online\<close>: the runqueues stay empty and the run times the default.\<close>

definition boot_ops_keep :: "'x kops \<Rightarrow> bool" where
  "boot_ops_keep K \<longleftrightarrow> (\<forall>c f rq. op_rq_online (classes K) c = Some f \<longrightarrow>
     (\<forall>s x. quiet_rq x s \<longrightarrow> quiet_rq x (exec (f rq) s)))"

text \<open>The static data before boot: no runqueue has a root domain or is online, no root domain is allocated and
  there are no groups.\<close>

definition static_data :: "'x kst \<Rightarrow> bool" where
  "static_data s \<longleftrightarrow> (\<forall>c. rq_rd (k_rq s c) = None \<and> \<not> rq_online (k_rq s c)) \<and>
     (\<forall>d. held (Root_domain d) (k_log s) = 0) \<and> k_task_groups s = []"

lemma init_defrootdomain_part:
  fixes s :: "'x kst" and K :: "'x kops"
  assumes "static_data s"
  defines "s' \<equiv> exec (init_defrootdomain K) s"
  shows "roots_ok (topo s')" and "live (topo s') = {DEF_ROOT_DOMAIN}" and "tp_root (topo s') = (\<lambda>_. None)"
    and "tp_active (topo s') = tp_active (topo s)"
proof -
  define s1 where "s1 = exec (init_rootdomain K DEF_ROOT_DOMAIN) s"
  have s': "s' = s1\<lparr>k_rd := (k_rd s1)(DEF_ROOT_DOMAIN := (k_rd s1 DEF_ROOT_DOMAIN)\<lparr>rd_refcount := 1\<rparr>)\<rparr>"
    by (simp add: s'_def s1_def init_defrootdomain_def)
  have rd: "k_rd s1 = (k_rd s)(DEF_ROOT_DOMAIN := no_cpus)" unfolding s1_def by (rule init_rootdomain_rd)
  define ob where "ob s = (tp_root (topo s), tp_on (topo s), tp_active (topo s), \<lambda>d. tp_held (topo s) (Root_domain d))" for s :: "'x kst"
  have a: "keeps ob (upd_rd d f)" for d f by (rule keepsI) (auto simp: ob_def upd_rd_def topo_def split: option.split)
  have l: "(\<And>d. e \<noteq> Alloc (Root_domain d) \<and> e \<noteq> Free (Root_domain d)) \<Longrightarrow> keeps ob (log_event e)" for e
    by (rule keepsI) (simp add: ob_def topo_def)
  have v: "keeps ob (service g)" for g :: "'x \<Rightarrow> 'b \<times> 'x" by (rule keepsI) (simp add: ob_def topo_def)
  have m: "(\<And>d. x \<noteq> Root_domain d) \<Longrightarrow> keeps ob (alloc_mask K x)" "(\<And>d. x \<noteq> Root_domain d) \<Longrightarrow> keeps ob (free_mask x)" for x
    unfolding alloc_mask_def free_mask_def by (intro keeps_intros l v; simp)+
  have "keeps ob (init_rootdomain K DEF_ROOT_DOMAIN)"
    unfolding init_rootdomain_def by (intro keeps_intros a l m v; simp)
  then have o: "ob s1 = ob s" unfolding s1_def by (rule keepsD)
  have e: "tp_root (topo s') = (\<lambda>_. None)" "tp_on (topo s') = (\<lambda>_. False)" "tp_active (topo s') = tp_active (topo s)"
    "tp_held (topo s') (Root_domain d) = 0" for d
    using o assms(1) by (auto simp: s' ob_def topo_def static_data_def fun_eq_iff)
  show "tp_root (topo s') = (\<lambda>_. None)" "tp_active (topo s') = tp_active (topo s)" by (fact e)+
  show lv: "live (topo s') = {DEF_ROOT_DOMAIN}" using e(4) by (auto simp: live_def)
  have "members (\<lambda>_. None) d = {}" for d by (simp add: members_def)
  then show "roots_ok (topo s')"
    unfolding roots_ok_def lv roots_inv_def e by (simp add: s' rd no_cpus_def rd_ok_def)
qed

lemma quiet_upd [simp]:
  "quiet_rq x (s\<lparr>k_rd := r\<rparr>) = quiet_rq x s" "quiet_rq x (s\<lparr>k_ext := e\<rparr>) = quiet_rq x s"
  "quiet_rq x (s\<lparr>k_irqs_off := b\<rparr>) = quiet_rq x s" "quiet_rq x (s\<lparr>k_log := l\<rparr>) = quiet_rq x s"
  "rq_nr_running q = rq_nr_running (k_rq s c) \<Longrightarrow> rq_rt q = rq_rt (k_rq s c) \<Longrightarrow>
    quiet_rq x (s\<lparr>k_rq := (k_rq s)(c := q)\<rparr>) = quiet_rq x s"
  by (auto simp: quiet_rq_def)

lemma attach_quiet:
  fixes s :: "'x kst"
  assumes K: "boot_ops_keep K" and r: "rq_rd (k_rq s c) = None" and q: "quiet_rq x s"
  shows "quiet_rq x (exec (rq_attach_root K c d) s)"
proof -
  define s1 where "s1 = s\<lparr>k_irqs_off := True, k_log := k_log s @ [Irq_off, Spin_lock (Rq_lock c)],
    k_rq := (k_rq s)(c := (k_rq s c)\<lparr>rq_rd := Some d\<rparr>),
    k_rd := (k_rd s)(d := (k_rd s d)\<lparr>rd_refcount := rd_refcount (k_rd s d) + 1, rd_span := insert c (rd_span (k_rd s d))\<rparr>)\<rparr>"
  define s2 where "s2 = (if c \<in> k_active s then exec (set_rq_online K c) s1 else s1)"
  have l: "quiet_rq x t \<Longrightarrow> quiet_rq x (exec (for_each cs (\<lambda>cls.
      case op_rq_online (classes K) cls of Some f \<Rightarrow> f c | None \<Rightarrow> skip)) t)" for t :: "'x kst" and cs
    by (rule wp_for_each_inv) (use K in \<open>auto simp: boot_ops_keep_def split: option.split\<close>)
  have "quiet_rq x s1" using q by (auto simp: s1_def quiet_rq_def)
  then have "quiet_rq x s2" by (simp add: s2_def set_rq_online_def l upd_rd_def split: option.split)
  moreover have "exec (rq_attach_root K c d) s =
      s2\<lparr>k_irqs_off := k_irqs_off s, k_log := k_log s2 @ [Spin_unlock (Rq_lock c), Irq_restore (k_irqs_off s)]\<rparr>"
    using r by (simp add: rq_attach_root_def leave_root_def enter_root_def s2_def s1_def fun_upd_same fun_upd_upd
        del: fun_upd_apply)
  ultimately show ?thesis by (simp add: quiet_rq_def)
qed

text \<open>The CPUs below \<open>n\<close> have been initialised.\<close>

definition booted :: "cpumask \<Rightarrow> nat \<Rightarrow> 'x kst \<Rightarrow> bool" where
  "booted A n s \<longleftrightarrow> roots_ok (topo s) \<and> live (topo s) = {DEF_ROOT_DOMAIN} \<and>
     tp_root (topo s) = (\<lambda>c. if c < n then Some DEF_ROOT_DOMAIN else None) \<and> tp_active (topo s) = A \<and>
     (\<forall>c < n. tp_on (topo s) c = (c \<in> A)) \<and> (\<forall>c < n. rq_sd (k_rq s c) = None \<and> quiet_rq c s)"

lemma sched_init_rq_step:
  fixes s :: "'x kst"
  assumes K: "root_ops_keep K" "boot_ops_keep K" and b: "booted A n s" and n: "n \<in> set possible_cpus"
  shows "booted A (Suc n) (exec (sched_init_rq K n) s)"
proof -
  define s1 where "s1 = exec (clear_rq n) s"
  define s2 where "s2 = exec (rq_attach_root K n DEF_ROOT_DOMAIN) s1"
  define s3 where "s3 = exec (sched_init_rq K n) s"
  have s3: "s3 = s2\<lparr>k_rq := (k_rq s2)(n := (k_rq s2 n)\<lparr>rq_hrtick_csd_pending := False, rq_nr_iowait := 0\<rparr>)\<rparr>"
    by (simp add: s3_def s2_def s1_def sched_init_rq_def init_rq_hrtick_def fun_upd_same fun_upd_upd del: fun_upd_apply)
  have s1: "s1 = s\<lparr>k_rq := (k_rq s)(n := fresh_rq s (k_rq s n))\<rparr>"
    by (simp add: s1_def clear_rq_run del: fun_upd_apply)
  have ok: "roots_ok (topo s)" "live (topo s) = {DEF_ROOT_DOMAIN}" "tp_active (topo s) = A"
    and root: "tp_root (topo s) = (\<lambda>c. if c < n then Some DEF_ROOT_DOMAIN else None)"
    using b by (simp_all add: booted_def del: topo_sel)
  have rn: "tp_root (topo s) n = None" unfolding root by simp
  then have "\<not> tp_on (topo s) n" using ok(1) n by (auto simp: roots_ok_def roots_inv_def split: option.splits)
  then have "robs s1 = robs s" using rn by (simp add: s1 fresh_rq_def)
  note e1 = roots_part_cong [OF this]
  have t2: "topo s2 = a_attach n DEF_ROOT_DOMAIN (topo s1)" unfolding s2_def by (rule rq_attach_root_refines [OF K(1)])
  have pre: "roots_ok (topo s1)" "DEF_ROOT_DOMAIN \<in> live (topo s1)" "tp_root (topo s1) n = None"
    using ok rn by (simp_all only: e1, simp)
  note a = a_attach_ok [OF pre(1) n pre(2) disjI2 [OF refl], folded t2]
  have last: "left_last n (topo s1) = None" unfolding left_last_def using pre(3) by (simp del: topo_sel)
  have "robs s3 = robs s2" by (simp add: s3)
  note e3 = roots_part_cong [OF this]
  have q1: "quiet_rq c s1" if "c < Suc n" for c
    using b that by (auto simp: booted_def s1 quiet_rq_def fresh_rq_def fresh_rt_def less_Suc_eq)
  have "rq_rd (k_rq s1 n) = None" using pre(3) by simp
  note q2 = attach_quiet [OF K(2) this q1, of _ DEF_ROOT_DOMAIN, folded s2_def]
  have q3: "quiet_rq c s3" if "c < Suc n" for c using q2 [OF that] by (simp add: s3)
  have "tp_dom (topo s2) = tp_dom (topo s1)"
    by (simp add: t2 a_attach_def a_free_def a_enter_def a_online_def a_leave_def a_release_def a_offline_def Let_def
        split: option.split)
  then have d2: "rq_sd (k_rq s2 c) = rq_sd (k_rq s1 c)" for c by (simp add: topo_def fun_eq_iff)
  have d3: "rq_sd (k_rq s3 c) = None" if "c < Suc n" for c
    using b that d2 [of c] by (auto simp: booted_def s3 s1 fresh_rq_def less_Suc_eq)
  have r3: "tp_root (topo s3) = (\<lambda>c. if c < Suc n then Some DEF_ROOT_DOMAIN else None)"
    unfolding e3 a(2) e1 root by (auto simp: fun_eq_iff)
  have o3: "tp_on (topo s3) c = (c \<in> A)" if "c < Suc n" for c
    using b that unfolding e3 a(3) e1 booted_def ok(3) by (auto simp del: topo_sel simp: less_Suc_eq)
  have "roots_ok (topo s3)" "live (topo s3) = {DEF_ROOT_DOMAIN}" "tp_active (topo s3) = A"
    using a(1,4,6) ok by (simp_all add: e3 e1 last del: topo_sel)
  then show ?thesis unfolding booted_def s3_def [symmetric] using r3 q3 d3 o3 by blast
qed

text \<open>Everything after the runqueues leaves them alone.\<close>

definition boot_rest :: "'x kops \<Rightarrow> ('x kst, unit) state" where
  "boot_rest K = do {
     set_load_weight INIT_TASK;
     log_event (Mm_count_inc (Some INIT_MM));
     me \<leftarrow> gets k_current;
     log_event (Lazy_tlb (Some INIT_MM) me);
     this \<leftarrow> gets k_this_cpu;
     init_idle K me this;
     now \<leftarrow> gets k_jiffies;
     modify (\<lambda>s. s\<lparr>k_calc_load_update := now + LOAD_FREQ\<rparr>);
     upd_task me (\<lambda>t. t\<lparr>t_sched_class := Fair_sched_class\<rparr>);
     modify (\<lambda>s. s\<lparr>k_nohz_mask := {}\<rparr>);
     modify (\<lambda>s. s\<lparr>k_isolated_map := {}\<rparr>);
     modify (\<lambda>s. s\<lparr>k_scheduler_running := True\<rparr>) }"

lemma booted_cong:
  assumes "robs t = robs s" and "\<And>c. rq_sd (k_rq t c) = rq_sd (k_rq s c)" and "\<And>c. quiet_rq c t = quiet_rq c s"
  shows "booted A n t = booted A n s"
  unfolding booted_def using roots_part_cong [OF assms(1)] assms(2,3) by (simp del: topo_sel)

lemma booted_rest: "booted A n s \<Longrightarrow> booted A n (exec (boot_rest K) s)"
proof -
  define ob where "ob s = (\<lambda>c. (rq_sd (k_rq s c), quiet_rq c s))" for s :: "'a kst"
  have lk: "keeps robs (spin_lock_irqsave x)" "keeps robs (spin_unlock_irqrestore x f)" for x f
    by (rule keepsI, simp add: topo_def roots_part_def)+
  have r: "keeps robs (boot_rest K)"
    unfolding boot_rest_def set_load_weight_def init_idle_def sched_fork_init_def set_task_cpu_raw_def
    by (intro keeps_robs_log lk keeps_intros; (simp; fail)?; simp add: roots_part_def topo_def fun_eq_iff)
  have "keeps ob (boot_rest K)"
    unfolding boot_rest_def set_load_weight_def init_idle_def sched_fork_init_def set_task_cpu_raw_def
    by (intro keeps_intros; simp add: ob_def quiet_rq_def fun_eq_iff)
  from keepsD [OF this, of s] have o: "ob (exec (boot_rest K) s) = ob s" .
  assume "booted A n s"
  then show ?thesis using booted_cong [of "exec (boot_rest K) s" s] o keepsD [OF r, of s] by (simp add: ob_def fun_eq_iff)
qed

lemma booted_groups:
  "booted A n (exec init_task_groups s) = booted A n s" "booted A n (exec (init_rt_bandwidth p r) s) = (booted A n s)"
  if "n = 0"
proof -
  have "robs (exec init_task_groups s) = robs s" "robs (exec (init_rt_bandwidth p r) s) = robs s"
    by (simp_all add: init_task_groups_def init_rt_bandwidth_def upd_tg_def roots_part_def topo_def)
  from this [THEN roots_part_cong(1)] this [THEN roots_part_cong(2)] this [THEN roots_part_cong(4)]
    this [THEN roots_part_cong(6)]
  show "booted A n (exec init_task_groups s) = booted A n s" "booted A n (exec (init_rt_bandwidth p r) s) = (booted A n s)"
    using that unfolding booted_def by (simp_all del: topo_sel)
qed

text \<open>C24. Boot establishes the invariant of the root domains that every later operation keeps: from zeroed static data,
  the default root domain is the only one, every CPU is in it, online there exactly if it is active, has no
  scheduling domain and an empty runqueue whose real-time run time is the default one.\<close>

theorem sched_init_boots:
  fixes s :: "'x kst"
  assumes ops: "root_ops_keep K" "boot_ops_keep K" and start: "static_data s"
  shows "let s' = exec (sched_init K) s in
    roots_ok (topo s') \<and> none_leaked (topo s') \<and> live (topo s') = {DEF_ROOT_DOMAIN} \<and>
    (\<forall>c \<in> set possible_cpus. rq_rd (k_rq s' c) = Some DEF_ROOT_DOMAIN \<and> (rq_online (k_rq s' c) \<longleftrightarrow> c \<in> k_active s) \<and>
       rq_sd (k_rq s' c) = None \<and> quiet_rq c s')"
proof -
  define s1 where "s1 = exec (init_defrootdomain K) s"
  define s2 where "s2 = exec init_task_groups (exec (init_rt_bandwidth (global_rt_period (k_sysctl s1))
    (global_rt_runtime (k_sysctl s1))) s1)"
  note d = init_defrootdomain_part [OF start, of K, folded s1_def]
  have "booted (k_active s) 0 s1" using d by (simp add: booted_def fun_eq_iff)
  then have b2: "booted (k_active s) 0 s2" unfolding s2_def by (simp only: booted_groups)
  have "booted (k_active s) n (exec (for_each [0..<n] (sched_init_rq K)) s2)" if "n \<le> length possible_cpus" for n
    using that
  proof (induction n)
    case 0
    then show ?case using b2 by simp
  next
    case (Suc n)
    have u: "[0..<Suc n] = [0..<n] @ [n]" by simp
    have "n \<in> set possible_cpus" using Suc.prems by (simp add: possible_cpus_def)
    then show ?case
      unfolding u for_each_append exec_bind using sched_init_rq_step [OF ops Suc.IH] Suc.prems by simp
  qed
  then have b3: "booted (k_active s) 2 (exec (for_each possible_cpus (sched_init_rq K)) s2)"
    by (simp add: possible_cpus_def NR_CPUS_def)
  define s' where "s' = exec (sched_init K) s"
  have "s' = exec (boot_rest K) (exec (for_each possible_cpus (sched_init_rq K)) s2)"
    unfolding s'_def sched_init_def boot_rest_def s2_def s1_def by simp
  then have b: "booted (k_active s) 2 s'" using booted_rest [OF b3] by simp
  have "tp_root (topo s') c = Some DEF_ROOT_DOMAIN" if "c \<in> set possible_cpus" for c
    using b that by (simp add: booted_def possible_cpus_def NR_CPUS_def del: topo_sel)
  then have r: "rq_rd (k_rq s' c) = Some DEF_ROOT_DOMAIN" if "c \<in> set possible_cpus" for c using that by simp
  have "tp_on (topo s') c \<longleftrightarrow> c \<in> k_active s" if "c \<in> set possible_cpus" for c
    using b that by (simp add: booted_def possible_cpus_def NR_CPUS_def del: topo_sel)
  then have o: "rq_online (k_rq s' c) \<longleftrightarrow> c \<in> k_active s" if "c \<in> set possible_cpus" for c using that by simp
  have q: "rq_sd (k_rq s' c) = None \<and> quiet_rq c s'" if "c \<in> set possible_cpus" for c
    using b that by (simp add: booted_def possible_cpus_def NR_CPUS_def del: topo_sel)
  have "roots_ok (topo s')" "live (topo s') = {DEF_ROOT_DOMAIN}" using b by (simp_all add: booted_def)
  then show ?thesis using r o q unfolding s'_def [symmetric] by (simp add: Let_def none_leaked_def)
qed

definition zero_kst :: "unit kst" where
  "zero_kst = (blank_kst ())\<lparr>k_rq := (\<lambda>c. (k_rq (blank_kst ()) c)\<lparr>rq_rd := None, rq_online := False\<rparr>),
     k_task_groups := [], k_isolated_map := {}\<rparr>"

theorem sched_init_boots_witness:
  "let s' = exec (sched_init demo_kops) zero_kst in
    roots_ok (topo s') \<and> none_leaked (topo s') \<and> live (topo s') = {DEF_ROOT_DOMAIN} \<and>
    (\<forall>c \<in> set possible_cpus. rq_rd (k_rq s' c) = Some DEF_ROOT_DOMAIN \<and> (rq_online (k_rq s' c) \<longleftrightarrow> c \<in> k_active zero_kst) \<and>
       rq_sd (k_rq s' c) = None \<and> quiet_rq c s')"
proof (rule sched_init_boots)
  show "root_ops_keep (demo_kops :: unit kops)" by (rule demo_root_ops)
  show "boot_ops_keep (demo_kops :: unit kops)" by (simp add: boot_ops_keep_def demo_kops_def idle_classes_def)
  show "static_data zero_kst" by (simp add: static_data_def zero_kst_def blank_kst_def)
qed

subsection \<open>The boot option \<open>isolcpus\<close>\<close>

lemma sched_init_isolated: "k_isolated_map (exec (sched_init K) s) = {}"
  by (simp add: sched_init_def)

text \<open>The boot option \<open>isolcpus\<close> is parsed before \<open>sched_init\<close>, which clears the set of isolated CPUs: with any
  option the domains are built over the whole of the CPUs they are asked for, none is left out.\<close>

theorem isolcpus_lost:
  "exec (do { _ \<leftarrow> isolated_cpu_setup parse str; sched_init K; arch_init_sched_domains K m }) s =
   exec (do { _ \<leftarrow> isolated_cpu_setup parse str; sched_init K; _ \<leftarrow> service (kmalloc_ok (services K));
     modify (\<lambda>s. s\<lparr>k_doms_cur := [m]\<rparr>); modify (\<lambda>s. s\<lparr>k_dattr_cur := None\<rparr>);
     _ \<leftarrow> build_sched_domains K m; register_sched_domain_sysctl K }) s"
  by (simp add: arch_init_sched_domains_def sched_init_isolated)

subsection \<open>The tree of task groups\<close>

definition groups :: "'x kst \<Rightarrow> nat set" where
  "groups s = set (k_task_groups s)"

text \<open>No group is listed twice, the parent of a group is the root or a group, and the children of each are
  the groups below it, without repetition.\<close>

definition groups_ok :: "'x kst \<Rightarrow> bool" where
  "groups_ok s \<longleftrightarrow> distinct (k_task_groups s) \<and> ROOT_TASK_GROUP \<notin> groups s \<and>
     (\<forall>g \<in> groups s. \<exists>p \<in> insert ROOT_TASK_GROUP (groups s). tg_parent (k_tg s g) = Some p) \<and>
     (\<forall>p \<in> insert ROOT_TASK_GROUP (groups s). distinct (tg_children (k_tg s p)) \<and>
        set (tg_children (k_tg s p)) = {g \<in> groups s. tg_parent (k_tg s g) = Some p})"

text \<open>What happens to groups: a new one below the root or a group, with memory that no group has; the end of
  one without children; and everything else, which leaves them alone.\<close>

inductive group_reach :: "'x kops \<Rightarrow> 'x kst \<Rightarrow> bool" for K :: "'x kops" where
  Boot: "k_task_groups s = [] \<Longrightarrow> group_reach K (exec init_task_groups s)"
| Create: "group_reach K s \<Longrightarrow> p \<in> insert ROOT_TASK_GROUP (groups s) \<Longrightarrow>
    fst (alloc_task_group (services K) (k_ext s)) \<notin> Some ` insert ROOT_TASK_GROUP (groups s) \<Longrightarrow>
    group_reach K (exec (sched_create_group K (Some p)) s)"
| Destroy: "group_reach K s \<Longrightarrow> g \<in> groups s \<Longrightarrow> tg_children (k_tg s g) = [] \<Longrightarrow>
    group_reach K (exec (sched_destroy_group g) s)"
| Other: "group_reach K s \<Longrightarrow> k_task_groups t = k_task_groups s \<Longrightarrow> k_tg t = k_tg s \<Longrightarrow> group_reach K t"

lemma create_run:
  "k_task_groups (exec (sched_create_group K (Some p)) s) = (case fst (alloc_task_group (services K) (k_ext s)) of
     None \<Rightarrow> k_task_groups s | Some g \<Rightarrow> g # k_task_groups s)"
  "p \<noteq> g \<Longrightarrow> fst (alloc_task_group (services K) (k_ext s)) = Some g \<Longrightarrow> k_tg (exec (sched_create_group K (Some p)) s) =
     (k_tg s)(g := \<lparr>tg_parent = Some p, tg_children = []\<rparr>,
       p := (k_tg s p)\<lparr>tg_children := g # tg_children (k_tg s p)\<rparr>)"
  "fst (alloc_task_group (services K) (k_ext s)) = None \<Longrightarrow> k_tg (exec (sched_create_group K (Some p)) s) = k_tg s"
  by (auto simp: sched_create_group_def upd_tg_def split: option.split)

lemma destroy_run:
  "k_task_groups (exec (sched_destroy_group g) s) = remove1 g (k_task_groups s)"
  "tg_parent (k_tg s g) = Some p \<Longrightarrow> k_tg (exec (sched_destroy_group g) s) =
     (k_tg s)(p := (k_tg s p)\<lparr>tg_children := remove1 g (tg_children (k_tg s p))\<rparr>)"
  by (auto simp: sched_destroy_group_def upd_tg_def split: option.split)

lemma create_groups_ok:
  assumes ok: "groups_ok s" and p: "p \<in> insert ROOT_TASK_GROUP (groups s)"
    and f: "fst (alloc_task_group (services K) (k_ext s)) \<notin> Some ` insert ROOT_TASK_GROUP (groups s)"
  shows "groups_ok (exec (sched_create_group K (Some p)) s)"
proof (cases "fst (alloc_task_group (services K) (k_ext s))")
  case None
  then show ?thesis using ok by (simp add: groups_ok_def groups_def create_run)
next
  case (Some g)
  then have g: "g \<noteq> ROOT_TASK_GROUP" "g \<notin> groups s" using f by auto
  then have pg: "p \<noteq> g" using p by auto
  define s' where "s' = exec (sched_create_group K (Some p)) s"
  have l: "k_task_groups s' = g # k_task_groups s" and t: "k_tg s' = (k_tg s)(g := \<lparr>tg_parent = Some p, tg_children = []\<rparr>,
       p := (k_tg s p)\<lparr>tg_children := g # tg_children (k_tg s p)\<rparr>)"
    using create_run(1) [where K = K and p = p and s = s] create_run(2) [OF pg Some] Some
    by (simp_all add: s'_def del: fun_upd_apply)
  have gs: "groups s' = insert g (groups s)" by (simp add: groups_def l)
  have par: "tg_parent (k_tg s' x) = (if x = g then Some p else tg_parent (k_tg s x))" for x
    using pg by (simp add: t)
  have ch: "tg_children (k_tg s' x) = (if x = g then [] else if x = p then g # tg_children (k_tg s p) else tg_children (k_tg s x))" for x
    using pg by (simp add: t)
  have nog: "tg_parent (k_tg s x) \<noteq> Some g" if "x \<in> groups s" for x using ok that g by (auto simp: groups_ok_def)
  show ?thesis
    unfolding s'_def [symmetric] groups_ok_def gs
  proof (intro conjI ballI)
    show "distinct (k_task_groups s')" using ok g by (simp add: l groups_ok_def groups_def)
    show "ROOT_TASK_GROUP \<notin> insert g (groups s)" using ok g by (simp add: groups_ok_def)
    show "\<exists>q \<in> insert ROOT_TASK_GROUP (insert g (groups s)). tg_parent (k_tg s' x) = Some q" if "x \<in> insert g (groups s)" for x
      using ok p that by (auto simp: par groups_ok_def)
    fix q assume q: "q \<in> insert ROOT_TASK_GROUP (insert g (groups s))"
    show "distinct (tg_children (k_tg s' q))" using ok p q g by (auto simp: ch groups_ok_def)
    show "set (tg_children (k_tg s' q)) = {x \<in> insert g (groups s). tg_parent (k_tg s' x) = Some q}"
      using ok p q g pg nog by (auto simp: ch par groups_ok_def)
  qed
qed

lemma destroy_groups_ok:
  assumes ok: "groups_ok s" and g: "g \<in> groups s" and leaf: "tg_children (k_tg s g) = []"
  shows "groups_ok (exec (sched_destroy_group g) s)"
proof -
  obtain p where p: "p \<in> insert ROOT_TASK_GROUP (groups s)" "tg_parent (k_tg s g) = Some p"
    using ok g unfolding groups_ok_def by blast
  define s' where "s' = exec (sched_destroy_group g) s"
  have l: "k_task_groups s' = remove1 g (k_task_groups s)"
    and t: "k_tg s' = (k_tg s)(p := (k_tg s p)\<lparr>tg_children := remove1 g (tg_children (k_tg s p))\<rparr>)"
    using destroy_run(1) [where g = g and s = s] destroy_run(2) [OF p(2)] by (simp_all add: s'_def del: fun_upd_apply)
  have gs: "groups s' = groups s - {g}" using ok by (simp add: groups_def l groups_ok_def)
  have par: "tg_parent (k_tg s' x) = tg_parent (k_tg s x)" for x by (simp add: t)
  have ch: "tg_children (k_tg s' x) = (if x = p then remove1 g (tg_children (k_tg s p)) else tg_children (k_tg s x))" for x
    by (simp add: t)
  have nog: "tg_parent (k_tg s x) \<noteq> Some g" if "x \<in> groups s" for x
  proof
    assume "tg_parent (k_tg s x) = Some g"
    then have "x \<in> set (tg_children (k_tg s g))" using ok g that by (auto simp: groups_ok_def)
    then show False using leaf by simp
  qed
  show ?thesis
    unfolding s'_def [symmetric] groups_ok_def gs
  proof (intro conjI ballI)
    show "distinct (k_task_groups s')" using ok by (simp add: l groups_ok_def)
    show "ROOT_TASK_GROUP \<notin> groups s - {g}" using ok by (simp add: groups_ok_def)
    show "\<exists>q \<in> insert ROOT_TASK_GROUP (groups s - {g}). tg_parent (k_tg s' x) = Some q" if "x \<in> groups s - {g}" for x
    proof -
      obtain q where "q \<in> insert ROOT_TASK_GROUP (groups s)" "tg_parent (k_tg s x) = Some q"
        using ok \<open>x \<in> groups s - {g}\<close> unfolding groups_ok_def by blast
      then show ?thesis using nog [of x] \<open>x \<in> groups s - {g}\<close> by (auto simp: par)
    qed
    fix q assume q: "q \<in> insert ROOT_TASK_GROUP (groups s - {g})"
    have c: "distinct (tg_children (k_tg s q))" "set (tg_children (k_tg s q)) = {x \<in> groups s. tg_parent (k_tg s x) = Some q}"
      using ok q by (auto simp: groups_ok_def)
    show "distinct (tg_children (k_tg s' q))" using c by (auto simp: ch)
    show "set (tg_children (k_tg s' q)) = {x \<in> groups s - {g}. tg_parent (k_tg s' x) = Some q}"
    proof (cases "q = p")
      case True
      then have "set (tg_children (k_tg s' q)) = set (tg_children (k_tg s q)) - {g}" using c(1) by (simp add: ch)
      then show ?thesis unfolding c(2) par by blast
    next
      case False
      then have "set (tg_children (k_tg s' q)) = set (tg_children (k_tg s q))" by (simp add: ch)
      then show ?thesis unfolding c(2) par using p(2) False by auto
    qed
  qed
qed

lemma init_task_groups_run:
  fixes s :: "'x kst"
  defines "s' \<equiv> exec init_task_groups s"
  shows "k_task_groups s' = INIT_TASK_GROUP # k_task_groups s" "tg_parent (k_tg s' INIT_TASK_GROUP) = Some ROOT_TASK_GROUP"
    "tg_children (k_tg s' INIT_TASK_GROUP) = []" "tg_children (k_tg s' ROOT_TASK_GROUP) = [INIT_TASK_GROUP]"
  by (simp_all add: s'_def init_task_groups_def upd_tg_def ROOT_TASK_GROUP_def INIT_TASK_GROUP_def)

lemma root_not_init [simp]: "ROOT_TASK_GROUP \<noteq> INIT_TASK_GROUP" "INIT_TASK_GROUP \<noteq> ROOT_TASK_GROUP"
  by (simp_all add: ROOT_TASK_GROUP_def INIT_TASK_GROUP_def)

text \<open>C29. The tree of task groups is well-formed in every state that boot, the creation and the destruction of groups
  lead to.\<close>

theorem task_groups_well_formed: "group_reach K s \<Longrightarrow> groups_ok s"
proof (induction rule: group_reach.induct)
  case (Boot s)
  then show ?case
    using init_task_groups_run [of s] by (auto simp: groups_ok_def groups_def)
next
  case (Other s t)
  then show ?case by (simp add: groups_ok_def groups_def)
qed (simp_all add: create_groups_ok destroy_groups_ok)

text \<open>A group below the first one.\<close>

theorem task_groups_well_formed_witness:
  "groups_ok (exec (sched_create_group demo_kops (Some INIT_TASK_GROUP)) (exec init_task_groups zero_kst))"
proof (rule task_groups_well_formed)
  have r: "group_reach (demo_kops :: unit kops) (exec init_task_groups zero_kst)"
    by (rule group_reach.Boot) (simp add: zero_kst_def)
  show "group_reach demo_kops (exec (sched_create_group demo_kops (Some INIT_TASK_GROUP)) (exec init_task_groups zero_kst))"
    by (rule group_reach.Create [OF r])
      (simp_all add: groups_def init_task_groups_run, simp add: ROOT_TASK_GROUP_def INIT_TASK_GROUP_def demo_kops_def
        quiet_services_def zero_kst_def)
qed

end
