(* ===== verification/Sched_rt_timer.thy ===== *)
theory Sched_rt_timer
  imports Sched_boot
begin

text \<open>
  \<open>sched_mod.c\<close>, lines 154 to 221: the period timer of the real-time bandwidth. The high resolution timer and the work of \<open>sched_rt.c\<close> are arguments.
\<close>

record 'x rt_ops =
  hrtimer_cb_get_time :: "('x kst, u64) state"
  hrtimer_forward :: "u64 \<Rightarrow> u64 \<Rightarrow> ('x kst, s32) state"
  hrtimer_active :: "('x kst, bool) state"
  hrtimer_softexpires :: "('x kst, u64) state"
  hrtimer_expires :: "('x kst, u64) state"
  hrtimer_start_range_ns :: "u64 \<Rightarrow> u32 \<Rightarrow> ('x kst, unit) state"
  do_sched_rt_period_timer :: "s32 \<Rightarrow> ('x kst, bool) state"

text \<open>One turn of the timer's loop; the argument is \<open>idle\<close>.\<close>

definition period_turn :: "'x rt_ops \<Rightarrow> bool \<Rightarrow> ('x kst, bool + bool) state" where
  "period_turn R idle = do {
     now \<leftarrow> hrtimer_cb_get_time R;
     period \<leftarrow> gets (\<lambda>s. rtb_period (k_def_rt_bandwidth s));
     overrun \<leftarrow> hrtimer_forward R now period;
     if overrun = 0 then ret (Inr idle)
     else do {
       idle' \<leftarrow> do_sched_rt_period_timer R overrun;
       ret (Inl idle') } }"

text \<open>Answers whether the timer is to be restarted.\<close>

definition sched_rt_period_timer :: "nat \<Rightarrow> 'x rt_ops \<Rightarrow> ('x kst, bool option) state" where
  "sched_rt_period_timer fuel R = do {
     idle \<leftarrow> loop_m fuel (period_turn R) False;
     ret (map_option Not idle) }"

definition start_turn :: "'x rt_ops \<Rightarrow> ('x kst, unit + unit) state" where
  "start_turn R = do {
     active \<leftarrow> hrtimer_active R;
     if active then ret (Inr ())
     else do {
       now \<leftarrow> hrtimer_cb_get_time R;
       period \<leftarrow> gets (\<lambda>s. rtb_period (k_def_rt_bandwidth s));
       _ \<leftarrow> hrtimer_forward R now period;
       soft \<leftarrow> hrtimer_softexpires R;
       hard \<leftarrow> hrtimer_expires R;
       hrtimer_start_range_ns R soft (ucast (hard - soft));
       ret (Inl ()) } }"

definition start_rt_bandwidth :: "nat \<Rightarrow> 'x rt_ops \<Rightarrow> ('x kst, unit option) state" where
  "start_rt_bandwidth fuel R = do {
     enabled \<leftarrow> gets (\<lambda>s. rt_bandwidth_enabled (k_sysctl s));
     runtime \<leftarrow> gets (\<lambda>s. rtb_runtime (k_def_rt_bandwidth s));
     if \<not> enabled \<or> runtime = RUNTIME_INF then ret (Some ())
     else do {
       active \<leftarrow> hrtimer_active R;
       if active then ret (Some ())
       else do {
         spin_lock Rt_bandwidth_lock;
         and_then (loop_m fuel (\<lambda>_. start_turn R) ()) (\<lambda>_. do {
           spin_unlock Rt_bandwidth_lock;
           ret (Some ()) }) } } }"

subsection \<open>When the loops end\<close>

text \<open>The state after some turns that have all found an overrun.\<close>

primrec after_overruns :: "'x rt_ops \<Rightarrow> nat \<Rightarrow> bool \<Rightarrow> 'x kst \<Rightarrow> (bool \<times> 'x kst) option" where
  "after_overruns R 0 idle s = Some (idle, s)"
| "after_overruns R (Suc n) idle s = (case result (period_turn R idle) s of
     Inr _ \<Rightarrow> None
   | Inl idle' \<Rightarrow> after_overruns R n idle' (exec (period_turn R idle) s))"

lemma period_loop:
  "result (loop_m fuel (period_turn R) idle) s = Some r \<longleftrightarrow>
     (\<exists>n < fuel. \<exists>i t. after_overruns R n idle s = Some (i, t) \<and> result (period_turn R i) t = Inr r)"
proof (induction fuel arbitrary: idle s)
  case (Suc fuel)
  have split: "(\<exists>n < Suc fuel. P n) \<longleftrightarrow> P 0 \<or> (\<exists>n < fuel. P (Suc n))" for P :: "nat \<Rightarrow> bool"
    using less_Suc_eq_0_disj by auto
  show ?case
    unfolding split using Suc by (cases "result (period_turn R idle) s") simp_all
qed simp

text \<open>The period timer returns exactly if some turn finds no overrun; it asks to be restarted unless the work of
  the turn before said that nothing is left to do.\<close>

lemma period_timer_returns_iff:
  "result (sched_rt_period_timer fuel R) s = Some restart \<longleftrightarrow>
     (\<exists>n < fuel. \<exists>i t. after_overruns R n False s = Some (i, t) \<and> result (period_turn R i) t = Inr (\<not> restart))"
proof -
  have "result (sched_rt_period_timer fuel R) s = Some restart \<longleftrightarrow>
      result (loop_m fuel (period_turn R) False) s = Some (\<not> restart)"
    by (auto simp: sched_rt_period_timer_def)
  then show ?thesis by (simp add: period_loop)
qed

text \<open>With a timer that is active once it has been started, two turns are enough to start it, and the lock is
  released.\<close>

lemma start_rt_bandwidth_ends:
  assumes "\<And>s a d. result (hrtimer_active R) (exec (hrtimer_start_range_ns R a d) s)"
  shows "result (start_rt_bandwidth (Suc (Suc n)) R) s = Some ()"
  using assms by (simp add: start_rt_bandwidth_def start_turn_def and_then_def)

end
