(* ===== verification/Sched_balance_correct.thy ===== *)
theory Sched_balance_correct
  imports Sched_balance
begin

text \<open>
  What load balancing guarantees: one owner of idle balancing, a bounded number of rounds, no
  more load moved than the imbalance, and the bounds of the power of a CPU.
\<close>

subsection \<open>The owner of idle balancing sleeps without a tick\<close>

definition nohz_view :: "'x kst \<Rightarrow> int \<times> cpumask" where
  "nohz_view s = (k_nohz_balancer s, k_nohz_mask s)"

lemma keeps_resched_cpu [keeps_intros]:
  assumes "\<And>s t l b. obs (s\<lparr>k_task := t, k_irqs_off := b, k_log := l\<rparr>) = obs s"
  shows "keeps obs (resched_cpu K c)"
proof -
  have l: "obs (s\<lparr>k_log := l\<rparr>) = obs s" for s l
    using assms [where s = s and t = "k_task s" and b = "k_irqs_off s" and l = l] by simp
  have b: "obs (s\<lparr>k_irqs_off := b, k_log := l\<rparr>) = obs s" for s l b
    using assms [where s = s and t = "k_task s" and b = b and l = l] by simp
  have t: "obs (s\<lparr>k_task := t\<rparr>) = obs s" for s t
    using assms [where s = s and t = t and b = "k_irqs_off s" and l = "k_log s"] by simp
  have "keeps obs (resched_task p)" for p
    unfolding resched_task_def by (intro keeps_intros l t) 
  then show ?thesis unfolding resched_cpu_def by (intro keeps_intros l b) 
qed

lemma nohz_resched_cpu [simp]:
  "k_nohz_balancer (exec (resched_cpu K c) s) = k_nohz_balancer s"
  "k_nohz_mask (exec (resched_cpu K c) s) = k_nohz_mask s"
  by (rule keepsD, intro keeps_intros, simp)+

definition nohz_ok :: "'x kst \<Rightarrow> bool" where
  "nohz_ok s \<longleftrightarrow> k_nohz_balancer s = - 1 \<or> (\<exists>c \<in> k_nohz_mask s. k_nohz_balancer s = int c)"

lemmas nohz_defs = get_nohz_load_balancer_def nohz_cmpxchg_def give_up_nohz_def find_new_ilb_def

lemma select_nohz_keeps_ok:
  "nohz_ok s \<Longrightarrow> nohz_ok (exec (select_nohz_load_balancer K stop) s)"
  by (auto simp: select_nohz_load_balancer_def nohz_defs nohz_ok_def)

lemma select_nohz_answer:
  "result (select_nohz_load_balancer K stop) s \<Longrightarrow>
   k_nohz_balancer (exec (select_nohz_load_balancer K stop) s) = int (k_this_cpu s)"
  by (auto simp: select_nohz_load_balancer_def nohz_defs split: if_splits)

lemma nominate_keeps_ok: "nohz_ok s \<Longrightarrow> nohz_ok (exec (nominate_new_ilb K c) s)"
  by (auto simp: nominate_new_ilb_def nohz_defs nohz_ok_def)

lemma trigger_nohz:
  "k_nohz_balancer (exec (trigger_load_balance K c) s) = k_nohz_balancer (if rq_in_nohz_recently (k_rq s c) \<and> \<not> rq_idle_at_tick (k_rq s c) then exec (nominate_new_ilb K c) s else s)"
  "k_nohz_mask (exec (trigger_load_balance K c) s) = k_nohz_mask (if rq_in_nohz_recently (k_rq s c) \<and> \<not> rq_idle_at_tick (k_rq s c) then exec (nominate_new_ilb K c) s else s)"
  by (simp_all add: trigger_load_balance_def get_nohz_load_balancer_def on_null_domain_def)

lemma trigger_keeps_ok: "nohz_ok s \<Longrightarrow> nohz_ok (exec (trigger_load_balance K c) s)"
  using nominate_keeps_ok [of s K c] by (simp add: nohz_ok_def trigger_nohz)

text \<open>The CPUs run the two operations in any order; the rest of the state may change in between.\<close>

inductive nohz_reach :: "'x kops \<Rightarrow> 'x kst \<Rightarrow> bool" for K where
  Nohz_boot: "k_nohz_balancer s = - 1 \<Longrightarrow> k_nohz_mask s = {} \<Longrightarrow> nohz_reach K s"
| Nohz_tick: "nohz_reach K s \<Longrightarrow> k_this_cpu s < NR_CPUS \<Longrightarrow>
    nohz_reach K (exec (select_nohz_load_balancer K stop) s)"
| Nohz_trigger: "nohz_reach K s \<Longrightarrow> nohz_reach K (exec (trigger_load_balance K c) s)"
| Nohz_other: "nohz_reach K s \<Longrightarrow> k_nohz_balancer t = k_nohz_balancer s \<Longrightarrow>
    k_nohz_mask t = k_nohz_mask s \<Longrightarrow> nohz_reach K t"

lemma nohz_reach_ok: "nohz_reach K s \<Longrightarrow> nohz_ok s"
proof (induction rule: nohz_reach.induct)
  case (Nohz_tick s stop)
  then show ?case by (simp add: select_nohz_keeps_ok)
next
  case (Nohz_trigger s c)
  then show ?case by (simp add: trigger_keeps_ok)
qed (simp_all add: nohz_ok_def)

text \<open>C36. Idle balancing has at most one owner: in every reachable state it has none (-1) or a CPU
  of \<open>nohz.cpu_mask\<close>, and a CPU that is told to keep its tick (answer 1) is the owner.\<close>

theorem nohz_owner:
  assumes "nohz_reach K s"
  shows "(k_nohz_balancer s = - 1 \<or> (\<exists>c \<in> k_nohz_mask s. k_nohz_balancer s = int c)) \<and>
    (\<forall>stop. result (select_nohz_load_balancer K stop) s \<longrightarrow>
      k_nohz_balancer (exec (select_nohz_load_balancer K stop) s) = int (k_this_cpu s))"
  using nohz_reach_ok [OF assms] select_nohz_answer [of K _ s] by (auto simp: nohz_ok_def)

definition demo_nohz :: "unit kst" where
  "demo_nohz = blank_kst ()"

theorem nohz_owner_witness:
  "let t = exec (select_nohz_load_balancer demo_kops True) demo_nohz in
   result (select_nohz_load_balancer demo_kops True) demo_nohz \<and> k_nohz_balancer t = 0 \<and>
   k_nohz_mask t = {0} \<and> \<not> k_nohz_balancer t = - 1"
proof -
  have r: "nohz_reach demo_kops demo_nohz"
    by (rule Nohz_boot) (simp_all add: demo_nohz_def blank_kst_def)
  have a: "result (select_nohz_load_balancer demo_kops True) demo_nohz"
    "k_nohz_mask (exec (select_nohz_load_balancer demo_kops True) demo_nohz) = {0}"
    by (simp_all add: select_nohz_load_balancer_def nohz_defs demo_nohz_def blank_kst_def
        cpumask_weight_def possible_cpus_def NR_CPUS_def upt_rec)
  show ?thesis using nohz_owner [OF r] a by (simp add: demo_nohz_def blank_kst_def)
qed

subsection \<open>The balancing rounds are bounded\<close>

lemma find_busiest_queue_loop_in:
  "result (find_busiest_queue_loop imb cpus cs m b) s = Some i \<Longrightarrow> b = Some i \<or> i \<in> cpus"
  by (induction cs arbitrary: m b s) (auto simp: Let_def split: if_splits)

lemma find_busiest_queue_in:
  "result (find_busiest_queue g imb cpus) s = Some i \<Longrightarrow> i \<in> cpus"
  by (auto simp: find_busiest_queue_def dest: find_busiest_queue_loop_in)

lemma lb_rounds_more:
  assumes "cpus \<noteq> {}" and "cpus \<subseteq> {0..<NR_CPUS}" and "card cpus \<le> n"
  shows "result (lb_rounds (n + k) fuel K c sd idle cpus ap si b) s =
      result (lb_rounds n fuel K c sd idle cpus ap si b) s \<and>
    exec (lb_rounds (n + k) fuel K c sd idle cpus ap si b) s =
      exec (lb_rounds n fuel K c sd idle cpus ap si b) s"
  using assms
proof (induction n arbitrary: cpus ap si b s)
  case 0
  then show ?case by (simp add: finite_subset)
next
  case (Suc n)
  have rec: "result (lb_rounds (n + k) fuel K c sd idle (cpus - {i}) ap' si' b') t =
      result (lb_rounds n fuel K c sd idle (cpus - {i}) ap' si' b') t \<and>
    exec (lb_rounds (n + k) fuel K c sd idle (cpus - {i}) ap' si' b') t =
      exec (lb_rounds n fuel K c sd idle (cpus - {i}) ap' si' b') t"
    if "i \<in> cpus" "x \<in> cpus" "x \<noteq> i" for i x ap' si' b' t
  proof (rule Suc.IH)
    have "finite cpus" using Suc.prems(2) by (rule finite_subset) simp
    then show "card (cpus - {i}) \<le> n" using that(1) Suc.prems(3) by simp
  qed (use that Suc.prems in auto)
  show ?case
    by (auto intro: rec [THEN conjunct1] rec [THEN conjunct2] dest!: find_busiest_queue_in
        split: option.splits prod.splits if_splits)
qed

text \<open>C35. The \<open>redo\<close> loop of \<open>load_balance\<close> ends: every further round starts with one CPU less,
  so that \<open>NR_CPUS\<close> rounds are as good as any larger number.\<close>

theorem lb_rounds_bound:
  assumes "NR_CPUS \<le> n"
  shows "lb_rounds n fuel K this_cpu sd idle {0..<NR_CPUS} all_pinned sd_idle balance =
    lb_rounds NR_CPUS fuel K this_cpu sd idle {0..<NR_CPUS} all_pinned sd_idle balance"
proof -
  obtain k where n: "n = NR_CPUS + k" using assms le_Suc_ex by blast
  show ?thesis
    unfolding n by (rule result_exec_eqI, rule lb_rounds_more) (simp_all add: NR_CPUS_def)
qed

theorem lb_rounds_bound_witness:
  "lb_rounds 7 0 demo_kops 0 0 CPU_IDLE {0..<NR_CPUS} False False None =
    (lb_rounds NR_CPUS 0 demo_kops 0 0 CPU_IDLE {0..<NR_CPUS} False False None :: (unit kst, _) state)"
  by (rule lb_rounds_bound) (simp add: NR_CPUS_def)

subsection \<open>Balancing does not overshoot\<close>

lemma fix_small_imbalance_cases:
  "result (fix_small_imbalance sds c imb) s = Some r \<Longrightarrow>
   r = imb \<or> r = sds_busiest_load_per_task sds"
  by (auto simp: fix_small_imbalance_def small_imbalance_def Let_def split: if_splits option.splits)

lemma imbalance_case_order:
  "imbalance_case d sds = Some sds' \<Longrightarrow>
   sds_this_load sds' < sds_avg_load sds' \<and> sds_this_load sds' < sds_max_load sds' \<and>
   sds_busiest_load_per_task sds' < sds_max_load sds' \<and>
   sds_busiest sds' = sds_busiest sds \<and> sds_this sds' = sds_this sds \<and>
   sds_max_load sds' = sds_max_load sds \<and> sds_this_load sds' = sds_this_load sds"
  by (auto simp: imbalance_case_def Let_def not_le min_less_iff_disj split: if_splits)

lemma unat_imbalance_le:
  assumes "a \<le> x" and "unat x * unat p < 2 ^ 32"
  shows "unat (a * p) \<le> unat x * unat (p :: u32)"
proof -
  have "unat a * unat p \<le> unat x * unat p"
    using assms(1) by (intro mult_le_mono1) (simp only: word_le_nat_alt)
  moreover have "unat (a * p) = unat a * unat p"
    using le_less_trans [OF calculation assms(2)] by (intro unat_mult_small) simp
  ultimately show ?thesis by simp
qed

lemma scaled_imbalance:
  fixes m t :: u32
  assumes "r = min m t div SCHED_LOAD_SCALE"
  shows "unat r * 1024 \<le> unat m" "unat r * 1024 \<le> unat t"
proof -
  have "unat r = unat (min m t) div 1024"
    by (simp add: assms SCHED_LOAD_SCALE_def SCHED_LOAD_SHIFT_def unat_div_distrib)
  then have "unat r * 1024 \<le> unat (min m t)" by (simp add: div_times_less_eq_dividend)
  moreover have "unat (min m t) \<le> unat m" "unat (min m t) \<le> unat t"
    by (simp_all add: min_def word_le_nat_alt)
  ultimately show "unat r * 1024 \<le> unat m" "unat r * 1024 \<le> unat t" by linarith+
qed

text \<open>C37. The load to be moved. When \<open>find_busiest_group\<close> sees an imbalance and the products do
  not overflow, the amount \<open>calculate_imbalance\<close> computes is either the weight of one average
  task of the busiest group, or nothing, or so small that moving it neither takes the busiest
  group below the average nor lifts this group above it (loads times power, in units of
  SCHED_LOAD_SCALE): moved tasks do not go to and fro.\<close>

theorem imbalance_no_ping_pong:
  assumes "imbalance_case d sds0 = Some sds"
    and "sds_busiest sds = Some b" and "sds_this sds = Some t"
    and "unat (sds_max_load sds - sds_avg_load sds) * unat (sg_cpu_power (k_sg s b)) < 2 ^ 32"
    and "unat (sds_avg_load sds - sds_this_load sds) * unat (sg_cpu_power (k_sg s t)) < 2 ^ 32"
  shows "sds_this_load sds < sds_avg_load sds \<and>
    (\<exists>r. result (calculate_imbalance sds c) s = Some r \<and>
    (r = 0 \<or> r = sds_busiest_load_per_task sds \<or>
     sds_avg_load sds \<le> sds_max_load sds \<and>
     unat r * 1024 \<le> unat (sds_max_load sds - sds_avg_load sds) * unat (sg_cpu_power (k_sg s b)) \<and>
     unat r * 1024 \<le> unat (sds_avg_load sds - sds_this_load sds) * unat (sg_cpu_power (k_sg s t))))"
proof -
  have less: "sds_this_load sds < sds_avg_load sds" using imbalance_case_order [OF assms(1)] by blast
  have fix_ok: "\<exists>r. result (fix_small_imbalance sds c i) u = Some r" for i and u :: "'a kst"
    using assms(2,3) by (simp add: fix_small_imbalance_def Let_def)
  define mp where "mp = min (sds_max_load sds - sds_avg_load sds)
    (sds_max_load sds - sds_busiest_load_per_task sds)"
  define i where "i = min (mp * sg_cpu_power (k_sg s b))
    ((sds_avg_load sds - sds_this_load sds) * sg_cpu_power (k_sg s t)) div SCHED_LOAD_SCALE"
  have "mp \<le> sds_max_load sds - sds_avg_load sds" by (simp add: mp_def)
  then have l: "unat i * 1024 \<le> unat (sds_max_load sds - sds_avg_load sds) * unat (sg_cpu_power (k_sg s b))"
    "unat i * 1024 \<le> unat (sds_avg_load sds - sds_this_load sds) * unat (sg_cpu_power (k_sg s t))"
    using scaled_imbalance [OF i_def] unat_imbalance_le [OF _ assms(4)]
      unat_imbalance_le [OF order_refl assms(5)] by (meson order_trans)+
  show ?thesis
  proof (cases "sds_max_load sds < sds_avg_load sds")
    case True
    then show ?thesis
      using fix_ok [of 0 s] fix_small_imbalance_cases [of sds c 0 s]
      by (auto simp: calculate_imbalance_def less)
  next
    case False
    then have r: "result (calculate_imbalance sds c) s =
        (if i < sds_busiest_load_per_task sds then result (fix_small_imbalance sds c i) s else Some i)"
      using assms(2,3) by (simp add: calculate_imbalance_def Let_def i_def mp_def)
    show ?thesis
      unfolding r using fix_ok [of i s] fix_small_imbalance_cases [of sds c i s] l False less by auto
  qed
qed

definition demo_stats :: sd_lb_stats where
  "demo_stats = zero_sds\<lparr>sds_busiest := Some 1, sds_this := Some 0, sds_total_load := 4096,
     sds_total_pwr := 2048, sds_this_load := 0, sds_max_load := 4096, sds_busiest_nr_running := 4,
     sds_busiest_load_per_task := 4096\<rparr>"

theorem imbalance_no_ping_pong_witness:
  "let d = k_sd (blank_kst ()) 0; sds = the (imbalance_case d demo_stats) in
   sds_avg_load sds = 2048 \<and>
   result (calculate_imbalance sds 0) (blank_kst ()) = Some 2048"
proof -
  let ?sds = "demo_stats\<lparr>sds_avg_load := 2048, sds_busiest_load_per_task := 1024\<rparr>"
  have c: "imbalance_case (k_sd (blank_kst ()) 0) demo_stats = Some ?sds"
    by (simp add: imbalance_case_def demo_stats_def zero_sds_def blank_kst_def SCHED_LOAD_SCALE_def
        SCHED_LOAD_SHIFT_def Let_def)
  have b: "sds_busiest ?sds = Some 1" "sds_this ?sds = Some 0" by (simp_all add: demo_stats_def)
  have h: "unat (sds_max_load ?sds - sds_avg_load ?sds) * unat (sg_cpu_power (k_sg (blank_kst ()) 1)) < 2 ^ 32"
    "unat (sds_avg_load ?sds - sds_this_load ?sds) * unat (sg_cpu_power (k_sg (blank_kst ()) 0)) < 2 ^ 32"
    by (simp_all add: demo_stats_def blank_kst_def zero_sds_def)
  have "\<exists>r. result (calculate_imbalance ?sds 0) (blank_kst ()) = Some r"
    using imbalance_no_ping_pong [OF c b h] by blast
  moreover have "result (calculate_imbalance ?sds 0) (blank_kst ()) = Some 2048"
    by (simp add: calculate_imbalance_def demo_stats_def blank_kst_def zero_sds_def
        SCHED_LOAD_SCALE_def SCHED_LOAD_SHIFT_def Let_def)
  ultimately show ?thesis by (simp add: c Let_def)
qed

subsection \<open>The power left by real-time tasks\<close>

text \<open>The arithmetic of \<open>scale_rt_power\<close> after the ageing, over the runqueue it leaves.\<close>

lemma scale_rt_power_result:
  assumes "result (sched_avg_update fuel c) s = Some ()"
  shows "result (scale_rt_power fuel c) s = (let s' = exec (sched_avg_update fuel c) s;
    q = k_rq s' c; tot = sched_avg_period (k_sysctl s') + (rq_clock q - rq_age_stamp q);
    div10 = ucast (drop_bit 10 (if sint tot < 1024 then 1024 else tot)) :: u32 in
    Some (ucast ((tot - rq_rt_avg q) div ucast div10)))"
  using assms by (simp add: scale_rt_power_def Let_def SCHED_LOAD_SHIFT_def)

lemma unat_rt_power:
  fixes tot avg :: u64
  assumes "1024 \<le> unat tot" and "unat tot < 2 ^ 42" and "avg \<le> tot"
  shows "unat (ucast ((tot - avg) div ucast (ucast (drop_bit 10 tot) :: u32)) :: u32) < 2048 \<and>
    unat (ucast ((tot - avg) div ucast (ucast (drop_bit 10 tot) :: u32)) :: u32) * (unat tot div 1024)
      \<le> unat tot - unat avg"
proof -
  define e :: u64 where "e = ucast (ucast (drop_bit 10 tot) :: u32)"
  let ?d = "unat tot div 1024"
  have d: "unat (drop_bit 10 tot) = ?d" by (simp add: drop_bit_eq_div unat_div_distrib)
  have d32: "?d < 2 ^ 32" using assms(2) by (simp add: less_mult_imp_div_less)
  have u: "unat e = ?d"
    using d d32 by (simp add: e_def unsigned_ucast_eq unsigned_take_bit_eq take_bit_nat_eq_self)
  have s: "unat (tot - avg) = unat tot - unat avg" using assms(3) by (rule unat_sub)
  let ?q = "(unat tot - unat avg) div ?d"
  have d1: "1 \<le> ?d" using assms(1) by simp
  have "unat tot < 2048 * ?d"
  proof -
    have "unat tot = 1024 * ?d + unat tot mod 1024" by simp
    moreover have "unat tot mod 1024 < 1024" by simp
    ultimately show ?thesis using d1 by linarith
  qed
  then have q: "?q < 2048" using d1 by (simp add: less_mult_imp_div_less div_less_iff_less_mult)
  have "unat (ucast ((tot - avg) div e) :: u32) = ?q"
    using q by (simp add: unsigned_ucast_eq unat_div_distrib u s take_bit_nat_eq_self)
  then show ?thesis using q unfolding e_def [symmetric] by (simp add: div_times_less_eq_dividend)
qed

text \<open>The share of a CPU that real-time tasks leave: if their average does not exceed the time
  that passed, the scale is less than 2048 (1024 is the whole CPU), and the scale times the
  time, in units of 1024 ns, does not exceed the time that was left.\<close>

theorem scale_rt_power_bound:
  fixes s :: "'x kst" and c :: cpu and fuel :: nat
  defines "s' \<equiv> exec (sched_avg_update fuel c) s"
  defines "tot \<equiv> sched_avg_period (k_sysctl s') + (rq_clock (k_rq s' c) - rq_age_stamp (k_rq s' c))"
  assumes "result (sched_avg_update fuel c) s = Some ()"
    and "1024 \<le> unat tot" and "unat tot < 2 ^ 42" and "rq_rt_avg (k_rq s' c) \<le> tot"
  shows "\<exists>r. result (scale_rt_power fuel c) s = Some r \<and> unat r < 2048 \<and>
    unat r * (unat tot div 1024) \<le> unat tot - unat (rq_rt_avg (k_rq s' c))"
proof -
  have "int (unat tot) < int (2 ^ 42)" using assms(5) by (simp only: of_nat_less_iff)
  then have "uint tot < 2 ^ 63" by simp
  then have "signed_take_bit 63 (uint tot) = uint tot"
    by (intro signed_take_bit_int_eq_self) (simp_all add: order_trans [OF _ uint_ge_0])
  then have "sint tot = int (unat tot)" by (simp add: sint_uint)
  then have "\<not> sint tot < 1024" using assms(4) by linarith
  then have r: "result (scale_rt_power fuel c) s =
      Some (ucast ((tot - rq_rt_avg (k_rq s' c)) div ucast (ucast (drop_bit 10 tot) :: u32)))"
    unfolding scale_rt_power_result [OF assms(3)] by (simp only: Let_def s'_def tot_def if_False)
  show ?thesis using unat_rt_power [OF assms(4-6)] unfolding r by blast
qed

definition demo_rt_load :: "u64 \<Rightarrow> unit kst" where
  "demo_rt_load avg = blank_kst ()\<lparr>k_rq := (\<lambda>_. blank_rq\<lparr>rq_rt_avg := avg\<rparr>)\<rparr>"

lemma demo_rt_load_facts:
  "result (sched_avg_update 1 0) (demo_rt_load a) = Some ()"
  "exec (sched_avg_update 1 0) (demo_rt_load a) = demo_rt_load a"
  "sched_avg_period (k_sysctl (demo_rt_load a)) + (rq_clock (k_rq (demo_rt_load a) 0) -
     rq_age_stamp (k_rq (demo_rt_load a) 0)) = 500000000"
  "rq_rt_avg (k_rq (demo_rt_load a) 0) = a"
  by (simp_all add: sched_avg_update_def sched_avg_turn_def blank_kst_def blank_rq_def demo_rt_load_def
      sched_avg_period_def NSEC_PER_MSEC_def)

theorem scale_rt_power_bound_witness:
  "result (scale_rt_power 1 0) (demo_rt_load 250000000) = Some 512"
proof -
  have "\<exists>r. result (scale_rt_power 1 0) (demo_rt_load 250000000) = Some r \<and> unat r < 2048"
    using scale_rt_power_bound [where fuel = 1 and c = 0 and s = "demo_rt_load 250000000"]
    unfolding demo_rt_load_facts by auto
  moreover have "result (scale_rt_power 1 0) (demo_rt_load 250000000) = Some 512"
    unfolding scale_rt_power_result [OF demo_rt_load_facts(1)] Let_def demo_rt_load_facts by simp
  ultimately show ?thesis by simp
qed

text \<open>If the average exceeds the time, which \<open>sched_avg_update\<close> does not exclude, the subtraction
  wraps around: a CPU that is all real-time looks more powerful than 200000 idle ones.\<close>

lemma scale_rt_power_wraps:
  "result (scale_rt_power 1 0) (demo_rt_load 500000001) = Some r \<Longrightarrow> 1024 * 200000 < unat r"
  unfolding scale_rt_power_result [OF demo_rt_load_facts(1)] Let_def demo_rt_load_facts by auto

end
