(* ===== verification/L1_invalidator.thy ===== *)
theory L1_invalidator
  imports Kernel_env
begin

text \<open>
  \<open>L1_invalidate_Kernel_module\<close>: the kernel module behind \<open>/proc/Invalidate_L1\<close>
  (\<open>L1-invalidator.c\<close>) and the user-side call \<open>INVALIDATE_L1\<close>
  (\<open>test_extensions.c\<close>). A write to the file flushes both level 1 caches.
\<close>

record 'w l1_module = "'w mach" +
  L1_Proc_File :: "proc_dir_entry option"

definition PROCFS_NAME :: string where
  "PROCFS_NAME = ''Invalidate_L1''"

subsection \<open>The operations\<close>

definition invalidate_L1_instruction_cache :: "(('w, 'z) mach_scheme, unit) state" where
  "invalidate_L1_instruction_cache = asm_volatile icache_asm"

definition flush_and_invalidate_L1_data_cache ::
    "('w, 'e) module_env_scheme \<Rightarrow> (('w, 'z) mach_scheme, unit) state" where
  "flush_and_invalidate_L1_data_cache E = do {
     scratchref \<leftarrow> in_world (kmalloc E SCRATCH_SIZE);
     if scratchref \<noteq> 0 then do {
       let scratchend = scratchref + of_nat SCRATCH_SIZE;
       freed \<leftarrow> dcache_statement E scratchref scratchend;
       emit (Kfree freed);
       in_world_unit (kfree E freed)
     } else printk ''Error: MEM not allocated!'' }"

definition procfile_read :: "(('w, 'z) mach_scheme, int) state" where
  "procfile_read = do {
     printk ''Bad usage: /proc/Invalidate_L1 read'';
     ret 0 }"

definition procfile_write :: "('w, 'e) module_env_scheme \<Rightarrow> u32 \<Rightarrow> (('w, 'z) mach_scheme, int) state" where
  "procfile_write E count = do {
     invalidate_L1_instruction_cache;
     flush_and_invalidate_L1_data_cache E;
     ret (sint count) }"

definition L1_inv_init :: "('w, 'e) module_env_scheme \<Rightarrow> ('w l1_module, int) state" where
  "L1_inv_init E = do {
     printk ''Starting L1 cache invalidating kernel module'';
     f \<leftarrow> in_world (create_proc_entry E PROCFS_NAME 146);
     modify (\<lambda>s. s\<lparr>L1_Proc_File := f\<rparr>);
     (case f of
        None \<Rightarrow> do {
          printk ''Error: Could not initialize /proc/Invalidate_L1'';
          ret (- ENOMEM) }
      | Some pde \<Rightarrow> do {
          modify (\<lambda>s. s\<lparr>L1_Proc_File := Some (pde\<lparr>read_proc := Some Procfile_read,
            write_proc := Some Procfile_write, pde_uid := 0, pde_gid := 0, pde_size := 37\<rparr>)\<rparr>);
          printk ''/proc/Invalidate_L1 created'';
          ret 0 }) }"

definition L1_inv_exit :: "('w, 'e) module_env_scheme \<Rightarrow> ('w l1_module, unit) state" where
  "L1_inv_exit E = do {
     printk ''Unloaded L1 cache invalidating kernel module'';
     emit (Proc_removed PROCFS_NAME);
     in_world_unit (remove_proc_entry E PROCFS_NAME) }"

text \<open>
  The user side. \<open>fopen\<close> may fail; otherwise the 16 characters reach the file as one write
  when the stream is closed, which runs the file's write handler.
\<close>

definition INVALIDATE_L1 :: "('w, 'e) module_env_scheme \<Rightarrow> bool \<Rightarrow> ('w l1_module, string list) state" where
  "INVALIDATE_L1 E fopen_ok =
     (if fopen_ok then do {
        pde \<leftarrow> gets L1_Proc_File;
        (case pde of
           Some d \<Rightarrow> (if write_proc d = Some Procfile_write
             then do { _ \<leftarrow> procfile_write E (of_nat (length ''Write to a file '')); ret [] }
             else ret [])
         | None \<Rightarrow> ret []) }
      else ret [''*** ERROR: L1 cache invalidation is not available on this platform''])"

subsection \<open>What they do\<close>

lemma flush_no_memory:
  assumes "fst (kmalloc E SCRATCH_SIZE (world s)) = 0"
  shows "exec (flush_and_invalidate_L1_data_cache E) s =
    s\<lparr>world := snd (kmalloc E SCRATCH_SIZE (world s)),
      klog := klog s @ [Printk ''Error: MEM not allocated!'']\<rparr>"
  using assms by (simp add: flush_and_invalidate_L1_data_cache_def)

lemma flush_run:
  assumes "asm_regs_ok (reg_ref E) (reg_end E)"
    and "kmalloc E SCRATCH_SIZE (world s) = (p, w)" and "scratch_ok p"
  shows "exec (flush_and_invalidate_L1_data_cache E) s =
    (let q = (if reg_reused E then p + of_nat SCRATCH_SIZE else p) in
     s\<lparr>cpu := flushed_cpu E p (cpu s), klog := klog s @ [Kfree q], world := kfree E q w\<rparr>)"
  using assms(2,3)
  by (simp add: flush_and_invalidate_L1_data_cache_def dcache_statement_run [OF assms(1,3)]
      scratch_ok_def Let_def)

lemma invalidate_icache_registers:
  "msr (cpu (exec invalidate_L1_instruction_cache s)) = msr (cpu s)"
  "spr (cpu (exec invalidate_L1_instruction_cache s)) = spr (cpu s)"
  by (simp_all add: invalidate_L1_instruction_cache_def icache_statement_run)

subsection \<open>Writing the file flushes both caches\<close>


text \<open>The concrete machine of the witness: registers 9 and 10, scratch area at 64 KiB, and a
  compiler that believes that the register still holds the pointer.\<close>

definition demo_l1_env :: "unit module_env" where
  "demo_l1_env = \<lparr>kmalloc = (\<lambda>_ w. (0x10000, w)), kfree = (\<lambda>_ w. w),
     create_proc_entry = (\<lambda>_ _ w. (None, w)), remove_proc_entry = (\<lambda>_ w. w),
     reg_ref = 9, reg_end = 10, reg_reused = True\<rparr>"


text \<open>Once the module is loaded, \<open>INVALIDATE_L1()\<close> in a user program is one write of 16
  bytes to the handler; if the file cannot be created, loading fails with \<open>-ENOMEM\<close>.\<close>

theorem invalidate_reaches_module:
  "let s' = exec (L1_inv_init E) s in
   (case fst (create_proc_entry E PROCFS_NAME 146 (world s)) of
      None \<Rightarrow> result (L1_inv_init E) s = - ENOMEM \<and> L1_Proc_File s' = None
    | Some d \<Rightarrow> result (L1_inv_init E) s = 0 \<and>
        exec (INVALIDATE_L1 E True) s' = exec (procfile_write E 16) s' \<and>
        result (INVALIDATE_L1 E True) s' = [])"
  by (simp add: L1_inv_init_def INVALIDATE_L1_def Let_def split: option.split)

end
