(* ===== verification/Testcase.thy ===== *)
theory Testcase
  imports Prelude "HOL-Library.Multiset"
begin

text \<open>
  The test application: \<open>time_types.c\<close> (the loads that use the data cache little or much),
  \<open>time_a60hz.c\<close> (the measuring loop) and \<open>test_time_a60hz.c\<close> (the main program). Arrays are
  lists, and an access outside one, undefined in C, has no result (\<open>None\<close>). The
  floating point load \<open>Time_Type3\<close> is left out; nothing calls it. The profiling calls are
  parameters: the loop calls \<open>START_PROFILING\<close> with two arguments, and \<open>libprf.h\<close> declares it
  with one.
\<close>

subsection \<open>Arrays\<close>

definition load :: "'a list \<Rightarrow> nat \<Rightarrow> 'a option" where
  "load xs i = (if i < length xs then Some (xs ! i) else None)"

definition store :: "'a list \<Rightarrow> nat \<Rightarrow> 'a \<Rightarrow> 'a list option" where
  "store xs i v = (if i < length xs then Some (xs[i := v]) else None)"

fun for_o :: "'i list \<Rightarrow> ('i \<Rightarrow> 's \<Rightarrow> 's option) \<Rightarrow> 's \<Rightarrow> 's option" where
  "for_o [] f s = Some s"
| "for_o (i # is) f s = do { s' \<leftarrow> f i s; for_o is f s' }"

text \<open>The values of \<open>for (i = a; i < b; i += d)\<close>.\<close>

definition steps :: "nat \<Rightarrow> nat \<Rightarrow> nat \<Rightarrow> nat list" where
  "steps a b d = map (\<lambda>k. a + k * d) [0..<(b - a + d - 1) div d]"

record arrays =
  array2 :: "s32 list"
  array4 :: "s32 list"
  array5 :: "s32 list"
  arrayP :: "s32 list"
  arrayP3 :: "s32 list"
  arrayP5 :: "s32 list"

text \<open>Static arrays start with zeros.\<close>

definition static_arrays :: arrays where
  "static_arrays = \<lparr>array2 = replicate 1000 0, array4 = replicate 130 0, array5 = replicate 13000 0,
     arrayP = replicate 8000 0, arrayP3 = replicate 8000 0, arrayP5 = replicate 8000 0\<rparr>"

subsection \<open>Loads\<close>

definition Time_Init :: "arrays \<Rightarrow> arrays option" where
  "Time_Init m = do {
     a2 \<leftarrow> for_o (steps 0 1000 1) (\<lambda>i a. store a i (of_nat i)) (array2 m);
     a4 \<leftarrow> for_o (steps 0 130 1) (\<lambda>i a. store a i (of_nat i * 2)) (array4 m);
     a5 \<leftarrow> for_o (steps 0 13000 1) (\<lambda>i a. store a i (of_nat i * 2)) (array5 m);
     (p, p3, p5) \<leftarrow> for_o (steps 0 8000 1) (\<lambda>i (p, p3, p5). do {
        p' \<leftarrow> store p i (of_nat i);
        p3' \<leftarrow> store p3 i (of_nat i);
        p5' \<leftarrow> store p5 i (of_nat i);
        Some (p', p3', p5') }) (arrayP m, arrayP3 m, arrayP5 m);
     Some (m\<lparr>array2 := a2, array4 := a4, array5 := a5, arrayP := p, arrayP3 := p3, arrayP5 := p5\<rparr>) }"

text \<open>The sorting in \<open>Time_Type1\<close>, for an array of any size: as many passes as there are elements,
  each comparing all neighbours.\<close>

definition sort_step :: "nat \<Rightarrow> s32 list \<Rightarrow> s32 list option" where
  "sort_step j xs = do {
     a \<leftarrow> load xs j;
     b \<leftarrow> load xs (j + 1);
     if sint b < sint a then do { xs' \<leftarrow> store xs j b; store xs' (j + 1) a }
     else Some xs }"

definition sort_array :: "s32 list \<Rightarrow> s32 list option" where
  "sort_array xs = for_o [0..<length xs] (\<lambda>_. for_o [0..<length xs - 1] sort_step) xs"

text \<open>The function sorts a local array of 10 elements, here with the values found before
  (\<open>garbage\<close>), and drops the result.\<close>

definition Time_Type1 :: "s32 list \<Rightarrow> s32 list option" where
  "Time_Type1 garbage = do {
     xs \<leftarrow> for_o [0..<10] (\<lambda>i a. store a i (10 - of_nat i)) garbage;
     sort_array xs }"

definition Time_Type2 :: "arrays \<Rightarrow> arrays option" where
  "Time_Type2 m = do {
     a \<leftarrow> for_o (steps 0 1000 10) (\<lambda>i a. store a i (of_nat i)) (array2 m);
     a' \<leftarrow> for_o (steps 1 1000 10) (\<lambda>i a. do { v \<leftarrow> load a (i - 1); store a i v }) a;
     Some (m\<lparr>array2 := a'\<rparr>) }"

definition Time_Type4 :: "arrays \<Rightarrow> arrays option" where
  "Time_Type4 m = do {
     a \<leftarrow> for_o (steps 10 130 1) (\<lambda>i a. do {
       w \<leftarrow> load a (i - 1);
       x \<leftarrow> load a (i - 2);
       y \<leftarrow> load a (i - 3);
       z \<leftarrow> load a (i - 4);
       a' \<leftarrow> store a i (w + x + y + z);
       store a' (i div 10) (w + x + y + z) }) (array4 m);
     Some (m\<lparr>array4 := a\<rparr>) }"

definition Time_Type5 :: "arrays \<Rightarrow> arrays option" where
  "Time_Type5 m = do {
     a \<leftarrow> for_o (steps 1000 13000 100) (\<lambda>i a. do {
       v \<leftarrow> load a i;
       w \<leftarrow> load a (i - 100);
       x \<leftarrow> load a (i - 200);
       y \<leftarrow> load a (i - 300);
       z \<leftarrow> load a (i - 400);
       store a (i div 1000) (v + w + x + y + z) }) (array5 m);
     Some (m\<lparr>array5 := a\<rparr>) }"

text \<open>\<open>n\<close> calls of \<open>Time_Type1\<close>, for their effect on the cache only.\<close>

definition Type1_times :: "nat \<Rightarrow> s32 list \<Rightarrow> s32 list option" where
  "Type1_times n garbage = for_o [0..<n] (\<lambda>_. Time_Type1) garbage"

text \<open>Eight passes over every third element of the first 1000.\<close>

definition touch :: "s32 list \<Rightarrow> s32 list option" where
  "touch a = for_o [0..<8] (\<lambda>_. for_o (steps 0 1000 3) (\<lambda>j a. do { v \<leftarrow> load a j; store a j (v + 1) })) a"

definition Time_TypeP2 :: "s32 list \<Rightarrow> arrays \<Rightarrow> arrays option" where
  "Time_TypeP2 garbage m = do {
     g \<leftarrow> Type1_times 10 garbage;
     a \<leftarrow> touch (arrayP m);
     _ \<leftarrow> Type1_times 10 g;
     Some (m\<lparr>arrayP := a\<rparr>) }"

definition Time_TypeP3 :: "arrays \<Rightarrow> arrays option" where
  "Time_TypeP3 m = do { a \<leftarrow> touch (arrayP3 m); Some (m\<lparr>arrayP3 := a\<rparr>) }"

definition Time_TypeP4 :: "s32 list \<Rightarrow> arrays \<Rightarrow> arrays option" where
  "Time_TypeP4 garbage m = do { _ \<leftarrow> Type1_times 10 garbage; Some m }"

definition Time_TypeP5 :: "arrays \<Rightarrow> arrays option" where
  "Time_TypeP5 m = do { a \<leftarrow> touch (arrayP5 m); Some (m\<lparr>arrayP5 := a\<rparr>) }"

subsection \<open>The measuring loop\<close>

text \<open>What the loop calls: \<open>INVALIDATE_L1()\<close>, \<open>START_PROFILING(Tint, Ttimeout)\<close> and
  \<open>STOP_PROFILING(&Texe)\<close>, which answers a status and leaves a value in \<open>Texe\<close>.\<close>

record 'd prf_api =
  invalidate_L1 :: "'d \<Rightarrow> 'd"
  start_profiling :: "s64 \<Rightarrow> s64 \<Rightarrow> 'd \<Rightarrow> 'd"
  stop_profiling :: "s64 \<Rightarrow> 'd \<Rightarrow> (s32 \<times> s64) \<times> 'd"

record a60hz =
  Tint :: s64
  Texe :: s64
  Texe_First :: s64
  Texe_Old :: s32
  Diff :: s32
  prf_ret :: s32
  printed :: "(s64 \<times> int \<times> s32) list"

definition a60hz_start :: a60hz where
  "a60hz_start = \<lparr>Tint = 0, Texe = 2, Texe_First = 0, Texe_Old = - 1, Diff = 0, prf_ret = 0,
     printed = []\<rparr>"

definition Ttimeout :: s64 where
  "Ttimeout = 100000"

definition more_to_measure :: "a60hz \<Rightarrow> bool" where
  "more_to_measure v \<longleftrightarrow> sint (Texe v) > sint (Tint v * 1000) \<or> sint (Tint v) < 350"

text \<open>The body of the loop around the loads: \<open>abs\<close> takes an \<open>int\<close>.\<close>

definition measure_load :: "s32 list \<Rightarrow> arrays \<Rightarrow> arrays option" where
  "measure_load garbage m = for_o [0..<1] (\<lambda>_ m. do {
     m1 \<leftarrow> Time_TypeP3 m;
     m2 \<leftarrow> Time_TypeP4 garbage m1;
     Time_TypeP5 m2 }) m"

definition measure_note :: "s32 \<Rightarrow> s64 \<Rightarrow> a60hz \<Rightarrow> a60hz" where
  "measure_note r t v = (let d = ucast (t - scast (Texe_Old v)) :: s32 in
     v\<lparr>Tint := Tint v + 1, Texe := t,
       Texe_First := (if Texe_First v = 0 then t else Texe_First v),
       Texe_Old := ucast t, Diff := (if sint d < 0 then - d else d), prf_ret := r,
       printed := printed v @ [(Tint v, cdiv (sint t) 1000, r)]\<rparr>)"

definition measure_turn ::
    "'d prf_api \<Rightarrow> s32 list \<Rightarrow> a60hz \<times> arrays \<times> 'd \<Rightarrow> (a60hz \<times> arrays \<times> 'd) option" where
  "measure_turn A garbage = (\<lambda>(v, m, d). do {
     let d1 = start_profiling A (Tint v) Ttimeout (invalidate_L1 A d);
     m' \<leftarrow> measure_load garbage m;
     let ((r, t), d2) = stop_profiling A (Texe v) d1;
     Some (measure_note r t v, m', d2) })"

text \<open>\<open>fuel\<close> bounds the number of turns; no result: an access outside an array, or more turns.\<close>

fun measure_loop ::
    "nat \<Rightarrow> 'd prf_api \<Rightarrow> s32 list \<Rightarrow> a60hz \<times> arrays \<times> 'd \<Rightarrow> (a60hz \<times> arrays \<times> 'd) option" where
  "measure_loop 0 A garbage (v, m, d) = (if more_to_measure v then None else Some (v, m, d))"
| "measure_loop (Suc n) A garbage (v, m, d) =
     (if more_to_measure v then do { x \<leftarrow> measure_turn A garbage (v, m, d); measure_loop n A garbage x }
      else Some (v, m, d))"

definition time_A60Hz_Initialize :: "arrays \<Rightarrow> arrays option" where
  "time_A60Hz_Initialize = Time_Init"

definition time_A60Hz_Execute ::
    "nat \<Rightarrow> 'd prf_api \<Rightarrow> s32 list \<Rightarrow> arrays \<times> 'd \<Rightarrow> (arrays \<times> 'd) option" where
  "time_A60Hz_Execute fuel A garbage = (\<lambda>(m, d). do {
     (_, m', d') \<leftarrow> measure_loop fuel A garbage (a60hz_start, m, d);
     Some (m', d') })"

subsection \<open>The main program\<close>

definition test_check ::
    "nat \<Rightarrow> 'd prf_api \<Rightarrow> s32 list \<Rightarrow> bool \<Rightarrow> arrays \<times> 'd \<Rightarrow> (arrays \<times> 'd) option" where
  "test_check fuel A garbage doIt = (\<lambda>(m, d).
     if doIt then do {
       m' \<leftarrow> time_A60Hz_Initialize m;
       for_o [0..<10] (\<lambda>_ (m, d). time_A60Hz_Execute fuel A garbage (m, invalidate_L1 A d)) (m', d) }
     else Some (m, d))"

definition run_tests ::
    "nat \<Rightarrow> 'd prf_api \<Rightarrow> s32 list \<Rightarrow> arrays \<times> 'd \<Rightarrow> (arrays \<times> 'd) option" where
  "run_tests fuel A garbage = test_check fuel A garbage True"

definition main_program ::
    "nat \<Rightarrow> 'd prf_api \<Rightarrow> s32 list \<Rightarrow> 'd \<Rightarrow> (s32 \<times> arrays \<times> 'd) option" where
  "main_program fuel A garbage d = do {
     (m, d') \<leftarrow> run_tests fuel A garbage (static_arrays, d);
     Some (0, m, d') }"

subsection \<open>The sorting sorts\<close>

lemma sort_step_swap:
  assumes "j + 1 < length xs"
  shows "sort_step j xs = Some (if sint (xs ! (j + 1)) < sint (xs ! j)
    then xs[j := xs ! (j + 1), j + 1 := xs ! j] else xs)"
  using assms by (simp add: sort_step_def load_def store_def)

text \<open>\<open>sort_pass k\<close>: what the inner loop has done after \<open>k\<close> comparisons.\<close>

definition sort_pass :: "nat \<Rightarrow> s32 list \<Rightarrow> s32 list" where
  "sort_pass k xs = the (for_o [0..<k] sort_step xs)"

lemma for_o_append: "for_o (xs @ ys) f s = do { s' \<leftarrow> for_o xs f s; for_o ys f s' }"
  by (induction xs arbitrary: s) (auto split: Option.bind_splits)

text \<open>\<open>placed L\<close>: from position \<open>L\<close> on every element is at least as large as all before it.\<close>

definition placed :: "nat \<Rightarrow> s32 list \<Rightarrow> bool" where
  "placed L xs \<longleftrightarrow> (\<forall>i j. i \<le> j \<and> L \<le> j \<and> j < length xs \<longrightarrow> sint (xs ! i) \<le> sint (xs ! j))"

definition pass_inv :: "nat \<Rightarrow> nat \<Rightarrow> s32 list \<Rightarrow> s32 list \<Rightarrow> bool" where
  "pass_inv L k xs ys \<longleftrightarrow> length ys = length xs \<and> mset (take L ys) = mset (take L xs) \<and>
     (\<forall>j \<ge> L. ys ! j = xs ! j) \<and>
     (\<forall>i \<le> min k (L - 1). sint (ys ! i) \<le> sint (ys ! min k (L - 1)))"

lemma pass_inv_step:
  assumes inv: "pass_inv L k xs ys" and placed: "placed L xs"
    and k: "k + 1 < length xs" and L: "0 < L" "L \<le> length xs"
  shows "\<exists>zs. sort_step k ys = Some zs \<and> pass_inv L (Suc k) xs zs"
proof -
  note inv' = inv [unfolded pass_inv_def]
  have len: "length ys = length xs" using inv' by simp
  show ?thesis
  proof (cases "Suc k < L")
    case True
    let ?zs = "ys[k := ys ! (k + 1), k + 1 := ys ! k]"
    have "take L ?zs = (take L ys)[k := take L ys ! (k + 1), k + 1 := take L ys ! k]"
      using True by (simp add: take_update_swap)
    then have "mset (take L ?zs) = mset (take L ys)"
      using True L len by (simp only:) (rule mset_swap, simp_all)
    then have "pass_inv L (Suc k) xs (if sint (ys ! (k + 1)) < sint (ys ! k) then ?zs else ys)"
      using inv' True L len k by (auto simp: pass_inv_def nth_list_update min_def le_Suc_eq)
    then show ?thesis using sort_step_swap [of k ys] k len by auto
  next
    case False
    have "sint (ys ! k) \<le> sint (ys ! (k + 1))"
    proof (cases "L \<le> k")
      case True
      then show ?thesis using inv' placed k by (simp add: placed_def)
    next
      case False
      then have "k < length (take L ys)" using k len by simp
      then have "take L ys ! k \<in> set (take L ys)" by (rule nth_mem)
      moreover have "set (take L ys) = set (take L xs)" using inv' mset_eq_setD by blast
      ultimately obtain i where "i < L" "ys ! k = xs ! i"
        using False L by (auto simp: in_set_conv_nth)
      then show ?thesis
        using inv' placed k \<open>\<not> Suc k < L\<close> False by (auto simp: placed_def)
    qed
    then have "sort_step k ys = Some ys" using sort_step_swap [of k ys] k len by simp
    moreover have "min (Suc k) (L - 1) = min k (L - 1)" using False by simp
    ultimately show ?thesis using inv' by (auto simp: pass_inv_def)
  qed
qed

lemma pass_run:
  assumes "placed L xs" and "0 < L" "L \<le> length xs" and "k + 1 \<le> length xs"
  shows "\<exists>ys. for_o [0..<k] sort_step xs = Some ys \<and> pass_inv L k xs ys"
  using assms(4)
proof (induction k)
  case 0
  then show ?case by (simp add: pass_inv_def)
next
  case (Suc k)
  then obtain ys where ys: "for_o [0..<k] sort_step xs = Some ys" "pass_inv L k xs ys" by auto
  from pass_inv_step [OF ys(2) assms(1)] Suc.prems assms(2,3)
  obtain zs where "sort_step k ys = Some zs" "pass_inv L (Suc k) xs zs" by auto
  with ys(1) show ?case by (simp add: for_o_append)
qed

lemma pass_places:
  assumes "pass_inv L (length xs - 1) xs ys" and "placed L xs" and "0 < L" "L \<le> length xs"
  shows "placed (L - 1) ys \<and> length ys = length xs \<and> mset ys = mset xs"
proof -
  note inv = assms(1) [unfolded pass_inv_def]
  have m: "min (length xs - 1) (L - 1) = L - 1" using assms(3,4) by simp
  have drop: "drop L ys = drop L xs" using inv by (intro nth_equalityI) simp_all
  have "mset ys = mset (take L ys) + mset (drop L ys)" by (simp flip: mset_append)
  also have "\<dots> = mset xs" using inv drop by (simp flip: mset_append)
  finally have ms: "mset ys = mset xs" .
  have "sint (ys ! i) \<le> sint (ys ! j)" if ij: "i \<le> j" "L - 1 \<le> j" "j < length ys" for i j
  proof (cases "j = L - 1")
    case True
    then show ?thesis using inv m ij by simp
  next
    case False
    then have j: "L \<le> j" "ys ! j = xs ! j" using ij inv by auto
    show ?thesis
    proof (cases "i < L")
      case True
      have "i < length (take L ys)" using True ij by simp
      then have "take L ys ! i \<in> set (take L ys)" by (rule nth_mem)
      moreover have "set (take L ys) = set (take L xs)" using inv mset_eq_setD by blast
      ultimately obtain i' where "i' < L" "ys ! i = xs ! i'"
        using True by (auto simp: in_set_conv_nth)
      then show ?thesis using assms(2) j ij inv by (simp add: placed_def)
    next
      case False
      then show ?thesis using assms(2) j ij inv by (simp add: placed_def)
    qed
  qed
  then show ?thesis using inv ms by (simp add: placed_def)
qed

lemma passes_place:
  assumes "placed L xs" and "L \<le> length xs" and "n \<le> L"
  shows "\<exists>ys. for_o [0..<n] (\<lambda>_. for_o [0..<length xs - 1] sort_step) xs = Some ys \<and>
    placed (L - n) ys \<and> length ys = length xs \<and> mset ys = mset xs"
  using assms(3)
proof (induction n)
  case 0
  then show ?case using assms(1) by simp
next
  case (Suc n)
  then obtain ys where ys: "for_o [0..<n] (\<lambda>_. for_o [0..<length xs - 1] sort_step) xs = Some ys"
    "placed (L - n) ys" "length ys = length xs" "mset ys = mset xs" by auto
  have b: "0 < L - n" "L - n \<le> length ys" "length xs - 1 + 1 \<le> length ys"
    using Suc.prems assms(2) ys(3) by simp_all
  obtain zs where zs: "for_o [0..<length xs - 1] sort_step ys = Some zs"
    "pass_inv (L - n) (length xs - 1) ys zs" using pass_run [OF ys(2) b] by blast
  have "pass_inv (L - n) (length ys - 1) ys zs" using zs(2) ys(3) by simp
  from pass_places [OF this ys(2) b(1,2)]
  have "placed (L - n - 1) zs \<and> length zs = length ys \<and> mset zs = mset ys" .
  with zs ys show ?case by (simp add: for_o_append)
qed

lemma sort_array_sorts:
  "\<exists>ys. sort_array xs = Some ys \<and> mset ys = mset xs \<and> sorted (map sint ys)"
proof -
  have "placed (length xs) xs" by (simp add: placed_def)
  from passes_place [OF this order_refl order_refl]
  obtain ys where "sort_array xs = Some ys" "placed 0 ys" "mset ys = mset xs"
    unfolding sort_array_def by auto
  moreover from \<open>placed 0 ys\<close> have "sorted (map sint ys)"
    unfolding sorted_iff_nth_mono by (simp add: placed_def)
  ultimately show ?thesis by blast
qed

text \<open>The sorting loop of \<open>Time_Type1\<close> sorts: on an array of any size it stays inside the
  array, permutes its elements and leaves them in ascending order.\<close>

theorem bubble_sort_sorts:
  "\<exists>ys. sort_array xs = Some ys \<and> mset ys = mset xs \<and> sorted (map sint ys)"
  by (rule sort_array_sorts)

subsection \<open>No access outside an array\<close>

lemma for_o_inv:
  assumes "I s" and "\<And>i t. i \<in> set is \<Longrightarrow> I t \<Longrightarrow> \<exists>t'. f i t = Some t' \<and> I t'"
  shows "\<exists>s'. for_o is f s = Some s' \<and> I s'"
  using assms by (induction "is" arbitrary: s) fastforce+

definition arrays_wf :: "arrays \<Rightarrow> bool" where
  "arrays_wf m \<longleftrightarrow> length (array2 m) = 1000 \<and> length (array4 m) = 130 \<and>
     length (array5 m) = 13000 \<and> length (arrayP m) = 8000 \<and> length (arrayP3 m) = 8000 \<and>
     length (arrayP5 m) = 8000"

lemma steps_bound: "i \<in> set (steps a b d) \<Longrightarrow> 0 < d \<Longrightarrow> a \<le> b \<Longrightarrow> a \<le> i \<and> i < b"
proof -
  assume "i \<in> set (steps a b d)" and d: "0 < d" and ab: "a \<le> b"
  then obtain k where k: "i = a + k * d" "k < (b - a + d - 1) div d" by (auto simp: steps_def)
  then have "(k + 1) * d \<le> b - a + d - 1"
    by (metis Suc_eq_plus1 Suc_leI d less_eq_div_iff_mult_less_eq)
  with d ab k(1) show "a \<le> i \<and> i < b" by simp
qed

lemma touch_safe: "length a = 8000 \<Longrightarrow> \<exists>b. touch a = Some b \<and> length b = 8000"
  unfolding touch_def
  by (rule for_o_inv, assumption, rule for_o_inv, assumption)
    (auto simp: load_def store_def dest!: steps_bound)

lemma Type1_safe: "length g = 10 \<Longrightarrow> \<exists>h. Time_Type1 g = Some h \<and> length h = 10"
proof -
  assume g: "length g = 10"
  have "\<exists>xs. for_o [0..<10] (\<lambda>i a. store a i (10 - of_nat i)) g = Some xs \<and> length xs = 10"
    by (rule for_o_inv [where I = "\<lambda>a. length a = 10"]) (auto simp: g store_def)
  then obtain xs where xs: "for_o [0..<10] (\<lambda>i a. store a i (10 - of_nat i)) g = Some xs" "length xs = 10"
    by blast
  obtain ys where "sort_array xs = Some ys" "mset ys = mset xs" using sort_array_sorts by blast
  moreover from this have "length ys = 10" using xs(2) by (metis size_mset)
  ultimately show ?thesis using xs by (simp add: Time_Type1_def)
qed

lemma Type1_times_safe: "length g = 10 \<Longrightarrow> \<exists>h. Type1_times n g = Some h \<and> length h = 10"
  unfolding Type1_times_def by (rule for_o_inv) (auto intro: Type1_safe)

lemma loads_safe:
  assumes "arrays_wf m" and "length g = 10"
  shows "\<exists>m'. Time_Type2 m = Some m' \<and> arrays_wf m'"
    and "\<exists>m'. Time_Type4 m = Some m' \<and> arrays_wf m'"
    and "\<exists>m'. Time_Type5 m = Some m' \<and> arrays_wf m'"
    and "\<exists>m'. Time_TypeP2 g m = Some m' \<and> arrays_wf m'"
    and "\<exists>m'. Time_TypeP3 m = Some m' \<and> arrays_wf m'"
    and "\<exists>m'. Time_TypeP4 g m = Some m' \<and> arrays_wf m'"
    and "\<exists>m'. Time_TypeP5 m = Some m' \<and> arrays_wf m'"
proof -
  note wf = assms(1) [unfolded arrays_wf_def]
  have "\<exists>a. for_o (steps 0 1000 10) (\<lambda>i a. store a i (of_nat i)) (array2 m) = Some a \<and> length a = 1000"
    by (rule for_o_inv) (auto simp: wf store_def dest!: steps_bound)
  moreover have "\<exists>b. for_o (steps 1 1000 10) (\<lambda>i a. do { v \<leftarrow> load a (i - 1); store a i v }) a = Some b \<and>
      length b = 1000" if "length a = 1000" for a :: "s32 list"
    by (rule for_o_inv, rule that) (auto simp: load_def store_def dest!: steps_bound)
  ultimately show "\<exists>m'. Time_Type2 m = Some m' \<and> arrays_wf m'"
    using wf by (fastforce simp: Time_Type2_def arrays_wf_def)
  have "\<exists>a. for_o (steps 10 130 1) (\<lambda>i a. do {
       w \<leftarrow> load a (i - 1); x \<leftarrow> load a (i - 2); y \<leftarrow> load a (i - 3); z \<leftarrow> load a (i - 4);
       a' \<leftarrow> store a i (w + x + y + z);
       store a' (i div 10) (w + x + y + z) }) (array4 m) = Some a \<and> length a = 130"
    by (rule for_o_inv) (auto simp: wf load_def store_def dest!: steps_bound)
  then show "\<exists>m'. Time_Type4 m = Some m' \<and> arrays_wf m'"
    using wf by (auto simp: Time_Type4_def arrays_wf_def)
  have "\<exists>a. for_o (steps 1000 13000 100) (\<lambda>i a. do {
       v \<leftarrow> load a i; w \<leftarrow> load a (i - 100); x \<leftarrow> load a (i - 200); y \<leftarrow> load a (i - 300);
       z \<leftarrow> load a (i - 400); store a (i div 1000) (v + w + x + y + z) }) (array5 m) = Some a \<and>
      length a = 13000"
    by (rule for_o_inv) (auto simp: wf load_def store_def dest!: steps_bound)
  then show "\<exists>m'. Time_Type5 m = Some m' \<and> arrays_wf m'"
    using wf by (auto simp: Time_Type5_def arrays_wf_def)
  obtain h where h: "Type1_times 10 g = Some h" "length h = 10"
    using Type1_times_safe [OF assms(2)] by blast
  obtain h' where h': "Type1_times 10 h = Some h'" using Type1_times_safe [OF h(2)] by blast
  show "\<exists>m'. Time_TypeP2 g m = Some m' \<and> arrays_wf m'"
    using wf touch_safe [of "arrayP m"] h h' by (auto simp: Time_TypeP2_def arrays_wf_def)
  show "\<exists>m'. Time_TypeP3 m = Some m' \<and> arrays_wf m'"
    using wf touch_safe [of "arrayP3 m"] by (auto simp: Time_TypeP3_def arrays_wf_def)
  show "\<exists>m'. Time_TypeP4 g m = Some m' \<and> arrays_wf m'"
    using assms(1) h by (auto simp: Time_TypeP4_def)
  show "\<exists>m'. Time_TypeP5 m = Some m' \<and> arrays_wf m'"
    using wf touch_safe [of "arrayP5 m"] by (auto simp: Time_TypeP5_def arrays_wf_def)
qed

lemma init_safe:
  assumes "arrays_wf m"
  shows "\<exists>m'. Time_Init m = Some m' \<and> arrays_wf m'"
proof -
  note wf = assms [unfolded arrays_wf_def]
  have a: "\<exists>a'. for_o (steps 0 n 1) (\<lambda>i a. store a i (f i)) a = Some a' \<and> length a' = n"
    if "length a = n" for n f and a :: "s32 list"
    by (rule for_o_inv, rule that) (auto simp: store_def dest!: steps_bound)
  have p: "\<exists>t'. for_o (steps 0 8000 1) (\<lambda>i (p, p3, p5). do {
        p' \<leftarrow> store p i (of_nat i); p3' \<leftarrow> store p3 i (of_nat i); p5' \<leftarrow> store p5 i (of_nat i);
        Some (p', p3', p5') }) t = Some t' \<and>
      (case t' of (p, p3, p5) \<Rightarrow> length p = 8000 \<and> length p3 = 8000 \<and> length p5 = 8000)"
    if "case t of (p, p3, p5) \<Rightarrow> length p = 8000 \<and> length p3 = 8000 \<and> length p5 = 8000"
    for t :: "s32 list \<times> s32 list \<times> s32 list"
    by (rule for_o_inv, rule that) (auto simp: store_def dest!: steps_bound)
  obtain a2 where "for_o (steps 0 1000 1) (\<lambda>i a. store a i (of_nat i)) (array2 m) = Some a2" "length a2 = 1000"
    using a [where a = "array2 m" and n = 1000 and f = of_nat] wf by blast
  moreover obtain a4 where "for_o (steps 0 130 1) (\<lambda>i a. store a i (of_nat i * 2)) (array4 m) = Some a4"
    "length a4 = 130" using a [where a = "array4 m" and n = 130 and f = "\<lambda>i. of_nat i * 2"] wf by blast
  moreover obtain a5 where "for_o (steps 0 13000 1) (\<lambda>i a. store a i (of_nat i * 2)) (array5 m) = Some a5"
    "length a5 = 13000" using a [where a = "array5 m" and n = 13000 and f = "\<lambda>i. of_nat i * 2"] wf by blast
  ultimately show ?thesis
    using p [of "(arrayP m, arrayP3 m, arrayP5 m)"] wf by (auto simp: Time_Init_def arrays_wf_def)
qed

subsection \<open>The measuring loop ends\<close>

lemma measure_load_safe:
  assumes "arrays_wf m" and "length g = 10"
  shows "\<exists>m'. measure_load g m = Some m' \<and> arrays_wf m'"
proof -
  obtain m1 where 1: "Time_TypeP3 m = Some m1" "arrays_wf m1" using loads_safe(5) [OF assms] by blast
  obtain m2 where 2: "Time_TypeP4 g m1 = Some m2" "arrays_wf m2" using loads_safe(6) [OF 1(2) assms(2)] by blast
  obtain m3 where 3: "Time_TypeP5 m2 = Some m3" "arrays_wf m3" using loads_safe(7) [OF 2(2) assms(2)] by blast
  from 1 2 3 show ?thesis by (simp add: measure_load_def)
qed

text \<open>The measured times do not exceed \<open>B\<close> nanoseconds, whatever \<open>Texe\<close> held before.\<close>

definition times_bounded :: "'d prf_api \<Rightarrow> int \<Rightarrow> bool" where
  "times_bounded A B \<longleftrightarrow> (\<forall>t d. sint (snd (fst (stop_profiling A t d))) \<le> B)"

definition turns_for :: "int \<Rightarrow> nat" where
  "turns_for B = max 350 (nat ((B + 999) div 1000))"

lemma sint_turns:
  assumes "k \<le> 2 ^ 41"
  shows "sint (of_nat k :: s64) = int k" and "sint (of_nat k * 1000 :: s64) = 1000 * int k"
proof -
  have r: "sint (of_int z :: s64) = z" if "0 \<le> z" "z < 2 ^ 63" for z
    using that by (simp add: signed_of_int signed_take_bit_int_eq_self)
  show "sint (of_nat k :: s64) = int k" using r [of "int k"] assms by simp
  show "sint (of_nat k * 1000 :: s64) = 1000 * int k"
    using r [of "1000 * int k"] assms by (simp add: mult.commute)
qed

definition loop_inv :: "nat \<Rightarrow> int \<Rightarrow> a60hz \<Rightarrow> bool" where
  "loop_inv k B v \<longleftrightarrow> Tint v = of_nat k \<and> length (printed v) = k \<and> (350 \<le> k \<longrightarrow> sint (Texe v) \<le> B)"

lemma loop_inv_exit:
  assumes "loop_inv k B v" and "k \<le> turns_for B" and "B \<le> 2 ^ 50"
  shows "more_to_measure v \<Longrightarrow> k < turns_for B" and "\<not> more_to_measure v \<Longrightarrow> 350 \<le> k"
proof -
  have "turns_for B \<le> 2 ^ 41" using assms(3) by (simp add: turns_for_def)
  then have k: "k \<le> 2 ^ 41" using assms(2) by simp
  note s = sint_turns [OF k] and inv = assms(1) [unfolded loop_inv_def]
  show "\<not> more_to_measure v \<Longrightarrow> 350 \<le> k" using inv s by (simp add: more_to_measure_def)
  assume m: "more_to_measure v"
  show "k < turns_for B"
  proof (rule ccontr)
    assume "\<not> k < turns_for B"
    then have k': "k = turns_for B" using assms(2) by simp
    then have "350 \<le> k" "B \<le> 1000 * int k" by (simp_all add: turns_for_def) 
    then show False using m inv s by (simp add: more_to_measure_def)
  qed
qed

lemma measure_loop_run:
  assumes "times_bounded A B" and "B \<le> 2 ^ 50" and "length g = 10"
  shows "loop_inv k B v \<Longrightarrow> k + n = turns_for B \<Longrightarrow> arrays_wf m \<Longrightarrow>
    \<exists>v' m' d' k'. measure_loop n A g (v, m, d) = Some (v', m', d') \<and> arrays_wf m' \<and>
      loop_inv k' B v' \<and> 350 \<le> k' \<and> k' \<le> turns_for B \<and> \<not> more_to_measure v'"
proof (induction n arbitrary: k v m d)
  case 0
  then show ?case using loop_inv_exit [OF 0(1) _ assms(2)] by fastforce
next
  case (Suc n)
  have le: "k \<le> turns_for B" using Suc.prems(2) by simp
  show ?case
  proof (cases "more_to_measure v")
    case False
    then show ?thesis using Suc.prems loop_inv_exit(2) [OF Suc.prems(1) le assms(2)] le by auto
  next
    case True
    obtain m' where m': "measure_load g m = Some m'" "arrays_wf m'"
      using measure_load_safe [OF Suc.prems(3) assms(3)] by blast
    obtain r t d2 where st: "stop_profiling A (Texe v)
        (start_profiling A (Tint v) Ttimeout (invalidate_L1 A d)) = ((r, t), d2)"
      by (metis surj_pair)
    have "sint t \<le> B" using assms(1) st unfolding times_bounded_def by (metis fst_conv snd_conv)
    then have "loop_inv (Suc k) B (measure_note r t v)"
      using Suc.prems(1) by (simp add: loop_inv_def measure_note_def Let_def)
    from Suc.IH [OF this _ m'(2), of d2] Suc.prems(2) True m'(1) st
    show ?thesis by (simp add: measure_turn_def)
  qed
qed

lemma execute_safe:
  assumes "times_bounded A B" and "B \<le> 2 ^ 50" and "length g = 10" and "arrays_wf m"
  shows "\<exists>m' d'. time_A60Hz_Execute (turns_for B) A g (m, d) = Some (m', d') \<and> arrays_wf m'"
proof -
  have "loop_inv 0 B a60hz_start" by (simp add: loop_inv_def a60hz_start_def)
  from measure_loop_run [OF assms(1-3) this _ assms(4), of "turns_for B" d]
  show ?thesis by (auto simp: time_A60Hz_Execute_def)
qed

text \<open>The test program ends and never leaves an array: if no measured time exceeds \<open>B\<close>
  nanoseconds, each of the ten runs of the measuring loop takes at most the larger of 350 and
  \<open>B / 1000\<close> turns, rounded up, and \<open>main\<close> returns 0.\<close>

theorem test_program_ends:
  assumes "times_bounded A B" and "B \<le> 2 ^ 50" and "length garbage = 10"
  shows "\<exists>m d'. main_program (turns_for B) A garbage d = Some (0, m, d') \<and> arrays_wf m"
proof -
  have "arrays_wf static_arrays" by (simp add: arrays_wf_def static_arrays_def)
  then obtain m where m: "Time_Init static_arrays = Some m" "arrays_wf m" using init_safe by blast
  have "\<exists>s. for_o [0..<10] (\<lambda>_ (m, d). time_A60Hz_Execute (turns_for B) A garbage (m, invalidate_L1 A d))
      (m, d) = Some s \<and> arrays_wf (fst s)"
    by (rule for_o_inv) (use m(2) execute_safe [OF assms] in \<open>fastforce+\<close>)
  then show ?thesis
    using m by (auto simp: main_program_def run_tests_def test_check_def time_A60Hz_Initialize_def)
qed

definition demo_prf :: "unit prf_api" where
  "demo_prf = \<lparr>invalidate_L1 = (\<lambda>d. d), start_profiling = (\<lambda>_ _ d. d),
     stop_profiling = (\<lambda>_ d. ((0, 420000), d))\<rparr>"

theorem test_program_ends_witness:
  "\<exists>m d'. main_program 420 demo_prf (replicate 10 0) () = Some (0, m, d') \<and> arrays_wf m"
proof -
  have "times_bounded demo_prf 420000" by (simp add: times_bounded_def demo_prf_def)
  from test_program_ends [OF this, of "replicate 10 0" "()"] show ?thesis by (simp add: turns_for_def)
qed

end
