(* ===== verification/Spec2Isabelle.thy ===== *)
theory Spec2Isabelle
  imports Profiling Sched_rt_timer Sched_balance_correct L1_invalidator Testcase
begin

text \<open>
  Verification of a measuring rig for worst-case execution times on a Freescale P2020 (PowerPC
  e500, two cores, Linux 2.6.32). The directories below are those under \<open>src\<close>.

  \<^bold>\<open>The program.\<close> A program under measurement calls \<open>START_PROFILING\<close>, runs the code to be
  measured and calls \<open>STOP_PROFILING\<close> (\<open>FAILED_profiling_lib/libprf.c\<close>). The calls write
  requests to \<open>/proc/os_ctrl\<close>, which the kernel module
  \<open>FAILED_Linux_kernel_patch_attempt/km_os_ctrl/os_ctrl.c\<close> serves: a start request flushes the
  L1 caches, switches the interrupts off, arms two watchdog timers and one that flushes the
  caches again at a requested time, and locks the scheduler to the calling process with
  \<open>set_pid_force_run\<close>; a stop request undoes this and makes a profile ready, which a read
  fetches. \<open>set_pid_force_run\<close> and the lock it sets are a patch of the kernel's scheduler,
  \<open>scheduler_mod/sched_mod.c\<close> (the original is \<open>scheduler_mod/sched_orig.c\<close>).
  \<open>L1_invalidate_Kernel_module/L1-invalidator.c\<close> is a second module that only flushes
  the caches, on a write to \<open>/proc/Invalidate_L1\<close>; \<open>testcase\<close> holds a program that measures
  loads with a small or large footprint in the cache.

  \<^bold>\<open>Theories.\<close> The model is a shallow embedding. A C function is a definition of the same name in
  the state monad of \<open>HOL-Library.State_Monad\<close> over a record of the component's static variables.
  Integers have the width of the 32-bit target. \<open>NULL\<close> is \<open>None\<close>; a definition whose result
  is an option answers \<open>None\<close> where the code crashes or runs out of the given number of turns.
  \<^item> \<open>Prelude\<close>: types, the monad's loops, \<open>keeps\<close> (an operation leaves an observation alone)
    with its rules, word arithmetic.
  \<^item> \<open>Os_ctrl_common\<close>: \<open>os_ctrl_common.h\<close>, the messages and their encoding, \<open>ELAPSED\<close>.
  \<^item> \<open>E500_cache\<close>: the instructions of the cache invalidation and what the two \<open>asm\<close> statements do
    on the processor. \<open>Kernel_env\<close>: the kernel services the modules call, as parameters.
  \<^item> \<open>L1_invalidator\<close>: \<open>L1-invalidator.c\<close> and \<open>INVALIDATE_L1\<close> of \<open>test_extensions.c\<close>.
  \<^item> \<open>Sched_types\<close>: the data of \<open>sched_mod.c\<close> as configured by \<open>linux.config\<close>; \<open>Sched_prio\<close>:
    priorities, weights, averages; \<open>Sched_core\<close>: runqueue clock and locks; \<open>Sched_force\<close>:
    \<open>set_pid_force_run\<close>, as a function and as a step relation of several CPUs.
  \<^item> \<open>Sched_wakeup\<close>: queueing, waking, moving and forking tasks; \<open>Sched_load\<close>: load averages and
    counts; \<open>Sched_balance\<close>: load balancing between CPUs and the owner of idle balancing, with
    its properties in \<open>Sched_balance_correct\<close>.
  \<^item> \<open>Sched_schedule\<close>: high resolution tick, context switch, the patched \<open>schedule\<close> and the original
    one of \<open>sched_orig.c\<close>; \<open>Sched_schedule_correct\<close>: what the patch changes and what it does not.
  \<^item> \<open>Sched_acct\<close>: CPU time accounting and the timer tick. \<open>Sched_wait\<close>: wait queues, completions,
    giving up the CPU. \<open>Sched_params\<close>: nice values, policies, priority inheritance and their
    system calls. \<open>Sched_affinity\<close>: affinity masks, the migration thread and its requests.
    \<open>Sched_hotplug\<close>: idle tasks, and the tasks, counters and requests of a CPU that dies.
  \<^item> \<open>Sched_tunables\<close>: the file of debug features, the \<open>sysctl\<close> tables of the domains, the settings of
    the real-time bandwidth. \<open>Sched_domains\<close>: scheduling domains, their groups and root domains: building,
    attaching, partitioning and freeing them; \<open>Sched_domains_correct\<close>: an abstract topology that attaching
    a runqueue refines, and the invariant of the root domains; \<open>Sched_domains_built\<close>: the domains that are
    built pass the kernel's own check. \<open>Sched_boot\<close>: \<open>sched_init\<close>, which establishes that invariant,
    and the tree of task groups. \<open>Sched_rt_timer\<close>: the period timer of the real-time bandwidth.
  \<^item> \<open>Os_ctrl\<close>: \<open>os_ctrl.c\<close>, on top of \<open>Sched_force\<close> and the caches; \<open>Os_ctrl_correct\<close>: its
    step relation (requests, reads, expiring timers, the rest of the system), the invariant, and
    each handler's effect.
  \<^item> \<open>Libprf\<close>: \<open>libprf.c\<close> against the interface \<open>profiler_device\<close>; \<open>Profiling\<close> shows that the
    module's handlers keep that contract, and what follows for a whole profile.
  \<^item> \<open>Testcase\<close>: \<open>time_types.c\<close>, \<open>time_a60hz.c\<close>, \<open>test_time_a60hz.c\<close>.
  \<^item> This theory: the composition of module and scheduler over a profiled run.

  \<^bold>\<open>Parameters.\<close> Code that is not in the repository is an argument of the model: the scheduling
  classes (record \<open>class_ops\<close>), the rest of the kernel (\<open>services\<close>, \<open>others\<close>), timers, memory and
  the proc file system (\<open>os_env\<close>, \<open>module_env\<close>), the C library (\<open>libc\<close>). Where a property needs
  something of them it is a hypothesis: \<open>hrtimer_laws\<close>, \<open>queue_ops_keep\<close>, \<open>classes_leave\<close>,
  \<open>policy_ops_keep\<close>, \<open>wake_keeps\<close>, \<open>libc_works\<close>, \<open>root_ops_keep\<close> and \<open>boot_ops_keep\<close> (what the classes leave
  alone when a runqueue goes on or off line), \<open>fresh_roots\<close> (allocated memory is not in use), \<open>cpu_init_law\<close> and
  \<open>one_node\<close> (the architecture's topology), \<open>dointvec_law\<close>, \<open>feature_names_ok\<close>; each is met by an instance used in the witnesses.

  \<^bold>\<open>Fuel.\<close> The loops that may not end take a number of turns and answer \<open>None\<close> when it is used
  up. That enough turns give an answer is proved for the \<open>redo\<close> loop of \<open>load_balance\<close>
  (\<open>NR_CPUS\<close> rounds, \<open>lb_rounds_bound\<close>), for \<open>sched_avg_update\<close> (the number of periods passed,
  \<open>sched_avg_update_ends\<close>) and for the test program (\<open>test_program_ends\<close>); for \<open>schedule\<close> it is
  decided when it does (\<open>forced_schedule_returns_iff\<close>), and likewise for a wait for a completion
  (\<open>wait_returns_iff_completed\<close>). The migration thread needs a turn per request
  (\<open>migration_thread_serves\<close>), moving a task off a dead CPU one turn, unless no CPU is active
  (\<open>dead_cpu_task_moved\<close>, \<open>dead_cpu_task_stuck\<close>). \<open>ASM_FUEL\<close> exceeds the number of
  instructions of one cache flush, which is part of \<open>procfile_write_flushes\<close>. Pruning the parents of a domain
  has \<open>SD_LV_MAX + 1\<close> turns: each goes one level up or drops one. The period timer returns as soon as a turn
  finds no overrun (\<open>period_timer_returns_iff\<close>), and starting it takes two turns (\<open>start_rt_bandwidth_ends\<close>).

  \<^bold>\<open>Not modelled.\<close> Of \<open>sched_mod.c\<close>: the functions that print the state of tasks, and what is configured out:
  the functions for the debugger, control groups, NUMA, SMT and multi-core domains and preemption of the
  kernel. \<open>Time_Type3\<close> of \<open>time_types.c\<close>
  computes with floating point numbers and is not called. Memory ordering and the instruction
  timing of the processor are not modelled: locks are events in a log, and interleavings are
  modelled where the code's correctness depends on them (\<open>Sched_force\<close>, the steps of
  \<open>Os_ctrl_correct\<close>, idle balancing).
\<close>

section \<open>A profiled run is not interrupted\<close>

definition run_schedule :: "nat \<Rightarrow> 'x kops \<Rightarrow> nat list \<Rightarrow> ('x kst, unit) state" where
  "run_schedule fuel K ns = for_each ns (\<lambda>n. do { _ \<leftarrow> schedule n fuel K; skip })"

lemma run_schedule_calm:
  assumes "forced_here s"
  shows "calm x (k_this_cpu s) (k_current s) (exec (run_schedule fuel K ns) s) =
    calm x (k_this_cpu s) (k_current s) s"
  using assms
proof (induction ns arbitrary: s)
  case (Cons n ns)
  have c: "calm x (k_this_cpu s) (k_current s) (exec (schedule n fuel K) s) =
      calm x (k_this_cpu s) (k_current s) s" for x
    unfolding schedule_exec by (rule blocked_loop [OF Cons.prems]) (simp add: blocked_at_def)
  note f = forced_calm [OF c]
  show ?case
    using Cons.IH [of "exec (schedule n fuel K) s"] Cons.prems f c by (simp add: run_schedule_def)
qed (simp add: run_schedule_def)

lemma calm_last_p_id: "calm x c p s = calm x c p t \<Longrightarrow> k_last_p_id s = k_last_p_id t"
  by (drule arg_cong [where f = k_last_p_id]) (simp add: calm_def)

text \<open>The parts of the scheduler's state that a request leaves alone.\<close>

definition kern_obs where
  "kern_obs s = (k_task (kern s), k_rq (kern s), k_current (kern s), k_this_cpu (kern s))"

lemma keeps_in_kern_force [keeps_intros]: "keeps kern_obs (in_kern (set_pid_force_run p))"
  by (rule keepsI) (simp add: kern_obs_def set_pid_force_run_exec)

lemma keeps_kern_obs_timers [keeps_intros]:
  "keeps kern_obs (upd_timer t f)" "keeps kern_obs (call_timer t g)"
  by (rule keepsI, simp add: kern_obs_def)+

lemma keeps_kern_obs_written: "keeps kern_obs (on_written_handler E user)"
  unfolding on_written_handler_def parse_request_def handle_cmd_def set_os_def start_timer_def
    cancel_if_active_def IRQ_ENABLE_def IRQ_DISABLE_def reset_cntrs_def find_task_def Let_def
    os_flush_and_invalidate_L1_data_cache_def os_invalidate_L1_instruction_cache_def
    dcache_statement_def asm_volatile_def load_operands_def
  by ((intro keeps_intros; (simp add: kern_obs_def)?)+)

text \<open>The running process can be forced on its CPU: it is the current task of a runqueue that counts
  it, and its id is not 0 or 1.\<close>

definition can_be_forced :: "s32 \<Rightarrow> 'x kst \<Rightarrow> bool" where
  "can_be_forced pid s \<longleftrightarrow> 1 < sint pid \<and> forced_here (s\<lparr>k_pid_force_run := pid\<rparr>)"

lemma written_kern:
  "k_task (kern (exec (on_written_handler E user) s)) = k_task (kern s)"
  "k_rq (kern (exec (on_written_handler E user) s)) = k_rq (kern s)"
  "k_current (kern (exec (on_written_handler E user) s)) = k_current (kern s)"
  "k_this_cpu (kern (exec (on_written_handler E user) s)) = k_this_cpu (kern s)"
  using keepsD [OF keeps_kern_obs_written, of E user s] by (simp_all add: kern_obs_def)

lemma start_osc_inv:
  assumes "usable E pid s"
  shows "osc_inv (exec (on_written_handler E (start_request pid us)) s)"
  using usable_start(2) [OF assms, of us] by (simp add: usable_def)

lemma start_facts:
  fixes s :: "('w, 'x) os_ctrl"
  assumes use: "usable E pid s" and last: "last_enable s \<noteq> OS_CTRL_OS_DISABLE"
    and can: "can_be_forced pid (kern s)"
    and s1: "s1 = exec (on_written_handler E (start_request pid us)) s"
  shows "d_nvcsw s1 = t_nvcsw (k_task (kern s) (k_current (kern s)))"
    and "d_nivcsw s1 = t_nivcsw (k_task (kern s) (k_current (kern s)))"
    and "forced_here (kern s1)" and "osc_inv s1"
proof -
  have u: "hrtimer_laws E" "osc_inv s" "copy_from_user E u (world t) = (0, u)"
    "PROCFS_MAX_SIZE \<le> length (module_data s)"
    "t_pid (k_task (kern s) (k_current (kern s))) = pid" for u and t :: "('w, 'x) os_ctrl"
    using use by (simp_all add: usable_def)
  note st = start_effect [where user = "start_request pid us" and pid = pid and us = us,
      OF u(1,2) last u(3) start_request_def u(4,5), folded s1]
  have lock: "os_locked pid s1" using st by (simp add: Let_def)
  show "d_nvcsw s1 = t_nvcsw (k_task (kern s) (k_current (kern s)))"
    "d_nivcsw s1 = t_nivcsw (k_task (kern s) (k_current (kern s)))"
    using st by (simp_all add: Let_def)
  show "forced_here (kern s1)"
    using can lock by (simp add: can_be_forced_def forced_here_def Let_def os_locked_def s1 written_kern)
  show "osc_inv s1" unfolding s1 by (rule start_osc_inv [OF use])
qed

lemma run_schedule_frame:
  assumes f: "forced_here s" and k: "k = exec (run_schedule fuel K ns) s"
  shows "k_current k = k_current s" and "rq_curr (k_rq k (k_this_cpu s)) = k_current s"
    and "t_nvcsw (k_task k (k_current s)) = t_nvcsw (k_task s (k_current s))"
    and "t_nivcsw (k_task k (k_current s)) = t_nivcsw (k_task s (k_current s))"
    and "t_pid (k_task k (k_current s)) = t_pid (k_task s (k_current s))"
    and "k_pid_force_run k = k_pid_force_run s" and "k_last_p_id k = k_last_p_id s"
proof -
  have c: "calm (k_ext s) (k_this_cpu s) (k_current s) k = calm (k_ext s) (k_this_cpu s) (k_current s) s"
    unfolding k by (rule run_schedule_calm [OF f])
  show "k_current k = k_current s" "rq_curr (k_rq k (k_this_cpu s)) = k_current s"
    "t_nvcsw (k_task k (k_current s)) = t_nvcsw (k_task s (k_current s))"
    "t_nivcsw (k_task k (k_current s)) = t_nivcsw (k_task s (k_current s))"
    "t_pid (k_task k (k_current s)) = t_pid (k_task s (k_current s))"
    "k_pid_force_run k = k_pid_force_run s" "k_last_p_id k = k_last_p_id s"
    using calm_eqD [OF c] calm_fields [OF c] calm_last_p_id [OF c] f
    by (simp_all add: forced_here_def Let_def)
qed

text \<open>C1. The purpose of the whole. A process that can be forced writes a start request to
  \<open>/proc/os_ctrl\<close>; its CPU enters \<open>schedule\<close> any number of times; the process writes a stop
  request. Then it was never switched out, the module reports no voluntary and no involuntary
  context switch, and the system is on again.\<close>

theorem profiled_run_uninterrupted:
  fixes s :: "('w, 'x) os_ctrl" and K :: "'x kops"
  assumes "usable E pid s" and "last_enable s \<noteq> OS_CTRL_OS_DISABLE"
    and "can_be_forced pid (kern s)"
  shows "let s1 = exec (on_written_handler E (start_request pid us)) s;
             k = exec (run_schedule fuel K ns) (kern s1);
             s2 = exec (on_written_handler E (stop_request pid)) (s1\<lparr>kern := k\<rparr>) in
    k_current k = k_current (kern s) \<and>
    rq_curr (k_rq k (k_this_cpu (kern s))) = k_current (kern s) \<and>
    result (on_written_handler E (stop_request pid)) (s1\<lparr>kern := k\<rparr>) = 5 \<and>
    d_nvcsw s2 = 0 \<and> d_nivcsw s2 = 0 \<and> prf_ready s2 \<and> \<not> os_off s2"
proof -
  define s1 where "s1 = exec (on_written_handler E (start_request pid us)) s"
  define k where "k = exec (run_schedule fuel K ns) (kern s1)"
  note st = start_facts [OF assms s1_def]
  note run = run_schedule_frame [OF st(3) k_def]
  have u: "usable E pid s1" using usable_start(2) [OF assms(1), of us] by (simp add: s1_def)
  have kern: "k_task (kern s1) = k_task (kern s)" "k_current (kern s1) = k_current (kern s)"
    "k_this_cpu (kern s1) = k_this_cpu (kern s)"
    by (simp_all add: s1_def written_kern)
  have u': "hrtimer_laws E" "copy_from_user E v w = (0, v)"
    "PROCFS_MAX_SIZE \<le> length (module_data (s1\<lparr>kern := k\<rparr>))"
    "t_pid (k_task (kern (s1\<lparr>kern := k\<rparr>)) (k_current (kern (s1\<lparr>kern := k\<rparr>)))) = pid" for v w
    using u run by (simp_all add: usable_def)
  have "osc_inv (s1\<lparr>kern := k\<rparr>)" using run(6,7) st(4) by (intro osc_inv_system) simp_all
  note stop = stop_effect [where user = "stop_request pid" and pid = pid,
      OF u'(1) this u'(2) stop_request_def u'(3,4)]
  show ?thesis
    unfolding Let_def s1_def [symmetric] k_def [symmetric]
    using stop st(1,2) run kern by (simp add: switches_since_def)
qed

definition demo_machine :: "(nat, unit) os_ctrl" where
  "demo_machine = demo_start\<lparr>kern := demo_busy\<rparr>"

lemma demo_machine_usable: "usable demo_env 2 demo_machine" "last_enable demo_machine \<noteq> OS_CTRL_OS_DISABLE"
  "can_be_forced 2 (kern demo_machine)"
  using demo_laws demo_copy demo_forced_here
  by (simp_all add: usable_def demo_machine_def demo_start_def osc_inv_def os_off_def force_sync_def
      demo_busy_def blank_kst_def can_be_forced_def demo_forced_def protocol_defs PROCFS_MAX_SIZE_def
      OS_CTRL_OS_DISABLE_def)

theorem profiled_run_uninterrupted_witness:
  "let s1 = exec (on_written_handler demo_env (start_request 2 5)) demo_machine;
       k = exec (run_schedule 0 demo_kops [1, 7, 3]) (kern s1);
       s2 = exec (on_written_handler demo_env (stop_request 2)) (s1\<lparr>kern := k\<rparr>) in
   k_current k = 2 \<and> d_nvcsw s2 = 0 \<and> d_nivcsw s2 = 0 \<and> prf_ready s2 \<and> \<not> os_off s2"
  using profiled_run_uninterrupted [OF demo_machine_usable, where us = 5 and fuel = 0 and
      K = demo_kops and ns = "[1, 7, 3]"]
  by (simp add: Let_def demo_machine_def demo_start_def demo_busy_def)

end
